(* ===== verification/Ghost_Prelude.thy ===== *)
theory Ghost_Prelude
  imports Main "HOL-Library.Multiset" "HOL-Library.List_Lexorder" "HOL-Library.Char_ord"
begin

text \<open>
  Shared vocabulary of the development: the errors of the daemon, the outcome of an
  operation (a result, an error, or the death of the process in the middle of it), programs
  over an explicit state with their sequencing, a small Hoare logic whose rules the component
  proofs apply, and the functions of Go's standard library on strings, slices and maps that
  the sources use.  Strings are byte strings, as in Go.
\<close>

named_theorems go_defs \<open>definitions of standard-library functions, unfolded to evaluate\<close>
named_theorems hoare \<open>rules that decompose a program along its sequencing\<close>

section \<open>Errors, outcomes, programs\<close>

datatype code =
    FailedPrecondition | Unauthenticated | PermissionDenied | InvalidArgument
  | Internal | DeadlineExceeded | Unimplemented

text \<open>
  \<open>Error\<close> is an error built by \<^verbatim>\<open>fmt.Errorf\<close>, with the constant part of its message;
  \<open>Unavailable\<close> one that wraps the address book's \<^verbatim>\<open>ErrUnavailable\<close>; \<open>Status\<close> a gRPC
  status.
\<close>

datatype error = Error string | Unavailable string | Status code string

type_synonym 'a result = "error + 'a"

abbreviation Fail :: "string \<Rightarrow> 'a result" where
  "Fail m \<equiv> Inl (Error m)"

datatype 'a outcome = Done 'a | Err error | Died

type_synonym ('s, 'a) prog = "'s \<Rightarrow> 'a outcome \<times> 's"

definition ret :: "'a \<Rightarrow> ('s, 'a) prog" where
  "ret a s = (Done a, s)"

definition raise :: "error \<Rightarrow> ('s, 'a) prog" where
  "raise e s = (Err e, s)"

definition bindM :: "('s, 'a) prog \<Rightarrow> ('a \<Rightarrow> ('s, 'b) prog) \<Rightarrow> ('s, 'b) prog" where
  "bindM m k s = (case m s of
       (Done a, t) \<Rightarrow> k a t
     | (Err e, t) \<Rightarrow> (Err e, t)
     | (Died, t) \<Rightarrow> (Died, t))"

text \<open>\<open>remap f m\<close> rewrites the error of \<open>m\<close>, as a caller that wraps it does.\<close>

definition remap :: "(error \<Rightarrow> error) \<Rightarrow> ('s, 'a) prog \<Rightarrow> ('s, 'a) prog" where
  "remap f m s = (case m s of
       (Done a, t) \<Rightarrow> (Done a, t)
     | (Err e, t) \<Rightarrow> (Err (f e), t)
     | (Died, t) \<Rightarrow> (Died, t))"

text \<open>\<open>attempt m\<close> turns an error of \<open>m\<close> into a value, as \<^verbatim>\<open>if err := ...\<close> inspects it.\<close>

definition attempt :: "('s, 'a) prog \<Rightarrow> ('s, 'a result) prog" where
  "attempt m s = (case m s of
       (Done a, t) \<Rightarrow> (Done (Inr a), t)
     | (Err e, t) \<Rightarrow> (Done (Inl e), t)
     | (Died, t) \<Rightarrow> (Died, t))"

definition liftR :: "'a result \<Rightarrow> ('s, 'a) prog" where
  "liftR r = (case r of Inl e \<Rightarrow> raise e | Inr a \<Rightarrow> ret a)"

definition getS :: "('s \<Rightarrow> 'a) \<Rightarrow> ('s, 'a) prog" where
  "getS f s = (Done (f s), s)"

definition modS :: "('s \<Rightarrow> 's) \<Rightarrow> ('s, unit) prog" where
  "modS f s = (Done (), f s)"

text \<open>The loop \<^verbatim>\<open>for _, x := range xs { if err := f(x); err != nil { return err } }\<close>.\<close>

fun eachM :: "('a \<Rightarrow> ('s, unit) prog) \<Rightarrow> 'a list \<Rightarrow> ('s, unit) prog" where
  "eachM f [] = ret ()"
| "eachM f (x # xs) = bindM (f x) (\<lambda>_. eachM f xs)"

fun foldM :: "('b \<Rightarrow> 'a \<Rightarrow> ('s, 'b) prog) \<Rightarrow> 'b \<Rightarrow> 'a list \<Rightarrow> ('s, 'b) prog" where
  "foldM f acc [] = ret acc"
| "foldM f acc (x # xs) = bindM (f acc x) (\<lambda>acc'. foldM f acc' xs)"

definition statusOf :: "code \<Rightarrow> error \<Rightarrow> error" where
  "statusOf c e = (case e of
       Error m \<Rightarrow> Status c m
     | Unavailable m \<Rightarrow> Status c m
     | Status _ m \<Rightarrow> Status c m)"

lemmas prog_defs [go_defs] =
  ret_def raise_def bindM_def remap_def attempt_def liftR_def getS_def modS_def

lemma bindM_Done:
  "bindM m k s = (Done b, t) \<longleftrightarrow> (\<exists>a u. m s = (Done a, u) \<and> k a u = (Done b, t))"
  by (auto simp: bindM_def split: prod.splits outcome.splits)

lemma remap_Done [simp]: "remap f m s = (Done a, t) \<longleftrightarrow> m s = (Done a, t)"
  by (auto simp: remap_def split: prod.splits outcome.splits)

lemma liftR_Done [simp]: "liftR x s = (Done a, t) \<longleftrightarrow> x = Inr a \<and> t = s"
  by (auto simp: prog_defs split: sum.splits)

lemma ret_Done [simp]: "ret a s = (Done b, t) \<longleftrightarrow> b = a \<and> t = s" "raise e s \<noteq> (Done b, t)"
  by (auto simp: prog_defs)

subsection \<open>A Hoare logic for programs\<close>

text \<open>
  \<open>hoare P m Q E D\<close>: from a state with \<open>P\<close>, the program ends with a value and state in \<open>Q\<close>,
  with an error and state in \<open>E\<close>, or dies in a state in \<open>D\<close>.
\<close>

definition hoare ::
  "('s \<Rightarrow> bool) \<Rightarrow> ('s, 'a) prog \<Rightarrow> ('a \<Rightarrow> 's \<Rightarrow> bool) \<Rightarrow> ('s \<Rightarrow> bool) \<Rightarrow> ('s \<Rightarrow> bool) \<Rightarrow> bool"
where
  "hoare P m Q E D \<longleftrightarrow> (\<forall>s. P s \<longrightarrow> (case m s of
       (Done a, t) \<Rightarrow> Q a t | (Err e, t) \<Rightarrow> E t | (Died, t) \<Rightarrow> D t))"

lemma hoareI:
  "(\<And>s. P s \<Longrightarrow> (case m s of (Done a, t) \<Rightarrow> Q a t | (Err e, t) \<Rightarrow> E t | (Died, t) \<Rightarrow> D t))
   \<Longrightarrow> hoare P m Q E D"
  by (simp add: hoare_def)

lemma hoare_stepI:
  "(\<And>s r t. P s \<Longrightarrow> m s = (r, t) \<Longrightarrow> (case r of Done a \<Rightarrow> Q a t | Err e \<Rightarrow> E t | Died \<Rightarrow> D t))
   \<Longrightarrow> hoare P m Q E D"
  unfolding hoare_def by (auto split: prod.splits)

lemma hoareD:
  assumes "hoare P m Q E D" "P s"
  shows "m s = (Done a, t) \<Longrightarrow> Q a t" "m s = (Err e, t) \<Longrightarrow> E t" "m s = (Died, t) \<Longrightarrow> D t"
  using assms unfolding hoare_def by (auto dest: spec [of _ s])

lemma hoare_all:
  assumes "hoare P m (\<lambda>_. I) I I" "P s"
  shows "I (snd (m s))"
  using assms unfolding hoare_def
  by (cases "m s"; cases "fst (m s)") (auto dest: spec [of _ s])

lemma hoare_weaken:
  assumes "hoare P m Q E D" "\<And>s. P' s \<Longrightarrow> P s" "\<And>a s. Q a s \<Longrightarrow> Q' a s"
    "\<And>s. E s \<Longrightarrow> E' s" "\<And>s. D s \<Longrightarrow> D' s"
  shows "hoare P' m Q' E' D'"
  using assms unfolding hoare_def by (fastforce split: outcome.splits prod.splits)

lemma hoare_pre: "hoare P m Q E D \<Longrightarrow> (\<And>s. P' s \<Longrightarrow> P s) \<Longrightarrow> hoare P' m Q E D"
  by (rule hoare_weaken)

lemma hoare_ret [hoare]: "hoare (Q a) (ret a) Q E D"
  by (simp add: hoare_def ret_def)

lemma hoare_raise [hoare]: "hoare E (raise e) Q E D"
  by (simp add: hoare_def raise_def)

lemma hoare_bind [hoare]:
  assumes "\<And>a. hoare (R a) (k a) Q E D" "hoare P m R E D"
  shows "hoare P (bindM m k) Q E D"
  using assms unfolding hoare_def bindM_def
  by (fastforce split: outcome.splits prod.splits)

lemma hoare_remap [hoare]: "hoare P m Q E D \<Longrightarrow> hoare P (remap f m) Q E D"
  unfolding hoare_def remap_def by (fastforce split: outcome.splits prod.splits)

lemma hoare_attempt [hoare]:
  assumes "hoare P m (\<lambda>a. Q (Inr a)) (\<lambda>s. \<forall>e. Q (Inl e) s) D"
  shows "hoare P (attempt m) Q E D"
  using assms unfolding hoare_def attempt_def by (fastforce split: outcome.splits prod.splits)

lemma hoare_liftR [hoare]:
  "hoare (\<lambda>s. (\<forall>e. r = Inl e \<longrightarrow> E s) \<and> (\<forall>a. r = Inr a \<longrightarrow> Q a s)) (liftR r) Q E D"
  by (cases r) (simp_all add: hoare_def liftR_def raise_def ret_def)

lemma hoare_getS [hoare]: "hoare (\<lambda>s. Q (f s) s) (getS f) Q E D"
  by (simp add: hoare_def getS_def)

lemma hoare_modS [hoare]: "hoare (\<lambda>s. Q () (f s)) (modS f) Q E D"
  by (simp add: hoare_def modS_def)

lemma hoare_if [hoare]:
  assumes "c \<Longrightarrow> hoare P m Q E D" "\<not> c \<Longrightarrow> hoare P' m' Q E D"
  shows "hoare (\<lambda>s. (c \<longrightarrow> P s) \<and> (\<not> c \<longrightarrow> P' s)) (if c then m else m') Q E D"
  using assms by (cases c) (auto elim: hoare_pre)

lemma hoare_option [hoare]:
  assumes "x = None \<Longrightarrow> hoare P m Q E D" "\<And>y. x = Some y \<Longrightarrow> hoare (P' y) (m' y) Q E D"
  shows "hoare (\<lambda>s. (x = None \<longrightarrow> P s) \<and> (\<forall>y. x = Some y \<longrightarrow> P' y s))
           (case x of None \<Rightarrow> m | Some y \<Rightarrow> m' y) Q E D"
  using assms by (cases x) (auto elim: hoare_pre)

lemma hoare_sum [hoare]:
  assumes "\<And>e. x = Inl e \<Longrightarrow> hoare (P e) (m e) Q E D" "\<And>a. x = Inr a \<Longrightarrow> hoare (P' a) (m' a) Q E D"
  shows "hoare (\<lambda>s. (\<forall>e. x = Inl e \<longrightarrow> P e s) \<and> (\<forall>a. x = Inr a \<longrightarrow> P' a s))
           (case x of Inl e \<Rightarrow> m e | Inr a \<Rightarrow> m' a) Q E D"
  using assms by (cases x) (auto elim: hoare_pre)

text \<open>A loop that keeps an invariant in each round keeps it altogether.\<close>

lemma hoare_each:
  assumes "\<And>x. x \<in> set xs \<Longrightarrow> hoare I (f x) (\<lambda>_. I) E D"
  shows "hoare I (eachM f xs) (\<lambda>_. I) E D"
  using assms
proof (induction xs)
  case Nil
  show ?case by (simp add: hoare_def ret_def)
next
  case (Cons x xs)
  show ?case
    unfolding eachM.simps
    by (rule hoare_bind [where R = "\<lambda>_. I"]) (use Cons in auto)
qed

section \<open>Strings of the standard library\<close>

text \<open>\<^verbatim>\<open>strings.HasPrefix\<close>, \<^verbatim>\<open>HasSuffix\<close>, \<^verbatim>\<open>TrimPrefix\<close>, \<^verbatim>\<open>TrimSuffix\<close>, \<^verbatim>\<open>Contains\<close>.\<close>

fun hasPrefix :: "string \<Rightarrow> string \<Rightarrow> bool" where
  "hasPrefix s [] = True"
| "hasPrefix [] (p # ps) = False"
| "hasPrefix (c # cs) (p # ps) = (c = p \<and> hasPrefix cs ps)"

definition hasSuffix :: "string \<Rightarrow> string \<Rightarrow> bool" where
  "hasSuffix s p = hasPrefix (rev s) (rev p)"

definition trimPrefix :: "string \<Rightarrow> string \<Rightarrow> string" where
  "trimPrefix s p = (if hasPrefix s p then drop (length p) s else s)"

definition trimSuffix :: "string \<Rightarrow> string \<Rightarrow> string" where
  "trimSuffix s p = (if hasSuffix s p then take (length s - length p) s else s)"

fun containsStr :: "string \<Rightarrow> string \<Rightarrow> bool" where
  "containsStr [] p = (p = [])"
| "containsStr (c # cs) p = (hasPrefix (c # cs) p \<or> containsStr cs p)"

definition containsAny :: "string \<Rightarrow> string \<Rightarrow> bool" where
  "containsAny s cs = list_ex (\<lambda>c. c \<in> set cs) s"

text \<open>\<^verbatim>\<open>strings.Split\<close> on a one-byte separator, and on a longer one.\<close>

fun splitOn :: "char \<Rightarrow> string \<Rightarrow> string list" where
  "splitOn c [] = [[]]"
| "splitOn c (x # xs) =
     (if x = c then [] # splitOn c xs
      else case splitOn c xs of [] \<Rightarrow> [[x]] | y # ys \<Rightarrow> (x # y) # ys)"

fun splitStr :: "nat \<Rightarrow> string \<Rightarrow> string \<Rightarrow> string \<Rightarrow> string list" where
  "splitStr skip sep acc [] = [rev acc]"
| "splitStr (Suc k) sep acc (x # xs) = splitStr k sep acc xs"
| "splitStr 0 sep acc (x # xs) =
     (if hasPrefix (x # xs) sep then rev acc # splitStr (length sep - 1) sep [] xs
      else splitStr 0 sep (x # acc) xs)"

definition splitSep :: "string \<Rightarrow> string \<Rightarrow> string list" where
  "splitSep s sep = splitStr 0 sep [] s"

fun joinWith :: "string \<Rightarrow> string list \<Rightarrow> string" where
  "joinWith sep [] = []"
| "joinWith sep [x] = x"
| "joinWith sep (x # y # ys) = x @ sep @ joinWith sep (y # ys)"

text \<open>ASCII case folding: \<^verbatim>\<open>strings.ToLower\<close> and \<^verbatim>\<open>strings.EqualFold\<close> on ASCII text.\<close>

definition lowerChar :: "char \<Rightarrow> char" where
  "lowerChar c = (if CHR ''A'' \<le> c \<and> c \<le> CHR ''Z'' then char_of (of_char c + (32::nat)) else c)"

definition toLower :: "string \<Rightarrow> string" where
  "toLower = map lowerChar"

definition equalFold :: "string \<Rightarrow> string \<Rightarrow> bool" where
  "equalFold a b = (toLower a = toLower b)"

definition isDigit :: "char \<Rightarrow> bool" where
  "isDigit c = (CHR ''0'' \<le> c \<and> c \<le> CHR ''9'')"

definition isLowerLetter :: "char \<Rightarrow> bool" where
  "isLowerLetter c = (CHR ''a'' \<le> c \<and> c \<le> CHR ''z'')"

definition isUpperLetter :: "char \<Rightarrow> bool" where
  "isUpperLetter c = (CHR ''A'' \<le> c \<and> c \<le> CHR ''Z'')"

definition isHexLower :: "char \<Rightarrow> bool" where
  "isHexLower c = (isDigit c \<or> (CHR ''a'' \<le> c \<and> c \<le> CHR ''f''))"

text \<open>Decimal printing, \<^verbatim>\<open>strconv.Itoa\<close> and \<^verbatim>\<open>%d\<close>.\<close>

definition digitChar :: "nat \<Rightarrow> char" where
  "digitChar d = char_of (48 + d)"

fun natDigits :: "nat \<Rightarrow> string" where
  "natDigits n = (if n < 10 then [digitChar n] else natDigits (n div 10) @ [digitChar (n mod 10)])"

declare natDigits.simps [simp del]

definition itoa :: "int \<Rightarrow> string" where
  "itoa i = (if i < 0 then CHR ''-'' # natDigits (nat (- i)) else natDigits (nat i))"

text \<open>
  \<^verbatim>\<open>%q\<close>: a double-quoted string.  It is exact on printable ASCII; the sources quote only
  names that passed a check for letters, digits and \<^verbatim>\<open>_.:-\<close>.
\<close>

definition quoteChar :: "char \<Rightarrow> string" where
  "quoteChar c = (if c = CHR 0x22 \<or> c = CHR 0x5C then [CHR 0x5C, c] else [c])"

definition quoteStr :: "string \<Rightarrow> string" where
  "quoteStr s = [CHR 0x22] @ concat (map quoteChar s) @ [CHR 0x22]"

text \<open>\<^verbatim>\<open>sort.Strings\<close> on a copy.\<close>

definition sortedStrings :: "string list \<Rightarrow> string list" where
  "sortedStrings items = sort items"

lemmas string_defs [go_defs] =
  hasSuffix_def trimPrefix_def trimSuffix_def containsAny_def splitSep_def lowerChar_def
  toLower_def equalFold_def isDigit_def isLowerLetter_def isUpperLetter_def isHexLower_def
  digitChar_def itoa_def quoteChar_def quoteStr_def sortedStrings_def

subsection \<open>Facts about strings\<close>

lemma hasPrefix_append [simp]: "hasPrefix (p @ s) p"
  by (induction p) auto

lemma hasPrefix_iff: "hasPrefix s p \<longleftrightarrow> (\<exists>r. s = p @ r)"
  by (induction s p rule: hasPrefix.induct) auto

lemma splitOn_not_Nil [simp]: "splitOn c s \<noteq> []"
  by (cases s) (auto split: list.splits)

lemma splitOn_none: "c \<notin> set s \<Longrightarrow> splitOn c s = [s]"
  by (induction s) auto

lemma splitOn_append: "c \<notin> set s \<Longrightarrow> splitOn c (s @ c # t) = s # splitOn c t"
  by (induction s) auto

lemma splitOn_join:
  "xs \<noteq> [] \<Longrightarrow> (\<And>x. x \<in> set xs \<Longrightarrow> c \<notin> set x) \<Longrightarrow> splitOn c (joinWith [c] xs) = xs"
  by (induction "[c]" xs rule: joinWith.induct) (auto simp: splitOn_none splitOn_append)

lemma set_sortedStrings [simp]: "set (sortedStrings xs) = set xs"
  by (simp add: sortedStrings_def)

lemma sortedStrings_perm: "mset xs = mset ys \<Longrightarrow> sortedStrings xs = sortedStrings ys"
  unfolding sortedStrings_def by (rule properties_for_sort) simp_all

lemma digitChar_isDigit: "d < 10 \<Longrightarrow> isDigit (digitChar d)"
  by (simp add: isDigit_def digitChar_def less_eq_char_def)

end
