(* ===== verification/Go_Json.thy ===== *)
theory Go_Json
  imports Ghost_Prelude
begin

text \<open>
  JSON documents as trees, byte strings by what they hold, and the decoding rules of
  \<^verbatim>\<open>encoding/json\<close> that the sources rely on: missing fields keep their zero value, \<^verbatim>\<open>null\<close> leaves
  the target alone, keys match a field without regard to case, repeated keys decode one after
  another, a value of the wrong type is an error, and a strict decoder refuses unknown keys.
  The concrete syntax of JSON is not modelled: a text is identified with the tree it denotes.
  A JSON string that carries bytes (base64) or an instant (RFC 3339) is kept decoded.
\<close>

datatype json =
    JNull | JBool bool | JNum int | JStr string
  | JArr "json list" | JObj "(string \<times> json) list"
  | JB64 bytes | JTime int
and bytes = NoBytes | Json json | Text string

text \<open>\<^verbatim>\<open>json.Unmarshal\<close> up to the typed decoding: empty input and non-JSON text are errors.\<close>

definition unmarshal :: "bytes \<Rightarrow> json result" where
  "unmarshal b = (case b of
       NoBytes \<Rightarrow> Fail ''unexpected end of JSON input''
     | Text _ \<Rightarrow> Fail ''invalid character''
     | Json j \<Rightarrow> Inr j)"

definition mismatch :: "'a result" where
  "mismatch = Fail ''json: cannot unmarshal value into Go value''"

type_synonym 'a decoder = "'a \<Rightarrow> json \<Rightarrow> 'a result"

fun decString :: "string decoder" where
  "decString cur JNull = Inr cur"
| "decString cur (JStr s) = Inr s"
| "decString cur _ = mismatch"

fun decBool :: "bool decoder" where
  "decBool cur JNull = Inr cur"
| "decBool cur (JBool b) = Inr b"
| "decBool cur _ = mismatch"

fun decInt :: "int decoder" where
  "decInt cur JNull = Inr cur"
| "decInt cur (JNum n) = (if - (2 ^ 63) \<le> n \<and> n < 2 ^ 63 then Inr n else mismatch)"
| "decInt cur _ = mismatch"

fun decBytes :: "bytes decoder" where
  "decBytes cur JNull = Inr NoBytes"
| "decBytes cur (JB64 b) = Inr b"
| "decBytes cur _ = mismatch"

fun decTime :: "int decoder" where
  "decTime cur JNull = Inr cur"
| "decTime cur (JTime t) = Inr t"
| "decTime cur _ = mismatch"

text \<open>Arrays, string-keyed maps and pointers of a decodable type with zero value \<open>z\<close>.\<close>

fun decAll :: "'a decoder \<Rightarrow> 'a \<Rightarrow> json list \<Rightarrow> 'a list result" where
  "decAll d z [] = Inr []"
| "decAll d z (j # js) = (case d z j of
       Inl e \<Rightarrow> Inl e
     | Inr x \<Rightarrow> (case decAll d z js of Inl e \<Rightarrow> Inl e | Inr xs \<Rightarrow> Inr (x # xs)))"

fun decList :: "'a decoder \<Rightarrow> 'a \<Rightarrow> 'a list decoder" where
  "decList d z cur JNull = Inr []"
| "decList d z cur (JArr js) = decAll d z js"
| "decList d z cur _ = mismatch"

fun assocPut :: "'k \<Rightarrow> 'v \<Rightarrow> ('k \<times> 'v) list \<Rightarrow> ('k \<times> 'v) list" where
  "assocPut k v [] = [(k, v)]"
| "assocPut k v ((k', v') # m) = (if k' = k then (k, v) # m else (k', v') # assocPut k v m)"

fun decEntries :: "'a decoder \<Rightarrow> 'a \<Rightarrow> (string \<times> json) list \<Rightarrow> (string \<times> 'a) list \<Rightarrow>
    (string \<times> 'a) list result" where
  "decEntries d z [] m = Inr m"
| "decEntries d z ((k, j) # kvs) m = (case d z j of
       Inl e \<Rightarrow> Inl e
     | Inr x \<Rightarrow> decEntries d z kvs (assocPut k x m))"

fun decMap :: "'a decoder \<Rightarrow> 'a \<Rightarrow> (string \<times> 'a) list decoder" where
  "decMap d z cur JNull = Inr []"
| "decMap d z cur (JObj kvs) = decEntries d z kvs cur"
| "decMap d z cur _ = mismatch"

definition decPtr :: "'a decoder \<Rightarrow> 'a \<Rightarrow> 'a option decoder" where
  "decPtr d z cur j = (if j = JNull then Inr None
     else case d (case cur of None \<Rightarrow> z | Some x \<Rightarrow> x) j of Inl e \<Rightarrow> Inl e | Inr x \<Rightarrow> Inr (Some x))"

text \<open>One struct field of an object; the object's keys; the strict check for unknown keys.\<close>

fun decField :: "'a decoder \<Rightarrow> string \<Rightarrow> (string \<times> json) list \<Rightarrow> 'a \<Rightarrow> 'a result" where
  "decField d name [] cur = Inr cur"
| "decField d name ((k, j) # kvs) cur =
     (if equalFold k name then (case d cur j of Inl e \<Rightarrow> Inl e | Inr x \<Rightarrow> decField d name kvs x)
      else decField d name kvs cur)"

definition decObj :: "((string \<times> json) list \<Rightarrow> 'a \<Rightarrow> 'a result) \<Rightarrow> 'a decoder" where
  "decObj f cur j = (case j of JNull \<Rightarrow> Inr cur | JObj kvs \<Rightarrow> f kvs cur | _ \<Rightarrow> mismatch)"

definition known :: "string list \<Rightarrow> (string \<times> json) list \<Rightarrow> bool" where
  "known names kvs = list_all (\<lambda>(k, _). list_ex (equalFold k) names) kvs"

definition strictObj ::
  "string list \<Rightarrow> ((string \<times> json) list \<Rightarrow> 'a \<Rightarrow> 'a result) \<Rightarrow> 'a decoder" where
  "strictObj names f =
     decObj (\<lambda>kvs cur. if known names kvs then f kvs cur else Fail ''json: unknown field'')"

definition bindR :: "'a result \<Rightarrow> ('a \<Rightarrow> 'b result) \<Rightarrow> 'b result" where
  "bindR r f = (case r of Inl e \<Rightarrow> Inl e | Inr x \<Rightarrow> f x)"

text \<open>A check that fails, and loops over a slice that stop at the first error.\<close>

definition refuse :: "bool \<Rightarrow> string \<Rightarrow> unit result" where
  "refuse c m = (if c then Fail m else Inr ())"

fun foldR :: "('b \<Rightarrow> 'a \<Rightarrow> 'b result) \<Rightarrow> 'b \<Rightarrow> 'a list \<Rightarrow> 'b result" where
  "foldR f acc [] = Inr acc"
| "foldR f acc (x # xs) = bindR (f acc x) (\<lambda>acc'. foldR f acc' xs)"

definition eachR :: "('a \<Rightarrow> unit result) \<Rightarrow> 'a list \<Rightarrow> unit result" where
  "eachR f = foldR (\<lambda>_. f) ()"

lemmas json_defs [go_defs] =
  unmarshal_def mismatch_def decPtr_def decObj_def known_def strictObj_def bindR_def
  refuse_def eachR_def

lemma bindR_simps [simp]: "bindR (Inl e) f = Inl e" "bindR (Inr x) f = f x"
  by (simp_all add: bindR_def)

lemma bindR_Inr: "bindR r f = Inr y \<longleftrightarrow> (\<exists>x. r = Inr x \<and> f x = Inr y)"
  by (cases r) auto

lemma refuse_Inr [simp]: "refuse c m = Inr u \<longleftrightarrow> \<not> c"
  by (simp add: refuse_def)

lemma foldR_inv:
  assumes "foldR f acc xs = Inr r" "P acc" "\<And>a x b. x \<in> set xs \<Longrightarrow> P a \<Longrightarrow> f a x = Inr b \<Longrightarrow> P b"
  shows "P r"
  using assms by (induction f acc xs rule: foldR.induct) (auto simp: bindR_Inr)

lemma eachR_Inr: "eachR f xs = Inr u \<longleftrightarrow> (\<forall>x \<in> set xs. f x = Inr ())"
  unfolding eachR_def by (induction xs) (auto simp: bindR_Inr)

lemma assocPut_keys: "fst ` set (assocPut k v m) = insert k (fst ` set m)"
  by (induction k v m rule: assocPut.induct) (simp_all add: insert_commute)

lemma distinct_assocPut: "distinct (map fst m) \<Longrightarrow> distinct (map fst (assocPut k v m))"
  by (induction m) (auto simp: assocPut_keys)

text \<open>A decoded map has each key once: Go maps have no duplicate keys.\<close>

lemma decEntries_distinct:
  "decEntries d z kvs m = Inr m' \<Longrightarrow> distinct (map fst m) \<Longrightarrow> distinct (map fst m')"
  by (induction d z kvs m rule: decEntries.induct)
    (auto split: sum.splits intro: distinct_assocPut)

section \<open>Strings in a document\<close>

text \<open>
  \<^verbatim>\<open>json.Marshal\<close> replaces every byte that does not belong to a valid UTF-8 sequence by the
  encoding of U+FFFD.  \<open>runeLen\<close> is the length of the sequence a string starts with, 0 if it
  starts with none.
\<close>

definition byteIn :: "char \<Rightarrow> nat \<Rightarrow> nat \<Rightarrow> bool" where
  "byteIn c lo hi = (lo \<le> of_char c \<and> of_char c \<le> hi)"

definition contBytes :: "nat \<Rightarrow> string \<Rightarrow> bool" where
  "contBytes n s = (n \<le> length s \<and> list_all (\<lambda>c. byteIn c 128 191) (take n s))"

fun runeLen :: "string \<Rightarrow> nat" where
  "runeLen [] = 0"
| "runeLen (c # s) =
     (let second = (\<lambda>lo hi. s \<noteq> [] \<and> byteIn (hd s) lo hi) in
      if byteIn c 0 127 then 1
      else if byteIn c 194 223 then (if contBytes 1 s then 2 else 0)
      else if byteIn c 224 239 then
        (if contBytes 2 s \<and> second (if byteIn c 224 224 then 160 else 128) (if byteIn c 237 237 then 159 else 191)
         then 3 else 0)
      else if byteIn c 240 244 then
        (if contBytes 3 s \<and> second (if byteIn c 240 240 then 144 else 128) (if byteIn c 244 244 then 143 else 191)
         then 4 else 0)
      else 0)"

function toValidUTF8 :: "string \<Rightarrow> string" where
  "toValidUTF8 s =
     (if s = [] then []
      else if runeLen s = 0 then [CHR 0xEF, CHR 0xBF, CHR 0xBD] @ toValidUTF8 (tl s)
      else take (runeLen s) s @ toValidUTF8 (drop (runeLen s) s))"
  by pat_completeness auto
termination by (relation "measure length") auto

function validUTF8 :: "string \<Rightarrow> bool" where
  "validUTF8 s =
     (if s = [] then True else if runeLen s = 0 then False else validUTF8 (drop (runeLen s) s))"
  by pat_completeness auto
termination by (relation "measure length") auto

declare toValidUTF8.simps [simp del] validUTF8.simps [simp del]

lemma toValidUTF8_id: "validUTF8 s \<Longrightarrow> toValidUTF8 s = s"
proof (induction s rule: validUTF8.induct)
  case (1 s)
  then show ?case
    by (subst toValidUTF8.simps) (auto simp: validUTF8.simps [of s] split: if_splits)
qed

definition jstr :: "string \<Rightarrow> json" where
  "jstr s = JStr (toValidUTF8 s)"

section \<open>Commands\<close>

text \<open>
  A command runner: argument vector, standard input, the state of the program it talks to
  (kernel tables, systemd) before and after, and what came back.  \<open>Killed\<close> means that the
  daemon's own process died while the command ran.
\<close>

datatype reply = Replied bytes | Refused error | Killed

type_synonym 'k runner = "string list \<Rightarrow> bytes \<Rightarrow> 'k \<Rightarrow> reply \<times> 'k"

end
