(* ===== verification/State_Store.thy ===== *)
theory State_Store
  imports Go_Json
begin

text \<open>
  The transaction store (\<^verbatim>\<open>internal/state\<close>): the directory of blobs with its atomic save
  (\<^verbatim>\<open>lastgood.go\<close>), the durable transaction record of a domain (\<^verbatim>\<open>transaction.go\<close>) and the
  dead-man's-switch leases (\<^verbatim>\<open>lease.go\<close>).  Every way a save can fail or be cut short by the
  death of the process is a value of \<open>saveFault\<close>; a run draws its faults from the lists of the
  state, so a theorem for all states is a theorem for all patterns of failures.
\<close>

section \<open>Blobs\<close>

text \<open>
  The points at which a save can go wrong, in the order of the code.  \<open>WriteFails\<close> and
  \<open>DiesWriting\<close> leave an arbitrary partial temporary file behind; a loss of power after the
  rename that undoes it is indistinguishable from \<open>DiesAfterSync\<close>.
\<close>

datatype saveFault =
    SaveOk
  | WriteFails "bytes option" | DiesWriting "bytes option" | DiesAfterTmpWrite
  | OpenFails | SyncFails | DiesAfterSync
  | RenameFails | DiesAfterRename
  | DirOpenFails | DirSyncFails

record store =
  disk :: "string \<Rightarrow> bytes option"
  domains :: "string list"
  saveFaults :: "saveFault list"
  loadFaults :: "bool list"
  lockFaults :: "bool list"

definition tmpName :: "string \<Rightarrow> string" where
  "tmpName name = name @ ''.tmp''"

definition putTmp :: "string \<Rightarrow> bytes option \<Rightarrow> 'a store_scheme \<Rightarrow> 'a store_scheme" where
  "putTmp name c s = s\<lparr>disk := (disk s)(tmpName name := c)\<rparr>"

definition renameTmp :: "string \<Rightarrow> bytes \<Rightarrow> 'a store_scheme \<Rightarrow> 'a store_scheme" where
  "renameTmp name data s = s\<lparr>disk := (disk s)(tmpName name := None, name := Some data)\<rparr>"

definition Save :: "string \<Rightarrow> bytes \<Rightarrow> ('a store_scheme, unit) prog" where
  "Save name data s0 =
     (let f = (case saveFaults s0 of [] \<Rightarrow> SaveOk | f # _ \<Rightarrow> f);
          s = s0\<lparr>saveFaults := tl (saveFaults s0)\<rparr>;
          full = putTmp name (Some data) s;
          committed = renameTmp name data s
      in case f of
           WriteFails p \<Rightarrow> (Err (Error ''state: write''), putTmp name p s)
         | DiesWriting p \<Rightarrow> (Died, putTmp name p s)
         | DiesAfterTmpWrite \<Rightarrow> (Died, full)
         | OpenFails \<Rightarrow> (Err (Error ''open''), full)
         | SyncFails \<Rightarrow> (Err (Error ''sync''), full)
         | DiesAfterSync \<Rightarrow> (Died, full)
         | RenameFails \<Rightarrow> (Err (Error ''state: commit''), full)
         | DiesAfterRename \<Rightarrow> (Died, committed)
         | DirOpenFails \<Rightarrow> (Err (Error ''open''), committed)
         | DirSyncFails \<Rightarrow> (Err (Error ''sync''), committed)
         | SaveOk \<Rightarrow> (Done (), committed))"

definition Load :: "string \<Rightarrow> ('a store_scheme, bytes) prog" where
  "Load name s0 =
     (let s = s0\<lparr>loadFaults := tl (loadFaults s0)\<rparr>
      in case loadFaults s0 of
           True # _ \<Rightarrow> (Err (Error ''state: read''), s)
         | _ \<Rightarrow> (Done (case disk s0 name of None \<Rightarrow> NoBytes | Some b \<Rightarrow> b), s))"

text \<open>
  \<^verbatim>\<open>Lock\<close>: the exclusive file lock.  Each operation below runs under it, so the operations of
  the daemon, its boot recovery and the timer process follow one another.
\<close>

definition Lock :: "('a store_scheme, unit) prog" where
  "Lock s0 =
     (let s = s0\<lparr>lockFaults := tl (lockFaults s0)\<rparr>
      in case lockFaults s0 of True # _ \<Rightarrow> (Err (Error ''lock''), s) | _ \<Rightarrow> (Done (), s))"

section \<open>The transaction record of a domain\<close>

record pending =
  Applied :: bool
  PendingID :: string
  Deadline :: int
  PSnapshot :: bytes
  Target :: bytes
  Peer :: string

record domainState =
  Confirmed :: bytes
  Pending :: "pending option"

definition noPending :: pending where
  "noPending = \<lparr>Applied = False, PendingID = [], Deadline = 0, PSnapshot = NoBytes,
     Target = NoBytes, Peer = []\<rparr>"

definition emptyDomain :: domainState where
  "emptyDomain = \<lparr>Confirmed = NoBytes, Pending = None\<rparr>"

definition b64 :: "bytes \<Rightarrow> json" where
  "b64 b = (if b = NoBytes then JNull else JB64 b)"

definition encPending :: "pending \<Rightarrow> json" where
  "encPending p = JObj [(''applied'', JBool (Applied p)), (''id'', jstr (PendingID p)),
     (''deadline'', JTime (Deadline p)), (''snapshot'', b64 (PSnapshot p)),
     (''target'', b64 (Target p)), (''peer'', jstr (Peer p))]"

definition decPending :: "pending decoder" where
  "decPending = decObj (\<lambda>kvs p.
     bindR (decField decBool ''applied'' kvs (Applied p)) (\<lambda>a.
     bindR (decField decString ''id'' kvs (PendingID p)) (\<lambda>i.
     bindR (decField decTime ''deadline'' kvs (Deadline p)) (\<lambda>d.
     bindR (decField decBytes ''snapshot'' kvs (PSnapshot p)) (\<lambda>sn.
     bindR (decField decBytes ''target'' kvs (Target p)) (\<lambda>t.
     bindR (decField decString ''peer'' kvs (Peer p)) (\<lambda>pe.
       Inr \<lparr>Applied = a, PendingID = i, Deadline = d, PSnapshot = sn, Target = t, Peer = pe\<rparr>)))))))"

definition encDomain :: "domainState \<Rightarrow> json" where
  "encDomain d = JObj
     ((if Confirmed d = NoBytes then [] else [(''confirmed'', JB64 (Confirmed d))]) @
      (case Pending d of None \<Rightarrow> [] | Some p \<Rightarrow> [(''pending'', encPending p)]))"

definition decDomain :: "domainState decoder" where
  "decDomain = decObj (\<lambda>kvs d.
     bindR (decField decBytes ''confirmed'' kvs (Confirmed d)) (\<lambda>c.
     bindR (decField (decPtr decPending noPending) ''pending'' kvs (Pending d)) (\<lambda>p.
       Inr \<lparr>Confirmed = c, Pending = p\<rparr>)))"

definition RegisterDomain :: "string \<Rightarrow> 'a store_scheme \<Rightarrow> 'a store_scheme" where
  "RegisterDomain name s = s\<lparr>domains := List.insert name (domains s)\<rparr>"

definition domainFile :: "string list \<Rightarrow> string \<Rightarrow> string result" where
  "domainFile ds domain =
     (if domain \<in> set ds then Inr (domain @ ''-transaction.json'') else Fail ''unknown domain'')"

definition Domain :: "string \<Rightarrow> string \<Rightarrow> ('a store_scheme, domainState) prog" where
  "Domain domain legacyName =
     bindM (getS domains) (\<lambda>ds.
     bindM (liftR (domainFile ds domain)) (\<lambda>name.
     bindM (Load name) (\<lambda>data.
       if data = NoBytes
       then bindM (Load legacyName) (\<lambda>c. ret \<lparr>Confirmed = c, Pending = None\<rparr>)
       else liftR (bindR (unmarshal data) (decDomain emptyDomain)))))"

definition SaveDomain :: "string \<Rightarrow> domainState \<Rightarrow> ('a store_scheme, unit) prog" where
  "SaveDomain domain d =
     bindM (getS domains) (\<lambda>ds.
     bindM (liftR (domainFile ds domain)) (\<lambda>name.
       Save name (Json (encDomain d))))"

definition SaveExternallyManagedConfig ::
  "string \<Rightarrow> string \<Rightarrow> bytes \<Rightarrow> ('a store_scheme, unit) prog" where
  "SaveExternallyManagedConfig domain legacyName raw =
     bindM (Domain domain legacyName) (\<lambda>d.
       if Pending d \<noteq> None then raise (Error ''finish pending configuration lease first'')
       else bindM (SaveDomain domain (d\<lparr>Confirmed := raw\<rparr>)) (\<lambda>_. Save legacyName raw))"

section \<open>Leases\<close>

record 'y leasing = store +
  units :: "string \<Rightarrow> string option"
  sysd :: 'y

definition runOn :: "('s \<Rightarrow> 'k) \<Rightarrow> ('k \<Rightarrow> 's \<Rightarrow> 's) \<Rightarrow> 'k runner \<Rightarrow> string list \<Rightarrow> bytes \<Rightarrow>
    ('s, bytes) prog" where
  "runOn get put r argv stdin s = (case r argv stdin (get s) of
       (Replied b, k) \<Rightarrow> (Done b, put k s)
     | (Refused e, k) \<Rightarrow> (Err e, put k s)
     | (Killed, k) \<Rightarrow> (Died, put k s))"

definition systemd :: "'y runner \<Rightarrow> string list \<Rightarrow> (('y, 'a) leasing_scheme, bytes) prog" where
  "systemd r argv = runOn sysd (\<lambda>y s. s\<lparr>sysd := y\<rparr>) r argv NoBytes"

definition unitName :: "string \<Rightarrow> string" where
  "unitName leaseID = ''ghostd-revert-'' @ leaseID"

text \<open>The command line of the revert process, after the \<^verbatim>\<open>--\<close> of \<^verbatim>\<open>systemd-run\<close>.\<close>

definition revertArgs :: "string \<Rightarrow> string \<Rightarrow> string \<Rightarrow> string option \<Rightarrow> string list" where
  "revertArgs binaryPath leaseID domain storeDir =
     [binaryPath, ''--revert-lease='' @ leaseID, ''--revert-domain='' @ domain] @
     (case storeDir of None \<Rightarrow> [] | Some dir \<Rightarrow> [''--store-dir='' @ dir])"

definition armArgs :: "string \<Rightarrow> string \<Rightarrow> string \<Rightarrow> int \<Rightarrow> string option \<Rightarrow> string list" where
  "armArgs binaryPath leaseID domain seconds storeDir =
     [''systemd-run'', ''--unit='' @ unitName leaseID,
      ''--description=ghostd dead-man'' @ [CHR 0x27] @ ''s-switch revert'',
      ''--on-active='' @ itoa seconds @ ''s'',
      ''--timer-property=AccuracySec=100ms'',
      ''--property=Restart=on-failure'', ''--property=RestartSec=5s'', ''--''] @
     revertArgs binaryPath leaseID domain storeDir"

text \<open>\<^verbatim>\<open>Arm\<close>, with the timeout in seconds: the server passes a whole number of them.\<close>

definition Arm ::
  "'y runner \<Rightarrow> string \<Rightarrow> string option \<Rightarrow> string \<Rightarrow> string \<Rightarrow> int \<Rightarrow> (('y, 'a) leasing_scheme, unit) prog"
where
  "Arm runner binaryPath storeDir leaseID domain seconds =
     (if seconds \<le> 0 then raise (Error ''state: dead-man-switch timeout must be positive'')
      else if domain = [] then raise (Error ''state: dead-man-switch domain must not be empty'')
      else bindM (remap (\<lambda>_. Error ''state: arm dead-man switch'')
             (systemd runner (armArgs binaryPath leaseID domain seconds storeDir))) (\<lambda>_.
             modS (\<lambda>s. s\<lparr>units := (units s)(leaseID := Some (unitName leaseID))\<rparr>)))"

definition Cancel :: "'y runner \<Rightarrow> string \<Rightarrow> (('y, 'a) leasing_scheme, unit) prog" where
  "Cancel runner leaseID =
     bindM (getS units) (\<lambda>us. case us leaseID of
       None \<Rightarrow> raise (Error ''state: lease is not armed'')
     | Some unit \<Rightarrow>
         bindM (remap (\<lambda>_. Error ''state: cancel dead-man switch'')
           (systemd runner [''systemctl'', ''stop'', unit @ ''.timer''])) (\<lambda>_.
           modS (\<lambda>s. s\<lparr>units := (units s)(leaseID := None)\<rparr>)))"

section \<open>What a save leaves behind\<close>

lemma tmpName_neq [simp]: "tmpName name \<noteq> name" "name \<noteq> tmpName name"
  by (simp_all add: tmpName_def)

lemma Save_disk:
  assumes "Save name data s = (r, t)"
  shows "disk t name = disk s name \<or> disk t name = Some data"
    and "r = Done () \<Longrightarrow> disk t name = Some data"
    and "other \<noteq> name \<Longrightarrow> other \<noteq> tmpName name \<Longrightarrow> disk t other = disk s other"
    and "domains t = domains s"
  using assms
  by (auto simp: Save_def Let_def putTmp_def renameTmp_def split: saveFault.splits list.splits)

lemma Load_disk:
  assumes "Load name s = (r, t)"
  shows "disk t = disk s" "domains t = domains s"
    "r = Done b \<Longrightarrow> b = (case disk s name of None \<Rightarrow> NoBytes | Some b \<Rightarrow> b)"
  using assms by (auto simp: Load_def Let_def split: list.splits bool.splits)

text \<open>A record read back: its strings went through the encoding of JSON.\<close>

definition cleanPending :: "pending \<Rightarrow> pending" where
  "cleanPending p = p\<lparr>PendingID := toValidUTF8 (PendingID p), Peer := toValidUTF8 (Peer p)\<rparr>"

definition cleanDomain :: "domainState \<Rightarrow> domainState" where
  "cleanDomain d = d\<lparr>Pending := map_option cleanPending (Pending d)\<rparr>"

lemma cleanPending_sel [simp]:
  "Applied (cleanPending p) = Applied p" "Deadline (cleanPending p) = Deadline p"
  "PSnapshot (cleanPending p) = PSnapshot p" "Target (cleanPending p) = Target p"
  by (simp_all add: cleanPending_def)

lemma cleanDomain_sel [simp]:
  "Confirmed (cleanDomain d) = Confirmed d"
  "Pending (cleanDomain d) = map_option cleanPending (Pending d)"
  by (simp_all add: cleanDomain_def)

lemma cleanPending_id: "validUTF8 (PendingID p) \<Longrightarrow> validUTF8 (Peer p) \<Longrightarrow> cleanPending p = p"
  by (simp add: cleanPending_def toValidUTF8_id)

lemma field_names:
  "equalFold ''confirmed'' ''confirmed''" "\<not> equalFold ''pending'' ''confirmed''"
  "\<not> equalFold ''confirmed'' ''pending''" "equalFold ''pending'' ''pending''"
  by code_simp+

lemma pending_names:
  "\<forall>k \<in> set [''applied'', ''id'', ''deadline'', ''snapshot'', ''target'', ''peer''].
   \<forall>n \<in> set [''applied'', ''id'', ''deadline'', ''snapshot'', ''target'', ''peer''].
     equalFold k n = (k = n)"
  by code_simp

lemma decBytes_b64 [simp]: "decBytes cur (b64 b) = Inr b"
  by (simp add: b64_def)

lemma decPending_encPending: "decPending q (encPending p) = Inr (cleanPending p)"
  using pending_names
  by (simp add: decPending_def encPending_def decObj_def jstr_def cleanPending_def)

lemma decDomain_encDomain: "decDomain emptyDomain (encDomain d) = Inr (cleanDomain d)"
  by (cases "Pending d")
    (simp_all add: decDomain_def encDomain_def decObj_def emptyDomain_def decPtr_def field_names
      decPending_encPending cleanDomain_def, simp_all add: encPending_def)

section \<open>The record of a domain as a reader sees it\<close>

definition recordFile :: "string \<Rightarrow> string" where
  "recordFile domain = domain @ ''-transaction.json''"

definition blobAt :: "'a store_scheme \<Rightarrow> string \<Rightarrow> bytes" where
  "blobAt s name = (case disk s name of None \<Rightarrow> NoBytes | Some b \<Rightarrow> b)"

definition viewOf :: "string \<Rightarrow> string \<Rightarrow> 'a store_scheme \<Rightarrow> domainState option" where
  "viewOf domain legacy s =
     (let b = blobAt s (recordFile domain) in
      if b = NoBytes then Some \<lparr>Confirmed = blobAt s legacy, Pending = None\<rparr>
      else case bindR (unmarshal b) (decDomain emptyDomain) of Inl _ \<Rightarrow> None | Inr d \<Rightarrow> Some d)"

lemma viewOf_cong:
  "disk t (recordFile domain) = disk s (recordFile domain) \<Longrightarrow> disk t legacy = disk s legacy \<Longrightarrow>
   viewOf domain legacy t = viewOf domain legacy s"
  by (simp add: viewOf_def blobAt_def cong: if_cong)

lemma viewOf_saved:
  "disk t (recordFile domain) = Some (Json (encDomain d)) \<Longrightarrow>
   viewOf domain legacy t = Some (cleanDomain d)"
  by (simp add: viewOf_def blobAt_def unmarshal_def decDomain_encDomain)

lemma Domain_reads:
  assumes "Domain domain legacy s = (r, t)"
  shows "disk t = disk s" "domains t = domains s"
    and "r = Done d \<Longrightarrow> viewOf domain legacy s = Some d"
    and "r \<noteq> Died"
  using assms
  by (auto simp: Domain_def prog_defs domainFile_def viewOf_def blobAt_def recordFile_def Load_def Let_def
      split: sum.splits outcome.splits prod.splits if_splits list.splits bool.splits)

lemma SaveDomain_writes:
  assumes "SaveDomain domain d s = (r, t)" "legacy \<noteq> recordFile domain" "legacy \<noteq> tmpName (recordFile domain)"
  shows "viewOf domain legacy t = viewOf domain legacy s \<or> viewOf domain legacy t = Some (cleanDomain d)"
    and "r = Done () \<Longrightarrow> viewOf domain legacy t = Some (cleanDomain d)"
    and "domains t = domains s"
proof -
  consider "r = Err (Error ''unknown domain'')" "t = s"
    | "Save (recordFile domain) (Json (encDomain d)) s = (r, t)"
    using assms(1)
    by (auto simp: SaveDomain_def prog_defs domainFile_def recordFile_def split: if_splits)
  note cases = this
  show "viewOf domain legacy t = viewOf domain legacy s \<or> viewOf domain legacy t = Some (cleanDomain d)"
    using cases
  proof cases
    case 2
    then show ?thesis
      using Save_disk(1,3) [OF 2] assms(2,3) viewOf_saved viewOf_cong by metis
  qed simp
  show "r = Done () \<Longrightarrow> viewOf domain legacy t = Some (cleanDomain d)"
    using cases by cases (auto dest: Save_disk(2) intro: viewOf_saved)
  show "domains t = domains s"
    using cases by cases (auto dest: Save_disk(4))
qed

section \<open>The transaction interface\<close>

text \<open>
  \<open>safe\<close> is the promise of the dead-man's switch for one domain: while a lease is open its
  durable record leads back to the baseline \<open>T\<close>, and while none is open the live state is \<open>T\<close>.
\<close>

definition safe ::
  "('s \<Rightarrow> domainState option) \<Rightarrow> ('s \<Rightarrow> 't) \<Rightarrow> (bytes \<Rightarrow> 't) \<Rightarrow> 't \<Rightarrow> 's \<Rightarrow> bool" where
  "safe view live snapOf T s = (case view s of
       Some d \<Rightarrow> (case Pending d of Some p \<Rightarrow> snapOf (PSnapshot p) = T | None \<Rightarrow> live s = T)
     | None \<Rightarrow> live s = T)"

locale transactions =
  fixes load :: "('s, domainState) prog"
    and save :: "domainState \<Rightarrow> ('s, unit) prog"
    and view :: "'s \<Rightarrow> domainState option"
    and live :: "'s \<Rightarrow> 't"
  assumes load_keeps: "load s = (r, t) \<Longrightarrow> view t = view s \<and> live t = live s"
    and load_sees: "load s = (Done d, t) \<Longrightarrow> view s = Some d"
    and save_keeps: "save d s = (q, t) \<Longrightarrow> live t = live s"
    and save_either: "save d s = (q, t) \<Longrightarrow> view t = view s \<or> view t = Some (cleanDomain d)"
    and save_done: "save d s = (Done u, t) \<Longrightarrow> view t = Some (cleanDomain d)"
begin

lemma load_safe:
  "hoare (safe view live snapOf T) load
     (\<lambda>d s. safe view live snapOf T s \<and> view s = Some d) (safe view live snapOf T) (safe view live snapOf T)"
proof (rule hoare_stepI)
  fix s r t
  assume pre: "safe view live snapOf T s" and run: "load s = (r, t)"
  have "safe view live snapOf T t"
    using pre load_keeps [OF run] by (auto simp: safe_def split: option.splits)
  then show "case r of Done d \<Rightarrow> safe view live snapOf T t \<and> view t = Some d
      | Err e \<Rightarrow> safe view live snapOf T t | Died \<Rightarrow> safe view live snapOf T t"
    using load_keeps [OF run] load_sees run by (auto split: outcome.splits)
qed

text \<open>Every save with the right snapshot, or back to none when the live state is the baseline.\<close>

lemma save_safe:
  assumes "save d s = (r, t)" "safe view live snapOf T s"
    "case Pending d of Some p \<Rightarrow> snapOf (PSnapshot p) = T | None \<Rightarrow> live s = T"
  shows "safe view live snapOf T t"
  using save_either [OF assms(1)] save_keeps [OF assms(1)] assms(2,3)
  by (auto simp: safe_def split: option.splits)

lemma open_safe:
  "hoare (\<lambda>s. safe view live snapOf T s \<and> view s = Some d \<and> Pending d = None \<and> snapOf (PSnapshot p) = T)
     (save (d\<lparr>Pending := Some p\<rparr>))
     (\<lambda>_ s. safe view live snapOf T s \<and> live s = T \<and>
        view s = Some (cleanDomain (d\<lparr>Pending := Some p\<rparr>)))
     (\<lambda>s. safe view live snapOf T s) (safe view live snapOf T)"
proof (rule hoare_stepI)
  fix s r t
  assume pre: "safe view live snapOf T s \<and> view s = Some d \<and> Pending d = None \<and> snapOf (PSnapshot p) = T"
    and run: "save (d\<lparr>Pending := Some p\<rparr>) s = (r, t)"
  have "safe view live snapOf T t"
    using save_safe [OF run] pre by simp
  moreover have "live t = T"
    using pre save_keeps [OF run] by (auto simp: safe_def)
  ultimately show "case r of
      Done u \<Rightarrow> safe view live snapOf T t \<and> live t = T \<and> view t = Some (cleanDomain (d\<lparr>Pending := Some p\<rparr>))
    | Err e \<Rightarrow> safe view live snapOf T t | Died \<Rightarrow> safe view live snapOf T t"
    using save_done run by (auto split: outcome.splits)
qed

lemma close_safe:
  "hoare (\<lambda>s. safe view live snapOf T s \<and> live s = T) (save (d\<lparr>Pending := None\<rparr>))
     (\<lambda>_. safe view live snapOf T) (safe view live snapOf T) (safe view live snapOf T)"
  by (rule hoare_stepI) (auto split: outcome.splits intro: save_safe)

lemma mark_safe:
  "hoare (\<lambda>s. safe view live snapOf T s \<and> view s = Some d \<and> Pending d = Some p)
     (save (d\<lparr>Pending := Some (p\<lparr>Applied := True\<rparr>)\<rparr>))
     (\<lambda>_. safe view live snapOf T) (safe view live snapOf T) (safe view live snapOf T)"
proof (rule hoare_stepI)
  fix s r t
  assume pre: "safe view live snapOf T s \<and> view s = Some d \<and> Pending d = Some p"
    and run: "save (d\<lparr>Pending := Some (p\<lparr>Applied := True\<rparr>)\<rparr>) s = (r, t)"
  have "safe view live snapOf T t"
    by (rule save_safe [OF run]) (use pre in \<open>auto simp: safe_def\<close>)
  then show "case r of Done u \<Rightarrow> safe view live snapOf T t
      | Err e \<Rightarrow> safe view live snapOf T t | Died \<Rightarrow> safe view live snapOf T t"
    by (simp split: outcome.splits)
qed

end

end
