(* ===== verification/Auth.thy ===== *)
theory Auth
  imports Go_Json
begin

text \<open>
  Authentication and authorization of callers (\<^verbatim>\<open>internal/auth\<close>) over the overlay's caller
  record (\<^verbatim>\<open>internal/overlay\<close>).  The overlay's \<^verbatim>\<open>Whois\<close> is a parameter: an error or no
  answer means that the address is not a node of the overlay.
\<close>

record caller =
  CallerLogin :: string
  CallerNodeID :: string
  CallerDNSName :: string
  CallerTags :: "string list"
  CallerAddresses :: "string list"
  Capabilities :: "(string \<times> json list) list"

type_synonym resolver = "string \<Rightarrow> caller option result"

record identity =
  Login :: string
  Tags :: "string list"
  CanDeploy :: bool
  CanReport :: bool
  NodeID :: string
  DNSName :: string
  Addresses :: "string list"

record authenticator =
  client :: resolver
  deployerTag :: string
  deployerUsers :: "string list"

definition DeployCapability :: string where
  "DeployCapability = ''ghostd.local/cap/deploy''"

definition ReportCapability :: string where
  "ReportCapability = ''ghostd.local/cap/report''"

definition HasTag :: "identity \<Rightarrow> string \<Rightarrow> bool" where
  "HasTag who tag = list_ex (\<lambda>t. t = tag) (Tags who)"

definition NewAuthenticator :: "resolver \<Rightarrow> string \<Rightarrow> authenticator" where
  "NewAuthenticator c tag = \<lparr>client = c, deployerTag = tag, deployerUsers = []\<rparr>"

definition WithDeployerUsers :: "authenticator \<Rightarrow> string list \<Rightarrow> authenticator" where
  "WithDeployerUsers a logins =
     a\<lparr>deployerUsers := fold (\<lambda>l us. if l \<noteq> [] then List.insert l us else us) logins (deployerUsers a)\<rparr>"

text \<open>A capability value grants when it decodes to a document whose flag is set.\<close>

definition granted :: "string \<Rightarrow> json \<Rightarrow> bool" where
  "granted flag raw =
     (case decObj (\<lambda>kvs cur. decField decBool flag kvs cur) False raw of Inr b \<Rightarrow> b | Inl _ \<Rightarrow> False)"

definition capabilityValues :: "caller \<Rightarrow> string \<Rightarrow> json list" where
  "capabilityValues c name = (case map_of (Capabilities c) name of None \<Rightarrow> [] | Some vs \<Rightarrow> vs)"

definition Identify :: "authenticator \<Rightarrow> string \<Rightarrow> identity result" where
  "Identify a remoteAddr = (case client a remoteAddr of
       Inl _ \<Rightarrow> Fail ''auth: caller is not a recognized overlay node''
     | Inr None \<Rightarrow> Fail ''auth: caller is not a recognized overlay node: no node answered''
     | Inr (Some c) \<Rightarrow> Inr
         \<lparr>Login = CallerLogin c, Tags = CallerTags c,
          CanDeploy = list_ex (granted ''deploy'') (capabilityValues c DeployCapability),
          CanReport = list_ex (granted ''report'') (capabilityValues c ReportCapability),
          NodeID = CallerNodeID c, DNSName = CallerDNSName c, Addresses = CallerAddresses c\<rparr>)"

definition AuthorizeReporter :: "authenticator \<Rightarrow> string \<Rightarrow> identity result" where
  "AuthorizeReporter a remoteAddr = bindR (Identify a remoteAddr) (\<lambda>who.
     if NodeID who = [] \<or> (\<not> CanReport who \<and> \<not> CanDeploy who \<and> \<not> HasTag who (deployerTag a))
     then Fail ''auth: host report requires a stable node ID and report capability''
     else Inr who)"

definition AuthorizeDeployer :: "authenticator \<Rightarrow> string \<Rightarrow> identity result" where
  "AuthorizeDeployer a remoteAddr = bindR (Identify a remoteAddr) (\<lambda>who.
     if \<not> CanDeploy who \<and> \<not> HasTag who (deployerTag a) \<and> Login who \<notin> set (deployerUsers a)
     then Fail ''auth: caller lacks ghostd deploy capability, tag and a deployer login''
     else Inr who)"

end
