(* ===== verification/Go_Netip.thy ===== *)
theory Go_Netip
  imports Ghost_Prelude "HOL-Library.Word"
begin

text \<open>
  The part of Go's \<^verbatim>\<open>net/netip\<close> and \<^verbatim>\<open>net\<close> the sources use: addresses and prefixes with their
  text forms, order and arithmetic, and hardware addresses.  IPv4 addresses are 32-bit words,
  IPv6 addresses 128-bit words with a zone; \<open>NoAddr\<close> is the invalid zero value that \<^verbatim>\<open>Next\<close>
  returns past the last address.
\<close>

datatype addr = NoAddr | V4 "32 word" | V6 "128 word" string

record prefix =
  pfxAddr :: addr
  pfxBits :: nat

section \<open>Text forms\<close>

definition digitVal :: "char \<Rightarrow> nat" where
  "digitVal c = of_char c - 48"

fun decVal :: "nat \<Rightarrow> string \<Rightarrow> nat" where
  "decVal acc [] = acc"
| "decVal acc (c # cs) = decVal (acc * 10 + digitVal c) cs"

text \<open>One octet: digits, no leading zero, at most 255.\<close>

definition parseOctet :: "string \<Rightarrow> nat option" where
  "parseOctet s = (if s \<noteq> [] \<and> list_all isDigit s \<and> (length s = 1 \<or> hd s \<noteq> CHR ''0'') \<and>
       length s \<le> 3 \<and> decVal 0 s \<le> 255 then Some (decVal 0 s) else None)"

definition quad :: "nat \<Rightarrow> nat \<Rightarrow> nat \<Rightarrow> nat \<Rightarrow> nat" where
  "quad a b c d = ((a * 256 + b) * 256 + c) * 256 + d"

definition parseIPv4Fields :: "string \<Rightarrow> nat option" where
  "parseIPv4Fields s = (case map parseOctet (splitOn CHR ''.'' s) of
       [Some a, Some b, Some c, Some d] \<Rightarrow> Some (quad a b c d)
     | _ \<Rightarrow> None)"

definition hexVal :: "char \<Rightarrow> nat option" where
  "hexVal c = (if isDigit c then Some (of_char c - 48)
     else if CHR ''a'' \<le> c \<and> c \<le> CHR ''f'' then Some (of_char c - 87)
     else if CHR ''A'' \<le> c \<and> c \<le> CHR ''F'' then Some (of_char c - 55) else None)"

text \<open>The leading hexadecimal digits: how many, their value, the rest.\<close>

fun hexRun :: "string \<Rightarrow> nat \<Rightarrow> nat \<times> nat \<times> string" where
  "hexRun [] acc = (0, acc, [])"
| "hexRun (c # cs) acc = (case hexVal c of
       None \<Rightarrow> (0, acc, c # cs)
     | Some v \<Rightarrow> (case hexRun cs (acc * 16 + v) of (n, r, rest) \<Rightarrow> (Suc n, r, rest)))"

text \<open>
  The group loop of the IPv6 parser: room left (groups), the groups read so far, how many of
  them stood before the \<^verbatim>\<open>::\<close> if one was seen, and the text left.
\<close>

fun v6Loop :: "nat \<Rightarrow> nat list \<Rightarrow> nat option \<Rightarrow> string \<Rightarrow> (nat list \<times> nat option) option" where
  "v6Loop 0 gs ell s = (if s = [] then Some (gs, ell) else None)"
| "v6Loop (Suc room) gs ell s =
     (case hexRun s 0 of (n, v, rest) \<Rightarrow>
        if n = 0 \<or> 4 < n then None
        else case rest of
          [] \<Rightarrow> Some (gs @ [v], ell)
        | c # t \<Rightarrow>
            if c = CHR ''.'' then
              (if (ell = None \<and> length gs \<noteq> 6) \<or> room = 0 then None
               else case parseIPv4Fields s of
                 None \<Rightarrow> None
               | Some q \<Rightarrow> Some (gs @ [q div 65536, q mod 65536], ell))
            else if c \<noteq> CHR '':'' \<or> t = [] then None
            else if hd t = CHR '':'' then
              (if ell \<noteq> None then None
               else if tl t = [] then Some (gs @ [v], Some (Suc (length gs)))
               else v6Loop room (gs @ [v]) (Some (Suc (length gs))) (tl t))
            else v6Loop room (gs @ [v]) ell t)"

fun ofGroups :: "nat \<Rightarrow> nat list \<Rightarrow> nat" where
  "ofGroups acc [] = acc"
| "ofGroups acc (g # gs) = ofGroups (acc * 65536 + g) gs"

definition expandGroups :: "nat list \<Rightarrow> nat option \<Rightarrow> nat list option" where
  "expandGroups gs ell = (case ell of
       None \<Rightarrow> if length gs = 8 then Some gs else None
     | Some e \<Rightarrow> if length gs < 8 then Some (take e gs @ replicate (8 - length gs) 0 @ drop e gs)
                else None)"

definition parseIPv6 :: "string \<Rightarrow> addr option" where
  "parseIPv6 s0 =
     (let s = takeWhile (\<lambda>c. c \<noteq> CHR ''%'') s0;
          pct = drop (length s) s0;
          zone = drop 1 pct
      in if pct \<noteq> [] \<and> zone = [] then None
         else if s = ''::'' then Some (V6 0 zone)
         else case (if hasPrefix s ''::'' then v6Loop 8 [] (Some 0) (drop 2 s)
                    else v6Loop 8 [] None s) of
           None \<Rightarrow> None
         | Some (gs, ell) \<Rightarrow> (case expandGroups gs ell of
             None \<Rightarrow> None
           | Some gs \<Rightarrow> Some (V6 (of_nat (ofGroups 0 gs)) zone)))"

fun firstSep :: "string \<Rightarrow> char option" where
  "firstSep [] = None"
| "firstSep (c # cs) = (if c \<in> {CHR ''.'', CHR '':'', CHR ''%''} then Some c else firstSep cs)"

definition ParseAddr :: "string \<Rightarrow> addr option" where
  "ParseAddr s = (case firstSep s of
       Some c \<Rightarrow> (if c = CHR ''.'' then map_option (\<lambda>n. V4 (of_nat n)) (parseIPv4Fields s)
                  else if c = CHR '':'' then parseIPv6 s else None)
     | None \<Rightarrow> None)"

text \<open>Printing.\<close>

definition dotted :: "nat \<Rightarrow> string" where
  "dotted n = joinWith ''.'' (map natDigits
     [n div 16777216 mod 256, n div 65536 mod 256, n div 256 mod 256, n mod 256])"

definition hexDigit :: "nat \<Rightarrow> char" where
  "hexDigit d = (if d < 10 then char_of (48 + d) else char_of (87 + d))"

fun hexDigits :: "nat \<Rightarrow> string" where
  "hexDigits n = (if n < 16 then [hexDigit n] else hexDigits (n div 16) @ [hexDigit (n mod 16)])"

declare hexDigits.simps [simp del]

definition groupsOf :: "nat \<Rightarrow> nat list" where
  "groupsOf n = map (\<lambda>i. n div 65536 ^ (7 - i) mod 65536) [0..<8]"

text \<open>The zero run to compress: the leftmost among the longest of at least two groups.\<close>

fun zeroRun :: "nat list \<Rightarrow> nat" where
  "zeroRun (0 # gs) = Suc (zeroRun gs)"
| "zeroRun _ = 0"

fun bestRun :: "nat \<Rightarrow> nat list \<Rightarrow> nat \<times> nat \<Rightarrow> nat \<times> nat" where
  "bestRun i [] best = best"
| "bestRun i (g # gs) best =
     (let l = zeroRun (g # gs)
      in bestRun (Suc i) gs (if 2 \<le> l \<and> snd best < l then (i, l) else best))"

definition hexGroups :: "nat list \<Rightarrow> string" where
  "hexGroups gs = joinWith '':'' (map hexDigits gs)"

definition printGroups :: "nat list \<Rightarrow> string" where
  "printGroups gs = (case bestRun 0 gs (0, 0) of (i, l) \<Rightarrow>
     if l = 0 then hexGroups gs
     else hexGroups (take i gs) @ ''::'' @ hexGroups (drop (i + l) gs))"

definition Is4 :: "addr \<Rightarrow> bool" where
  "Is4 a = (case a of V4 _ \<Rightarrow> True | _ \<Rightarrow> False)"

definition Is6 :: "addr \<Rightarrow> bool" where
  "Is6 a = (case a of V6 _ _ \<Rightarrow> True | _ \<Rightarrow> False)"

definition Is4In6 :: "addr \<Rightarrow> bool" where
  "Is4In6 a = (case a of V6 w _ \<Rightarrow> unat w div 2 ^ 32 = 65535 | _ \<Rightarrow> False)"

definition addrZone :: "addr \<Rightarrow> string" where
  "addrZone a = (case a of V6 _ z \<Rightarrow> z | _ \<Rightarrow> [])"

definition addrString :: "addr \<Rightarrow> string" where
  "addrString a = (case a of
       NoAddr \<Rightarrow> ''invalid IP''
     | V4 w \<Rightarrow> dotted (unat w)
     | V6 w z \<Rightarrow>
         (if Is4In6 a then ''::ffff:'' @ dotted (unat w mod 2 ^ 32) else printGroups (groupsOf (unat w))) @
         (if z = [] then [] else CHR ''%'' # z))"

section \<open>Order, arithmetic, classes\<close>

definition bitLen :: "addr \<Rightarrow> nat" where
  "bitLen a = (case a of NoAddr \<Rightarrow> 0 | V4 _ \<Rightarrow> 32 | V6 _ _ \<Rightarrow> 128)"

definition addrVal :: "addr \<Rightarrow> nat" where
  "addrVal a = (case a of NoAddr \<Rightarrow> 0 | V4 w \<Rightarrow> unat w | V6 w _ \<Rightarrow> unat w)"

text \<open>\<^verbatim>\<open>Compare\<close>: by family, then by value, then by zone.\<close>

definition addrLess :: "addr \<Rightarrow> addr \<Rightarrow> bool" where
  "addrLess a b = (bitLen a < bitLen b \<or> bitLen a = bitLen b \<and>
     (addrVal a < addrVal b \<or> addrVal a = addrVal b \<and> addrZone a < addrZone b))"

definition addrLe :: "addr \<Rightarrow> addr \<Rightarrow> bool" where
  "addrLe a b = (\<not> addrLess b a)"

definition Next :: "addr \<Rightarrow> addr" where
  "Next a = (case a of
       NoAddr \<Rightarrow> NoAddr
     | V4 w \<Rightarrow> if w + 1 = 0 then NoAddr else V4 (w + 1)
     | V6 w z \<Rightarrow> if w + 1 = 0 then NoAddr else V6 (w + 1) z)"

text \<open>An IPv4-mapped IPv6 address has the classes of the IPv4 address it maps.\<close>

definition Unmap :: "addr \<Rightarrow> addr" where
  "Unmap a = (if Is4In6 a then V4 (of_nat (addrVal a)) else a)"

definition IsUnspecified :: "addr \<Rightarrow> bool" where
  "IsUnspecified a = (a = V4 0 \<or> a = V6 0 [])"

definition IsMulticast :: "addr \<Rightarrow> bool" where
  "IsMulticast a = (case Unmap a of
       V4 w \<Rightarrow> unat w div 2 ^ 28 = 14
     | V6 w _ \<Rightarrow> unat w div 2 ^ 120 = 255
     | NoAddr \<Rightarrow> False)"

section \<open>Prefixes\<close>

definition parseBits :: "string \<Rightarrow> nat option" where
  "parseBits s = (if s \<noteq> [] \<and> list_all isDigit s \<and> (length s = 1 \<or> hd s \<noteq> CHR ''0'')
     then Some (decVal 0 s) else None)"

definition ParsePrefix :: "string \<Rightarrow> prefix option" where
  "ParsePrefix s =
     (if CHR ''/'' \<notin> set s then None
      else let bits = rev (takeWhile (\<lambda>c. c \<noteq> CHR ''/'') (rev s));
               ip = take (length s - length bits - 1) s
           in case (ParseAddr ip, parseBits bits) of
                (Some a, Some n) \<Rightarrow>
                  if addrZone a \<noteq> [] \<or> bitLen a < n then None
                  else Some \<lparr>pfxAddr = a, pfxBits = n\<rparr>
              | _ \<Rightarrow> None)"

definition maskVal :: "nat \<Rightarrow> nat \<Rightarrow> nat \<Rightarrow> nat" where
  "maskVal width bits n = n div 2 ^ (width - bits) * 2 ^ (width - bits)"

definition maskAddr :: "addr \<Rightarrow> nat \<Rightarrow> addr" where
  "maskAddr a bits = (case a of
       NoAddr \<Rightarrow> NoAddr
     | V4 w \<Rightarrow> V4 (of_nat (maskVal 32 bits (unat w)))
     | V6 w _ \<Rightarrow> V6 (of_nat (maskVal 128 bits (unat w))) [])"

definition Masked :: "prefix \<Rightarrow> prefix" where
  "Masked p = p\<lparr>pfxAddr := maskAddr (pfxAddr p) (pfxBits p)\<rparr>"

definition Contains :: "prefix \<Rightarrow> addr \<Rightarrow> bool" where
  "Contains p a = (addrZone a = [] \<and> bitLen (pfxAddr p) \<noteq> 0 \<and> bitLen a = bitLen (pfxAddr p) \<and>
     addrVal a div 2 ^ (bitLen a - pfxBits p) = addrVal (pfxAddr p) div 2 ^ (bitLen a - pfxBits p))"

definition Overlaps :: "prefix \<Rightarrow> prefix \<Rightarrow> bool" where
  "Overlaps p q = (bitLen (pfxAddr p) \<noteq> 0 \<and> bitLen (pfxAddr q) = bitLen (pfxAddr p) \<and>
     (let b = min (pfxBits p) (pfxBits q)
      in maskAddr (pfxAddr p) b = maskAddr (pfxAddr q) b))"

definition prefixString :: "prefix \<Rightarrow> string" where
  "prefixString p = addrString (pfxAddr p) @ ''/'' @ natDigits (pfxBits p)"

section \<open>Hardware addresses\<close>

text \<open>
  \<^verbatim>\<open>net.ParseMAC\<close>: pairs of digits separated by colons or hyphens, or groups of four separated
  by dots, for 6, 8 or 20 bytes; its \<^verbatim>\<open>String\<close> is lower-case pairs with colons.
\<close>

definition hexPair :: "string \<Rightarrow> nat option" where
  "hexPair s = (case map hexVal s of [Some a, Some b] \<Rightarrow> Some (a * 16 + b) | _ \<Rightarrow> None)"

definition hexQuad :: "string \<Rightarrow> nat list option" where
  "hexQuad s = (case map hexVal s of
       [Some a, Some b, Some c, Some d] \<Rightarrow> Some [a * 16 + b, c * 16 + d] | _ \<Rightarrow> None)"

fun allSome :: "'a option list \<Rightarrow> 'a list option" where
  "allSome [] = Some []"
| "allSome (None # xs) = None"
| "allSome (Some x # xs) = map_option ((#) x) (allSome xs)"

definition ParseMAC :: "string \<Rightarrow> nat list option" where
  "ParseMAC s =
     (let sep = (if length s < 3 then None else Some (s ! 2));
          sep4 = (if length s < 5 then None else Some (s ! 4));
          bytes = (if sep = Some CHR '':'' \<or> sep = Some CHR ''-''
                   then allSome (map hexPair (splitOn (the sep) s))
                   else if sep4 = Some CHR ''.''
                   then map_option concat (allSome (map hexQuad (splitOn CHR ''.'' s)))
                   else None)
      in case bytes of
           None \<Rightarrow> None
         | Some b \<Rightarrow> if length b \<in> {6, 8, 20} then Some b else None)"

definition macString :: "nat list \<Rightarrow> string" where
  "macString bs = joinWith '':'' (map (\<lambda>b. [hexDigit (b div 16), hexDigit (b mod 16)]) bs)"

lemmas netip_defs [go_defs] =
  digitVal_def parseOctet_def quad_def parseIPv4Fields_def hexVal_def expandGroups_def
  parseIPv6_def ParseAddr_def dotted_def hexDigit_def groupsOf_def hexGroups_def printGroups_def
  Is4_def Is6_def Is4In6_def addrZone_def addrString_def bitLen_def addrVal_def addrLess_def
  addrLe_def Next_def Unmap_def IsUnspecified_def IsMulticast_def parseBits_def ParsePrefix_def
  maskVal_def maskAddr_def Masked_def Contains_def Overlaps_def prefixString_def hexPair_def
  hexQuad_def ParseMAC_def macString_def

end
