(* ===== verification/Wellknown.thy ===== *)
theory Wellknown
  imports Ghost_Prelude
begin

text \<open>
  The ports and address conventions the daemon names (\<^verbatim>\<open>internal/wellknown\<close>).
\<close>

definition PortDNS :: int where "PortDNS = 53"
definition PortDHCPv4Server :: int where "PortDHCPv4Server = 67"
definition PortDHCPv4Client :: int where "PortDHCPv4Client = 68"
definition PortTFTP :: int where "PortTFTP = 69"
definition PortHTTP :: int where "PortHTTP = 80"
definition PortHTTPS :: int where "PortHTTPS = 443"
definition PortDHCPv6Client :: int where "PortDHCPv6Client = 546"
definition PortDHCPv6Server :: int where "PortDHCPv6Server = 547"
definition PortMDNS :: int where "PortMDNS = 5353"

definition PortRPCBind :: int where "PortRPCBind = 111"
definition PortNFS :: int where "PortNFS = 2049"
definition PortMountd :: int where "PortMountd = 20048"

definition TailnetCGNAT4 :: string where "TailnetCGNAT4 = ''100.64.0.0/10''"
definition TailnetULA6 :: string where "TailnetULA6 = ''fd7a:115c:a1e0::/48''"

lemmas wellknown_defs =
  PortDNS_def PortDHCPv4Server_def PortDHCPv4Client_def PortTFTP_def PortHTTP_def PortHTTPS_def
  PortDHCPv6Client_def PortDHCPv6Server_def PortMDNS_def PortRPCBind_def PortNFS_def PortMountd_def

text \<open>\<^verbatim>\<open>net.JoinHostPort\<close>: a host with a colon is put in brackets.\<close>

definition HostPort :: "string \<Rightarrow> int \<Rightarrow> string" where
  "HostPort host port =
     (if CHR '':'' \<in> set host then ''['' @ host @ '']:'' @ itoa port else host @ '':'' @ itoa port)"

end
