(* ===== verification/Nft_Policy.thy ===== *)
theory Nft_Policy
  imports Go_Json Go_Netip Wellknown
begin

text \<open>
  The firewall domain's request (\<^verbatim>\<open>internal/nft/desiredstate.go\<close>): its schema, its strict
  decoding, and the validation that precedes every rendering (\<^verbatim>\<open>validate\<close> of \<^verbatim>\<open>render.go\<close>,
  \<^verbatim>\<open>validateOutput\<close> of \<^verbatim>\<open>output.go\<close>).  A Go map is an association list with distinct keys in the
  order an iteration happens to visit them.
\<close>

section \<open>Schema\<close>

record redirectRule =
  RPort :: int
  RToPort :: int
  RProto :: string

record portRule =
  PPort :: int
  PProto :: string

record sshRule =
  SSHPort :: int

record nfsRule =
  Exports :: "string list"

record zone =
  Interfaces :: "string list"
  SSH :: "sshRule option"
  NFS :: "nfsRule option"
  Services :: "string list"
  Ports :: "portRule list"
  ZTarget :: string
  Forward :: "string list"
  Masquerade :: bool
  Redirects :: "redirectRule list"

record ingress =
  IngInterfaces :: "string list"
  IngRedirects :: "redirectRule list"

record outputRule =
  OProto :: string
  OPort :: int
  OFamily :: string
  OInterface :: string
  ODestination :: string

record outputPolicy =
  Policy :: string
  EstablishedRelated :: bool
  Loopback :: bool
  ORules :: "outputRule list"

record desiredState =
  RedirectOnly :: bool
  Zones :: "(string \<times> zone) list"
  Ingress :: "ingress option"
  Output :: "outputPolicy option"
  AllowDNATForward :: bool

record reachabilityGuard =
  TailscaleInterface :: string
  GuardPort :: int

section \<open>Decoding\<close>

definition decRedirect :: "redirectRule decoder" where
  "decRedirect = strictObj [''port'', ''to_port'', ''proto''] (\<lambda>kvs r.
     bindR (decField decInt ''port'' kvs (RPort r)) (\<lambda>p.
     bindR (decField decInt ''to_port'' kvs (RToPort r)) (\<lambda>t.
     bindR (decField decString ''proto'' kvs (RProto r)) (\<lambda>x.
       Inr \<lparr>RPort = p, RToPort = t, RProto = x\<rparr>))))"

definition zeroRedirect :: redirectRule where
  "zeroRedirect = \<lparr>RPort = 0, RToPort = 0, RProto = []\<rparr>"

definition decPort :: "portRule decoder" where
  "decPort = strictObj [''port'', ''proto''] (\<lambda>kvs r.
     bindR (decField decInt ''port'' kvs (PPort r)) (\<lambda>p.
     bindR (decField decString ''proto'' kvs (PProto r)) (\<lambda>x.
       Inr \<lparr>PPort = p, PProto = x\<rparr>)))"

definition decSSH :: "sshRule decoder" where
  "decSSH = strictObj [''port''] (\<lambda>kvs r.
     bindR (decField decInt ''port'' kvs (SSHPort r)) (\<lambda>p. Inr \<lparr>SSHPort = p\<rparr>))"

definition decNFS :: "nfsRule decoder" where
  "decNFS = strictObj [''exports''] (\<lambda>kvs r.
     bindR (decField (decList decString []) ''exports'' kvs (Exports r)) (\<lambda>e. Inr \<lparr>Exports = e\<rparr>))"

definition zeroZone :: zone where
  "zeroZone = \<lparr>Interfaces = [], SSH = None, NFS = None, Services = [], Ports = [], ZTarget = [],
     Forward = [], Masquerade = False, Redirects = []\<rparr>"

definition decZone :: "zone decoder" where
  "decZone = strictObj [''interfaces'', ''ssh'', ''nfs'', ''services'', ''ports'', ''target'',
       ''forward'', ''masquerade'', ''redirects''] (\<lambda>kvs z.
     bindR (decField (decList decString []) ''interfaces'' kvs (Interfaces z)) (\<lambda>i.
     bindR (decField (decPtr decSSH \<lparr>SSHPort = 0\<rparr>) ''ssh'' kvs (SSH z)) (\<lambda>ssh.
     bindR (decField (decPtr decNFS \<lparr>Exports = []\<rparr>) ''nfs'' kvs (NFS z)) (\<lambda>nfs.
     bindR (decField (decList decString []) ''services'' kvs (Services z)) (\<lambda>sv.
     bindR (decField (decList decPort \<lparr>PPort = 0, PProto = []\<rparr>) ''ports'' kvs (Ports z)) (\<lambda>po.
     bindR (decField decString ''target'' kvs (ZTarget z)) (\<lambda>t.
     bindR (decField (decList decString []) ''forward'' kvs (Forward z)) (\<lambda>f.
     bindR (decField decBool ''masquerade'' kvs (Masquerade z)) (\<lambda>m.
     bindR (decField (decList decRedirect zeroRedirect) ''redirects'' kvs (Redirects z)) (\<lambda>r.
       Inr \<lparr>Interfaces = i, SSH = ssh, NFS = nfs, Services = sv, Ports = po, ZTarget = t,
            Forward = f, Masquerade = m, Redirects = r\<rparr>))))))))))"

definition decIngress :: "ingress decoder" where
  "decIngress = strictObj [''interfaces'', ''redirects''] (\<lambda>kvs g.
     bindR (decField (decList decString []) ''interfaces'' kvs (IngInterfaces g)) (\<lambda>i.
     bindR (decField (decList decRedirect zeroRedirect) ''redirects'' kvs (IngRedirects g)) (\<lambda>r.
       Inr \<lparr>IngInterfaces = i, IngRedirects = r\<rparr>)))"

definition decOutputRule :: "outputRule decoder" where
  "decOutputRule = strictObj [''proto'', ''port'', ''family'', ''interface'', ''destination'']
     (\<lambda>kvs r.
     bindR (decField decString ''proto'' kvs (OProto r)) (\<lambda>p.
     bindR (decField decInt ''port'' kvs (OPort r)) (\<lambda>n.
     bindR (decField decString ''family'' kvs (OFamily r)) (\<lambda>f.
     bindR (decField decString ''interface'' kvs (OInterface r)) (\<lambda>i.
     bindR (decField decString ''destination'' kvs (ODestination r)) (\<lambda>d.
       Inr \<lparr>OProto = p, OPort = n, OFamily = f, OInterface = i, ODestination = d\<rparr>))))))"

definition decOutput :: "outputPolicy decoder" where
  "decOutput = strictObj [''policy'', ''established_related'', ''loopback'', ''rules''] (\<lambda>kvs p.
     bindR (decField decString ''policy'' kvs (Policy p)) (\<lambda>y.
     bindR (decField decBool ''established_related'' kvs (EstablishedRelated p)) (\<lambda>e.
     bindR (decField decBool ''loopback'' kvs (Loopback p)) (\<lambda>l.
     bindR (decField (decList decOutputRule \<lparr>OProto = [], OPort = 0, OFamily = [],
              OInterface = [], ODestination = []\<rparr>) ''rules'' kvs (ORules p)) (\<lambda>r.
       Inr \<lparr>Policy = y, EstablishedRelated = e, Loopback = l, ORules = r\<rparr>)))))"

definition zeroState :: desiredState where
  "zeroState = \<lparr>RedirectOnly = False, Zones = [], Ingress = None, Output = None,
     AllowDNATForward = False\<rparr>"

definition decState :: "desiredState decoder" where
  "decState = strictObj [''redirect_only'', ''zones'', ''ingress'', ''output'',
       ''allow_dnat_forward''] (\<lambda>kvs d.
     bindR (decField decBool ''redirect_only'' kvs (RedirectOnly d)) (\<lambda>ro.
     bindR (decField (decMap decZone zeroZone) ''zones'' kvs (Zones d)) (\<lambda>z.
     bindR (decField (decPtr decIngress \<lparr>IngInterfaces = [], IngRedirects = []\<rparr>)
              ''ingress'' kvs (Ingress d)) (\<lambda>i.
     bindR (decField (decPtr decOutput \<lparr>Policy = [], EstablishedRelated = False,
              Loopback = False, ORules = []\<rparr>) ''output'' kvs (Output d)) (\<lambda>out.
     bindR (decField decBool ''allow_dnat_forward'' kvs (AllowDNATForward d)) (\<lambda>a.
       Inr \<lparr>RedirectOnly = ro, Zones = z, Ingress = i, Output = out, AllowDNATForward = a\<rparr>))))))"

definition ParseDesiredState :: "bytes \<Rightarrow> desiredState result" where
  "ParseDesiredState raw = bindR (unmarshal raw) (decState zeroState)"

section \<open>Validation\<close>

definition interfaceChar :: "char \<Rightarrow> bool" where
  "interfaceChar c = (isLowerLetter c \<or> isUpperLetter c \<or> isDigit c \<or>
     c \<in> {CHR ''_'', CHR ''.'', CHR '':'', CHR ''-''})"

definition validInterface :: "string \<Rightarrow> bool" where
  "validInterface name = (1 \<le> length name \<and> length name \<le> 15 \<and> list_all interfaceChar name \<and>
     name \<noteq> ''.'' \<and> name \<noteq> ''..'')"

definition validPort :: "int \<Rightarrow> bool" where
  "validPort port = (1 \<le> port \<and> port \<le> 65535)"

definition zoneNameOk :: "string \<Rightarrow> bool" where
  "zoneNameOk s = (case s of
       [] \<Rightarrow> False
     | c # cs \<Rightarrow> (isLowerLetter c \<or> isUpperLetter c \<or> c = CHR ''_'') \<and>
         list_all (\<lambda>c. isLowerLetter c \<or> isUpperLetter c \<or> isDigit c \<or> c = CHR ''_'') cs)"

definition tcpOrUdp :: "string \<Rightarrow> bool" where
  "tcpOrUdp p = (p = ''tcp'' \<or> p = ''udp'')"

definition serviceReplyPorts :: "(string \<times> portRule list) list" where
  "serviceReplyPorts = [(''mdns'', [\<lparr>PPort = PortMDNS, PProto = ''udp''\<rparr>])]"

definition builtinServices :: "(string \<times> portRule list) list" where
  "builtinServices =
     [(''mdns'', [\<lparr>PPort = PortMDNS, PProto = ''udp''\<rparr>]),
      (''tftp'', [\<lparr>PPort = PortTFTP, PProto = ''udp''\<rparr>]),
      (''dns'', [\<lparr>PPort = PortDNS, PProto = ''tcp''\<rparr>, \<lparr>PPort = PortDNS, PProto = ''udp''\<rparr>]),
      (''dhcp'', [\<lparr>PPort = PortDHCPv4Server, PProto = ''udp''\<rparr>]),
      (''dhcpv6-client'', [\<lparr>PPort = PortDHCPv6Client, PProto = ''udp''\<rparr>]),
      (''http'', [\<lparr>PPort = PortHTTP, PProto = ''tcp''\<rparr>]),
      (''https'', [\<lparr>PPort = PortHTTPS, PProto = ''tcp''\<rparr>])]"

definition portsOf :: "(string \<times> portRule list) list \<Rightarrow> string \<Rightarrow> portRule list" where
  "portsOf table svc = (case map_of table svc of None \<Rightarrow> [] | Some rs \<Rightarrow> rs)"

definition validateOutputRule :: "outputRule \<Rightarrow> unit result" where
  "validateOutputRule r =
     bindR (refuse (\<not> validPort (OPort r) \<or> \<not> tcpOrUdp (OProto r)) ''nft: invalid output port/protocol'') (\<lambda>_.
     bindR (refuse (OFamily r \<noteq> [] \<and> OFamily r \<noteq> ''ip'' \<and> OFamily r \<noteq> ''ip6'') ''nft: invalid output family'') (\<lambda>_.
     bindR (refuse (OInterface r \<noteq> [] \<and> \<not> validInterface (OInterface r)) ''nft: invalid output interface'') (\<lambda>_.
       if ODestination r = [] then Inr ()
       else case (case ParseAddr (ODestination r) of
                    Some a \<Rightarrow> Some a
                  | None \<Rightarrow> map_option pfxAddr (ParsePrefix (ODestination r))) of
         None \<Rightarrow> Fail ''nft: invalid output destination''
       | Some a \<Rightarrow> refuse (addrZone a \<noteq> [] \<or> OFamily r = ''ip'' \<and> \<not> Is4 a \<or>
             OFamily r = ''ip6'' \<and> Is4 a) ''nft: output destination family mismatch'')))"

definition validateOutput :: "outputPolicy option \<Rightarrow> unit result" where
  "validateOutput out = (case out of
       None \<Rightarrow> Inr ()
     | Some p \<Rightarrow>
         bindR (refuse (Policy p \<noteq> ''DROP'' \<and> Policy p \<noteq> ''ACCEPT'') ''nft: output policy must be DROP or ACCEPT'')
           (\<lambda>_. eachR validateOutputRule (ORules p)))"

definition validateIngress :: "ingress option \<Rightarrow> unit result" where
  "validateIngress ing = (case ing of
       None \<Rightarrow> Inr ()
     | Some g \<Rightarrow>
         bindR (refuse (IngInterfaces g = [] \<or> IngRedirects g = [])
           ''nft: ingress requires interfaces and the ports to redirect'') (\<lambda>_.
         bindR (eachR (\<lambda>i. refuse (\<not> validInterface i) ''nft: invalid ingress interface'') (IngInterfaces g)) (\<lambda>_.
         bindR (foldR (\<lambda>seen r.
             if \<not> validPort (RPort r) \<or> \<not> validPort (RToPort r) \<or> RPort r = RToPort r \<or>
                RProto r \<noteq> ''tcp'' \<or> RPort r \<in> set seen
             then Fail ''nft: invalid or duplicate ingress redirect''
             else Inr (RPort r # seen)) [] (IngRedirects g)) (\<lambda>_. Inr ()))))"

text \<open>The interfaces of one zone are claimed one by one; a second claim is an error.\<close>

definition claimInterface ::
  "string \<Rightarrow> (string \<times> string) list \<Rightarrow> string \<Rightarrow> (string \<times> string) list result" where
  "claimInterface zoneName assigned iface =
     (if \<not> validInterface iface then Fail ''nft: invalid interface''
      else if map_of assigned iface \<noteq> None then Fail ''nft: interface repeated in zones''
      else Inr ((iface, zoneName) # assigned))"

definition validateRedirect :: "(string \<times> int) list \<Rightarrow> redirectRule \<Rightarrow> (string \<times> int) list result" where
  "validateRedirect seen r =
     (if \<not> validPort (RPort r) \<or> \<not> validPort (RToPort r) \<or> RPort r = RToPort r \<or>
         \<not> tcpOrUdp (RProto r) \<or> (RProto r, RPort r) \<in> set seen
      then Fail ''nft: invalid or duplicate redirect''
      else Inr ((RProto r, RPort r) # seen))"

definition validNFSSource :: "string \<Rightarrow> bool" where
  "validNFSSource src =
     ((case ParsePrefix src of Some p \<Rightarrow> Is4 (pfxAddr p) | None \<Rightarrow> False) \<or>
      (case ParseAddr src of Some a \<Rightarrow> Is4 a | None \<Rightarrow> False))"

definition redirectOnlyZone :: "zone \<Rightarrow> bool" where
  "redirectOnlyZone z = (SSH z = None \<and> NFS z = None \<and> Services z = [] \<and> Ports z = [] \<and>
     Forward z = [] \<and> \<not> Masquerade z \<and> (ZTarget z = [] \<or> ZTarget z = ''DROP''))"

definition validateZone ::
  "desiredState \<Rightarrow> (string \<times> string) list \<times> bool \<Rightarrow> string \<times> zone \<Rightarrow>
     ((string \<times> string) list \<times> bool) result" where
  "validateZone ds st nz = (case (st, nz) of ((assigned, reach), (name, z)) \<Rightarrow>
     bindR (refuse (RedirectOnly ds \<and> \<not> redirectOnlyZone z)
       ''nft: redirect-only zone cannot contain filtering or forwarding policy'') (\<lambda>_.
     bindR (refuse (\<not> zoneNameOk name) ''nft: invalid zone name'') (\<lambda>_.
     bindR (refuse (ZTarget z \<noteq> [] \<and> \<not> equalFold (ZTarget z) ''DROP'' \<and> \<not> equalFold (ZTarget z) ''ACCEPT'')
       ''nft: invalid target'') (\<lambda>_.
     bindR (foldR (claimInterface name) assigned (Interfaces z)) (\<lambda>assigned'.
     bindR (refuse (case SSH z of None \<Rightarrow> False | Some r \<Rightarrow> \<not> validPort (SSHPort r)) ''nft: invalid SSH port'') (\<lambda>_.
     bindR (eachR (\<lambda>r. refuse (\<not> validPort (PPort r) \<or> \<not> tcpOrUdp (PProto r)) ''nft: invalid port rule'')
       (Ports z)) (\<lambda>_.
     bindR (foldR validateRedirect [] (Redirects z)) (\<lambda>_.
     bindR (case NFS z of None \<Rightarrow> Inr () | Some n \<Rightarrow>
         eachR (\<lambda>src. refuse (\<not> validNFSSource src) ''nft: NFS source must be an IPv4 address or CIDR'')
           (Exports n)) (\<lambda>_.
     bindR (eachR (\<lambda>e. refuse (map_of (Zones ds) e = None) ''nft: zone forwards to undeclared zone'')
       (Forward z)) (\<lambda>_.
     bindR (eachR (\<lambda>s. refuse (map_of builtinServices s = None) ''nft: zone declares unrecognized service'')
       (Services z)) (\<lambda>_.
     bindR (refuse (Interfaces z = []) ''nft: zone declares no interfaces'') (\<lambda>_.
       Inr (assigned', reach \<or> name = ''trusted'' \<or> SSH z \<noteq> None)))))))))))))"

definition validate :: "desiredState \<Rightarrow> unit result" where
  "validate ds =
     bindR (refuse (RedirectOnly ds \<and> (Output ds \<noteq> None \<or> Ingress ds \<noteq> None \<or> AllowDNATForward ds))
       ''nft: redirect-only policy cannot contain output or ingress policy'') (\<lambda>_.
     bindR (validateOutput (Output ds)) (\<lambda>_.
     bindR (refuse (Zones ds = []) ''nft: no zones declared'') (\<lambda>_.
     bindR (validateIngress (Ingress ds)) (\<lambda>_.
     bindR (foldR (validateZone ds) ([], False) (Zones ds)) (\<lambda>(_, hasReachableZone).
       refuse (\<not> hasReachableZone \<and> \<not> RedirectOnly ds)
         ''nft: no zone declares ssh (and no zone is named trusted)'')))))"

end
