(* ===== verification/Nft_Render.thy ===== *)
theory Nft_Render
  imports Nft_Policy
begin

text \<open>
  Rendering of a validated request into an nft script (\<^verbatim>\<open>internal/nft/render.go\<close>, the writer of
  \<^verbatim>\<open>output.go\<close>).  A writer returns the chunks it appends to the string builder, in order.
\<close>

definition ln :: "string \<Rightarrow> string" where
  "ln s = s @ [CHR 0x0A]"

definition tableName :: string where
  "tableName = ''stack_ghostd''"

definition nfsPorts :: "int list" where
  "nfsPorts = [PortRPCBind, PortNFS, PortMountd]"

definition zoneOf :: "desiredState \<Rightarrow> string \<Rightarrow> zone" where
  "zoneOf ds name = (case map_of (Zones ds) name of None \<Rightarrow> zeroZone | Some z \<Rightarrow> z)"

definition sortedZoneNames :: "(string \<times> zone) list \<Rightarrow> string list" where
  "sortedZoneNames zones = sort (map fst zones)"

definition ifaceSet :: "string list \<Rightarrow> string" where
  "ifaceSet interfaces = ''{ '' @ joinWith '', '' (map quoteStr (sortedStrings interfaces)) @ '' }''"

definition sortedIngressRedirects :: "ingress \<Rightarrow> redirectRule list" where
  "sortedIngressRedirects g = sort_key RPort (IngRedirects g)"

definition backendPorts :: "ingress \<Rightarrow> int list" where
  "backendPorts g = sort (fold (\<lambda>r ports. if RToPort r \<in> set ports then ports else ports @ [RToPort r])
     (sortedIngressRedirects g) [])"

definition portSet :: "int list \<Rightarrow> string" where
  "portSet ports = joinWith '', '' (map itoa ports)"

definition ingressOutputDestinations :: "(string \<times> string) list" where
  "ingressOutputDestinations =
     [(''ip'', TailnetCGNAT4), (''ip6'', TailnetULA6),
      (''ip'', ''{ 10.0.0.0/8, 172.16.0.0/12, 192.168.0.0/16 }''), (''ip6'', ''fc00::/7'')]"

definition writeInputChain :: "desiredState \<Rightarrow> reachabilityGuard \<Rightarrow> string list \<Rightarrow> string list" where
  "writeInputChain ds guard names =
     [ln ''  chain input {'',
      ln ''    type filter hook input priority 0; policy drop;'',
      ln ''    ct state established,related accept'',
      ln (''    iifname '' @ quoteStr ''lo'' @ '' accept''),
      ln (''    iifname '' @ quoteStr ''podman*'' @ '' udp dport '' @ itoa PortDNS @ '' accept''),
      ln (''    iifname '' @ quoteStr ''podman*'' @ '' tcp dport '' @ itoa PortDNS @ '' accept''),
      ln (''    iifname '' @ quoteStr ''podman*'' @ '' udp dport '' @ itoa PortMDNS @ '' accept''),
      ln ''    meta l4proto ipv6-icmp icmpv6 type { destination-unreachable, packet-too-big, time-exceeded, parameter-problem } accept'',
      ln ''    meta l4proto ipv6-icmp icmpv6 type { nd-router-solicit, nd-router-advert, nd-neighbor-solicit, nd-neighbor-advert } ip6 hoplimit 255 accept''] @
     (if TailscaleInterface guard \<noteq> [] \<and> GuardPort guard \<noteq> 0
      then [ln (''    iifname '' @ quoteStr (TailscaleInterface guard) @ '' tcp dport '' @
              itoa (GuardPort guard) @ '' accept'')]
      else []) @
     map (\<lambda>name. ln (''    iifname '' @ ifaceSet (Interfaces (zoneOf ds name)) @ '' jump zone_'' @ name))
       names @
     (case Ingress ds of
        None \<Rightarrow> []
      | Some g \<Rightarrow> if IngRedirects g = [] then []
          else [ln (''    iifname '' @ ifaceSet (IngInterfaces g) @ '' tcp dport { '' @
                  portSet (backendPorts g) @ '' } accept'')]) @
     [ln ''  }'']"

definition writeForwardChain :: "desiredState \<Rightarrow> string list \<Rightarrow> string list" where
  "writeForwardChain ds names =
     [ln ''  chain forward {'',
      ln ''    type filter hook forward priority 0; policy drop;'',
      ln ''    ct state established,related accept''] @
     (if AllowDNATForward ds then [ln ''    ct status dnat accept''] else []) @
     concat (map (\<lambda>name. map (\<lambda>egress. ln (''    iifname '' @ ifaceSet (Interfaces (zoneOf ds name)) @
           '' oifname '' @ ifaceSet (Interfaces (zoneOf ds egress)) @ '' accept''))
         (sortedStrings (Forward (zoneOf ds name)))) names) @
     [ln ''  }'']"

definition writePreroutingChain :: "desiredState \<Rightarrow> string list" where
  "writePreroutingChain ds =
     [ln ''  chain prerouting {'',
      ln ''    type nat hook prerouting priority -100;''] @
     concat (map (\<lambda>name. concat (map (\<lambda>iface. map (\<lambda>r.
           ln (''    iifname '' @ quoteStr iface @ '' fib daddr type local '' @ RProto r @ '' dport '' @
             itoa (RPort r) @ '' redirect to :'' @ itoa (RToPort r)))
         (Redirects (zoneOf ds name))) (sortedStrings (Interfaces (zoneOf ds name)))))
       (sortedZoneNames (Zones ds))) @
     (case Ingress ds of
        None \<Rightarrow> []
      | Some g \<Rightarrow> concat (map (\<lambda>iface. map (\<lambda>r.
            ln (''    iifname '' @ quoteStr iface @ '' fib daddr type local tcp dport '' @
              itoa (RPort r) @ '' dnat to :'' @ itoa (RToPort r)))
          (sortedIngressRedirects g)) (sortedStrings (IngInterfaces g)))) @
     [ln ''  }'']"

definition writeIngressOutputChain :: "desiredState \<Rightarrow> string list" where
  "writeIngressOutputChain ds = (case Ingress ds of
       None \<Rightarrow> []
     | Some g \<Rightarrow> if IngRedirects g = [] then [] else
         [ln ''  chain output_redirect {'',
          ln ''    type nat hook output priority -100;''] @
         concat (map (\<lambda>r. map (\<lambda>(family, pfx).
             ln (''    fib daddr type local '' @ family @ '' daddr '' @ pfx @ '' tcp dport '' @
               itoa (RPort r) @ '' redirect to :'' @ itoa (RToPort r)))
           ingressOutputDestinations) (sortedIngressRedirects g)) @
         [ln ''  }''])"

definition writePostroutingChain :: "desiredState \<Rightarrow> string list \<Rightarrow> string list" where
  "writePostroutingChain ds names =
     [ln ''  chain postrouting {'',
      ln ''    type nat hook postrouting priority 100;''] @
     concat (map (\<lambda>name. if Masquerade (zoneOf ds name)
         then map (\<lambda>iface. ln (''    oifname '' @ quoteStr iface @ '' masquerade''))
           (sortedStrings (Interfaces (zoneOf ds name)))
         else []) names) @
     [ln ''  }'']"

definition writeZoneChain :: "string \<Rightarrow> zone \<Rightarrow> string list" where
  "writeZoneChain name z =
     [ln (''  chain zone_'' @ name @ '' {'')] @
     (if name = ''trusted'' then [ln ''    accept'', ln ''  }'']
      else
        (case SSH z of None \<Rightarrow> [] | Some r \<Rightarrow> [ln (''    tcp dport '' @ itoa (SSHPort r) @ '' accept'')]) @
        map (\<lambda>r. ln (''    ct status dnat meta l4proto '' @ RProto r @ '' ct original proto-dst '' @
            itoa (RPort r) @ '' '' @ RProto r @ '' dport '' @ itoa (RToPort r) @ '' accept''))
          (Redirects z) @
        (case NFS z of None \<Rightarrow> [] | Some n \<Rightarrow>
          map (\<lambda>export. ln (''    ip saddr '' @ export @ '' tcp dport { '' @
              joinWith '', '' (map itoa nfsPorts) @ '' } accept''))
            (sortedStrings (Exports n))) @
        concat (map (\<lambda>svc.
            map (\<lambda>r. ln (''    '' @ PProto r @ '' sport '' @ itoa (PPort r) @ '' '' @ PProto r @
                '' dport 1024-65535 accept''))
              (portsOf serviceReplyPorts svc) @
            map (\<lambda>r. ln (''    '' @ PProto r @ '' dport '' @ itoa (PPort r) @ '' accept''))
              (portsOf builtinServices svc))
          (sortedStrings (Services z))) @
        map (\<lambda>r. ln (''    '' @ PProto r @ '' dport '' @ itoa (PPort r) @ '' accept'')) (Ports z) @
        (if equalFold (ZTarget z) ''ACCEPT'' then [ln ''    accept''] else []) @
        [ln ''  }''])"

definition tftpInterfaces :: "desiredState \<Rightarrow> string list \<Rightarrow> string list" where
  "tftpInterfaces ds names =
     concat (map (\<lambda>name. concat (map (\<lambda>svc. if svc = ''tftp'' then Interfaces (zoneOf ds name) else [])
       (Services (zoneOf ds name)))) names)"

definition writeTFTPHelper :: "desiredState \<Rightarrow> string list \<Rightarrow> string list" where
  "writeTFTPHelper ds names = (let ifaces = tftpInterfaces ds names in
     if ifaces = [] then []
     else [ln ''  ct helper ghost_tftp {'' @ ln (''    type '' @ quoteStr ''tftp'' @ '' protocol udp'') @ ln ''  }'',
           ln ''  chain tftp_helper {'' @ ln ''    type filter hook prerouting priority -300; policy accept;'',
           ln (''    iifname '' @ ifaceSet ifaces @ '' udp dport '' @ itoa PortTFTP @ '' ct helper set '' @
             quoteStr ''ghost_tftp'') @ ln ''  }''])"

definition writeOutputRule :: "outputRule \<Rightarrow> string list" where
  "writeOutputRule r =
     [''    ''] @
     (if OFamily r \<noteq> [] then [''meta nfproto '' @ (if OFamily r = ''ip6'' then ''ipv6'' else ''ipv4'') @ '' ''] else []) @
     (if OInterface r \<noteq> [] then [''oifname '' @ quoteStr (OInterface r) @ '' ''] else []) @
     (if ODestination r \<noteq> []
      then [(if CHR '':'' \<in> set (ODestination r) then ''ip6'' else ''ip'') @ '' daddr '' @ ODestination r @ '' '']
      else []) @
     [ln (OProto r @ '' dport '' @ itoa (OPort r) @ '' accept'')]"

definition writeOutputChain :: "outputPolicy option \<Rightarrow> string list" where
  "writeOutputChain out = (case out of
       None \<Rightarrow> []
     | Some p \<Rightarrow>
         [ln ''  chain output {'',
          ln (''    type filter hook output priority 0; policy '' @ toLower (Policy p) @ '';'')] @
         (if EstablishedRelated p then [ln ''    ct state established,related accept''] else []) @
         (if Loopback p then [ln (''    oifname '' @ quoteStr ''lo'' @ '' accept'')] else []) @
         concat (map writeOutputRule (ORules p)) @
         [ln ''  }''])"

definition renderHead :: "string list" where
  "renderHead =
     [ln ''# Atomic replacement: ensure the table exists, delete it, then recreate it below.'',
      ln ''# nft applies this entire file as one transaction; other tables are untouched.'',
      ln (''add table inet '' @ tableName) @ ln (''delete table inet '' @ tableName),
      ln (''table inet '' @ tableName @ '' {'')]"

definition renderBody :: "desiredState \<Rightarrow> reachabilityGuard \<Rightarrow> string list" where
  "renderBody ds guard = (let names = sortedZoneNames (Zones ds) in
     if RedirectOnly ds then writePreroutingChain ds
     else writeTFTPHelper ds names @
          writeInputChain ds guard names @
          writeForwardChain ds names @
          writeOutputChain (Output ds) @
          writePreroutingChain ds @
          writeIngressOutputChain ds @
          writePostroutingChain ds names @
          concat (map (\<lambda>name. writeZoneChain name (zoneOf ds name)) names))"

definition Render :: "desiredState \<Rightarrow> reachabilityGuard \<Rightarrow> string result" where
  "Render ds guard =
     (if \<not> validInterface (TailscaleInterface guard) \<or> \<not> validPort (GuardPort guard)
      then Fail ''nft: invalid reachability guard''
      else bindR (validate ds) (\<lambda>_.
        Inr (concat (renderHead @ renderBody ds guard @ [ln ''}'']))))"

end
