(* ===== verification/Nft_Kernel.thy ===== *)
theory Nft_Kernel
  imports Nft_Render
begin

text \<open>
  The firewall domain's access to the kernel (\<^verbatim>\<open>internal/nft/nft.go\<close>, \<^verbatim>\<open>redirect.go\<close>): reading,
  checking and committing rulesets, the part of a dump that belongs to the daemon, and its
  replay.  The \<^verbatim>\<open>nft\<close> program is a parameter: a command with standard input, run in the
  caller's state.
\<close>

type_synonym 's exec = "string list \<Rightarrow> bytes \<Rightarrow> ('s, bytes) prog"

definition ReadRulesetJSON :: "'s exec \<Rightarrow> ('s, bytes) prog" where
  "ReadRulesetJSON run = remap (\<lambda>_. Error ''nft: list ruleset'')
     (run [''nft'', ''-j'', ''list'', ''ruleset''] NoBytes)"

definition ValidateSyntax :: "'s exec \<Rightarrow> string \<Rightarrow> ('s, unit) prog" where
  "ValidateSyntax run script =
     bindM (remap (\<lambda>_. Error ''nft: ruleset failed validation'')
       (run [''nft'', ''-c'', ''-f'', ''-''] (Text script))) (\<lambda>_. ret ())"

definition Commit :: "'s exec \<Rightarrow> string \<Rightarrow> ('s, unit) prog" where
  "Commit run script =
     bindM (remap (\<lambda>_. Error ''nft: commit failed'')
       (run [''nft'', ''-f'', ''-''] (Text script))) (\<lambda>_. ret ())"

section \<open>Documents\<close>

text \<open>A dump is an object with one array of objects; bodies stay raw.\<close>

definition decRaw :: "json decoder" where
  "decRaw cur j = Inr j"

definition decDump :: "(string \<times> json) list list decoder" where
  "decDump = decObj (\<lambda>kvs d. decField (decList (decMap decRaw JNull) []) ''nftables'' kvs d)"

text \<open>\<^verbatim>\<open>json.Marshal\<close> of a map writes its keys in order.\<close>

definition encMap :: "(string \<times> json) list \<Rightarrow> json" where
  "encMap m = JObj (sort_key fst m)"

definition encDump :: "json list \<Rightarrow> json" where
  "encDump entries = JObj [(''nftables'', JArr entries)]"

record nftObject =
  ObjFamily :: string
  ObjTable :: string
  ObjName :: string

definition decObject :: "nftObject decoder" where
  "decObject = decObj (\<lambda>kvs x.
     bindR (decField decString ''family'' kvs (ObjFamily x)) (\<lambda>f.
     bindR (decField decString ''table'' kvs (ObjTable x)) (\<lambda>t.
     bindR (decField decString ''name'' kvs (ObjName x)) (\<lambda>n.
       Inr \<lparr>ObjFamily = f, ObjTable = t, ObjName = n\<rparr>))))"

definition ownedObject :: "string \<Rightarrow> nftObject \<Rightarrow> bool" where
  "ownedObject kind x = (ObjFamily x = ''inet'' \<and>
     (ObjTable x = tableName \<or> (kind = ''table'' \<and> ObjName x = tableName)))"

text \<open>The loop over the kinds of one entry: the entry is kept once per owned kind.\<close>

fun ownedKinds :: "(string \<times> json) list \<Rightarrow> (string \<times> json) list \<Rightarrow> (string \<times> json) list list result" where
  "ownedKinds entry [] = Inr []"
| "ownedKinds entry ((kind, body) # kvs) =
     bindR (decObject \<lparr>ObjFamily = [], ObjTable = [], ObjName = []\<rparr> body) (\<lambda>x.
     bindR (ownedKinds entry kvs) (\<lambda>es. Inr (if ownedObject kind x then entry # es else es)))"

fun ownedEntries :: "(string \<times> json) list list \<Rightarrow> (string \<times> json) list list result" where
  "ownedEntries [] = Inr []"
| "ownedEntries (e # es) = bindR (ownedKinds e e) (\<lambda>a. bindR (ownedEntries es) (\<lambda>b. Inr (a @ b)))"

definition OwnedRuleset :: "bytes \<Rightarrow> bytes result" where
  "OwnedRuleset raw =
     bindR (unmarshal raw) (\<lambda>j.
     bindR (decDump [] j) (\<lambda>dump.
     bindR (ownedEntries dump) (\<lambda>entries. Inr (Json (encDump (map encMap entries))))))"

section \<open>Replay\<close>

text \<open>A replayed object loses its kernel handle; a \<^verbatim>\<open>null\<close> body is a nil map and stays \<^verbatim>\<open>null\<close>.\<close>

fun cleanEntry :: "(string \<times> json) list \<Rightarrow> (string \<times> json) list result" where
  "cleanEntry [] = Inr []"
| "cleanEntry ((kind, body) # kvs) =
     bindR (decMap decRaw JNull [] body) (\<lambda>obj.
     bindR (cleanEntry kvs) (\<lambda>rest.
       Inr ((kind, if body = JNull then JNull
                   else encMap (filter (\<lambda>(k, _). k \<noteq> ''handle'') obj)) # rest)))"

fun cleanEntries :: "(string \<times> json) list list \<Rightarrow> json list result" where
  "cleanEntries [] = Inr []"
| "cleanEntries (e # es) =
     bindR (cleanEntry e) (\<lambda>c. bindR (cleanEntries es) (\<lambda>cs. Inr (JObj [(''add'', encMap c)] # cs)))"

definition ownTable :: json where
  "ownTable = JObj [(''table'', JObj [(''family'', JStr ''inet''), (''name'', JStr tableName)])]"

definition restoreScript :: "(string \<times> json) list list \<Rightarrow> json result" where
  "restoreScript dump = bindR (cleanEntries dump) (\<lambda>cs.
     Inr (encDump (JObj [(''add'', ownTable)] # JObj [(''delete'', ownTable)] # cs)))"

definition Restore :: "'s exec \<Rightarrow> bytes \<Rightarrow> ('s, unit) prog" where
  "Restore run rulesetJSON =
     (if rulesetJSON = NoBytes then ret ()
      else bindM (remap (\<lambda>_. Error ''nft: invalid snapshot'') (liftR (OwnedRuleset rulesetJSON))) (\<lambda>owned.
           bindM (liftR (bindR (unmarshal owned) (decDump []))) (\<lambda>dump.
           bindM (remap (\<lambda>_. Error ''nft: invalid snapshot'') (liftR (restoreScript dump))) (\<lambda>script.
           bindM (remap (\<lambda>_. Error ''nft: restore failed'')
             (run [''nft'', ''-j'', ''-f'', ''-''] (Json script))) (\<lambda>_. ret ())))))"

section \<open>Redirect-only requests\<close>

record nftChain =
  ChainFamily :: string
  ChainTable :: string
  ChainType :: string

definition decChain :: "nftChain decoder" where
  "decChain = decObj (\<lambda>kvs x.
     bindR (decField decString ''Family'' kvs (ChainFamily x)) (\<lambda>f.
     bindR (decField decString ''Table'' kvs (ChainTable x)) (\<lambda>t.
     bindR (decField decString ''Type'' kvs (ChainType x)) (\<lambda>n.
       Inr \<lparr>ChainFamily = f, ChainTable = t, ChainType = n\<rparr>))))"

definition ValidateRedirectCoexistence :: "bytes \<Rightarrow> unit result" where
  "ValidateRedirectCoexistence raw =
     bindR (unmarshal raw) (\<lambda>j.
     bindR (decDump [] j) (\<lambda>objects.
     eachR (\<lambda>object. case map_of object ''chain'' of
         None \<Rightarrow> Inr ()
       | Some value \<Rightarrow>
           bindR (decChain \<lparr>ChainFamily = [], ChainTable = [], ChainType = []\<rparr> value) (\<lambda>c.
             refuse (ChainFamily c = ''inet'' \<and> ChainTable c = tableName \<and> ChainType c = ''filter'')
               ''nft: redirect-only policy would remove existing ghostd filtering'')) objects))"

end
