(* ===== verification/Go_Path.thy ===== *)
theory Go_Path
  imports Ghost_Prelude
begin

text \<open>
  Functions of \<^verbatim>\<open>path/filepath\<close>, \<^verbatim>\<open>strings\<close> and \<^verbatim>\<open>strconv\<close> used by the network-configuration
  domain: lexical path cleaning, directory and base names, glob patterns, fields of a line.
\<close>

section \<open>Paths\<close>

definition isAbs :: "string \<Rightarrow> bool" where
  "isAbs p = hasPrefix p ''/''"

text \<open>
  \<^verbatim>\<open>filepath.Clean\<close>: empty and dot elements vanish, a double dot removes the element before it;
  at the root it vanishes, at the start of a relative path it stays.
\<close>

fun cleanParts :: "bool \<Rightarrow> string list \<Rightarrow> string list \<Rightarrow> string list" where
  "cleanParts rooted acc [] = rev acc"
| "cleanParts rooted acc (p # ps) =
     (if p = [] \<or> p = ''.'' then cleanParts rooted acc ps
      else if p = ''..'' then
        (case acc of
           [] \<Rightarrow> if rooted then cleanParts rooted [] ps else cleanParts rooted [p] ps
         | a # as \<Rightarrow> if a = ''..'' then cleanParts rooted (p # acc) ps else cleanParts rooted as ps)
      else cleanParts rooted (p # acc) ps)"

definition cleanPath :: "string \<Rightarrow> string" where
  "cleanPath p =
     (let rooted = isAbs p;
          parts = cleanParts rooted [] (splitOn CHR ''/'' p);
          body = joinWith ''/'' parts
      in if rooted then ''/'' @ body else if body = [] then ''.'' else body)"

definition dirPath :: "string \<Rightarrow> string" where
  "dirPath p = cleanPath (rev (dropWhile (\<lambda>c. c \<noteq> CHR ''/'') (rev p)))"

definition basePath :: "string \<Rightarrow> string" where
  "basePath p = (if p = [] then ''.''
     else let s = rev (dropWhile (\<lambda>c. c = CHR ''/'') (rev p))
          in if s = [] then ''/'' else rev (takeWhile (\<lambda>c. c \<noteq> CHR ''/'') (rev s)))"

definition joinPath :: "string \<Rightarrow> string \<Rightarrow> string" where
  "joinPath a b = (if a = [] \<and> b = [] then []
     else if a = [] then cleanPath b else if b = [] then cleanPath a else cleanPath (a @ ''/'' @ b))"

section \<open>Glob patterns\<close>

text \<open>A pattern as tokens; \<open>Class\<close> is a bracket expression, negated or not, of ranges.\<close>

datatype glob = Lit char | AnyOne | Star | Class bool "(char \<times> char) list"

text \<open>One bound of a range: an escaped or plain character, neither a hyphen nor a bracket.\<close>

fun globBound :: "string \<Rightarrow> (char \<times> string) option" where
  "globBound [] = None"
| "globBound (c # cs) =
     (if c = CHR ''-'' \<or> c = CHR '']'' then None
      else if c = CHR 0x5C then (case cs of [] \<Rightarrow> None | d # ds \<Rightarrow> if ds = [] then None else Some (d, ds))
      else if cs = [] then None else Some (c, cs))"

fun globClass :: "nat \<Rightarrow> (char \<times> char) list \<Rightarrow> string \<Rightarrow> ((char \<times> char) list \<times> string) option" where
  "globClass 0 rs s = None"
| "globClass (Suc fuel) rs s =
     (if rs \<noteq> [] \<and> hasPrefix s '']'' then Some (rev rs, tl s)
      else case globBound s of
        None \<Rightarrow> None
      | Some (lo, t) \<Rightarrow>
          if hasPrefix t ''-'' then
            (case globBound (tl t) of
               None \<Rightarrow> None
             | Some (hi, u) \<Rightarrow> globClass fuel ((lo, hi) # rs) u)
          else globClass fuel ((lo, lo) # rs) t)"

fun globTokens :: "nat \<Rightarrow> string \<Rightarrow> glob list option" where
  "globTokens 0 s = (if s = [] then Some [] else None)"
| "globTokens (Suc fuel) [] = Some []"
| "globTokens (Suc fuel) (c # cs) =
     (if c = CHR ''*'' then map_option ((#) Star) (globTokens fuel cs)
      else if c = CHR ''?'' then map_option ((#) AnyOne) (globTokens fuel cs)
      else if c = CHR ''['' then
        (let neg = hasPrefix cs ''^''
         in case globClass (length cs) [] (if neg then tl cs else cs) of
              None \<Rightarrow> None
            | Some (rs, t) \<Rightarrow> map_option ((#) (Class neg rs)) (globTokens fuel t))
      else if c = CHR 0x5C then
        (case cs of [] \<Rightarrow> None | d # ds \<Rightarrow> map_option ((#) (Lit d)) (globTokens fuel ds))
      else map_option ((#) (Lit c)) (globTokens fuel cs))"

fun globMatch :: "glob list \<Rightarrow> string \<Rightarrow> bool" where
  "globMatch [] s = (s = [])"
| "globMatch (Star # ts) [] = globMatch ts []"
| "globMatch (Star # ts) (c # cs) = (globMatch ts (c # cs) \<or> c \<noteq> CHR ''/'' \<and> globMatch (Star # ts) cs)"
| "globMatch (t # ts) [] = False"
| "globMatch (Lit x # ts) (c # cs) = (x = c \<and> globMatch ts cs)"
| "globMatch (AnyOne # ts) (c # cs) = (c \<noteq> CHR ''/'' \<and> globMatch ts cs)"
| "globMatch (Class neg rs # ts) (c # cs) =
     (neg \<noteq> list_ex (\<lambda>(lo, hi). lo \<le> c \<and> c \<le> hi) rs \<and> globMatch ts cs)"

text \<open>\<^verbatim>\<open>filepath.Match\<close>; \<open>None\<close> is \<^verbatim>\<open>ErrBadPattern\<close>.\<close>

definition pathMatch :: "string \<Rightarrow> string \<Rightarrow> bool option" where
  "pathMatch pat name = map_option (\<lambda>ts. globMatch ts name) (globTokens (length pat) pat)"

section \<open>Fields and numbers\<close>

definition isSpace :: "char \<Rightarrow> bool" where
  "isSpace c = (c \<in> {CHR '' '', CHR 0x09, CHR 0x0A, CHR 0x0B, CHR 0x0C, CHR 0x0D})"

fun fieldsAux :: "string \<Rightarrow> string \<Rightarrow> string list" where
  "fieldsAux acc [] = (if acc = [] then [] else [rev acc])"
| "fieldsAux acc (c # cs) =
     (if isSpace c then (if acc = [] then fieldsAux [] cs else rev acc # fieldsAux [] cs)
      else fieldsAux (c # acc) cs)"

definition fieldsOf :: "string \<Rightarrow> string list" where
  "fieldsOf s = fieldsAux [] s"

definition trimSpace :: "string \<Rightarrow> string" where
  "trimSpace s = rev (dropWhile isSpace (rev (dropWhile isSpace s)))"

definition beforeChar :: "char \<Rightarrow> string \<Rightarrow> string" where
  "beforeChar c s = takeWhile (\<lambda>x. x \<noteq> c) s"

text \<open>\<^verbatim>\<open>strconv.Atoi\<close>: an optional sign and digits, within 64 bits.\<close>

fun atoiDigits :: "int \<Rightarrow> string \<Rightarrow> int" where
  "atoiDigits acc [] = acc"
| "atoiDigits acc (c # cs) = atoiDigits (acc * 10 + (of_char c - 48)) cs"

definition atoi :: "string \<Rightarrow> int option" where
  "atoi s =
     (let neg = hasPrefix s ''-'';
          d = (if neg \<or> hasPrefix s ''+'' then tl s else s);
          n = (if neg then - atoiDigits 0 d else atoiDigits 0 d)
      in if d = [] \<or> \<not> list_all isDigit d \<or> n < - (2 ^ 63) \<or> 2 ^ 63 \<le> n then None else Some n)"

lemmas path_defs [go_defs] =
  isAbs_def cleanPath_def dirPath_def basePath_def joinPath_def pathMatch_def isSpace_def
  fieldsOf_def trimSpace_def beforeChar_def atoi_def

end
