(* ===== verification/Go_Sha256.thy ===== *)
theory Go_Sha256
  imports Go_Netip
begin

text \<open>
  The hash of \<^verbatim>\<open>crypto/sha256\<close> (FIPS 180-4), which derives device identifiers and guards the
  adoption of network files.  Bytes are 8-bit words; a string is hashed by its bytes.
\<close>

unbundle bit_operations_syntax

type_synonym u32 = "32 word"

definition shaK :: "u32 list" where
  "shaK = [
     0x428A2F98, 0x71374491, 0xB5C0FBCF, 0xE9B5DBA5, 0x3956C25B, 0x59F111F1,
     0x923F82A4, 0xAB1C5ED5, 0xD807AA98, 0x12835B01, 0x243185BE, 0x550C7DC3,
     0x72BE5D74, 0x80DEB1FE, 0x9BDC06A7, 0xC19BF174, 0xE49B69C1, 0xEFBE4786,
     0x0FC19DC6, 0x240CA1CC, 0x2DE92C6F, 0x4A7484AA, 0x5CB0A9DC, 0x76F988DA,
     0x983E5152, 0xA831C66D, 0xB00327C8, 0xBF597FC7, 0xC6E00BF3, 0xD5A79147,
     0x06CA6351, 0x14292967, 0x27B70A85, 0x2E1B2138, 0x4D2C6DFC, 0x53380D13,
     0x650A7354, 0x766A0ABB, 0x81C2C92E, 0x92722C85, 0xA2BFE8A1, 0xA81A664B,
     0xC24B8B70, 0xC76C51A3, 0xD192E819, 0xD6990624, 0xF40E3585, 0x106AA070,
     0x19A4C116, 0x1E376C08, 0x2748774C, 0x34B0BCB5, 0x391C0CB3, 0x4ED8AA4A,
     0x5B9CCA4F, 0x682E6FF3, 0x748F82EE, 0x78A5636F, 0x84C87814, 0x8CC70208,
     0x90BEFFFA, 0xA4506CEB, 0xBEF9A3F7, 0xC67178F2]"

definition shaH0 :: "u32 list" where
  "shaH0 = [
     0x6A09E667, 0xBB67AE85, 0x3C6EF372, 0xA54FF53A, 0x510E527F, 0x9B05688C,
     0x1F83D9AB, 0x5BE0CD19]"

definition rotr :: "nat \<Rightarrow> u32 \<Rightarrow> u32" where
  "rotr n x = (drop_bit n x) OR (push_bit (32 - n) x)"

definition packWord :: "nat list \<Rightarrow> u32" where
  "packWord bs = of_nat (foldl (\<lambda>a b. a * 256 + b) 0 bs)"

fun chunks :: "nat \<Rightarrow> nat \<Rightarrow> 'a list \<Rightarrow> 'a list list" where
  "chunks 0 n xs = []"
| "chunks (Suc k) n xs = take n xs # chunks k n (drop n xs)"

text \<open>Padding to a multiple of 64 bytes with the length in bits.\<close>

definition beBytes :: "nat \<Rightarrow> nat \<Rightarrow> nat list" where
  "beBytes k n = map (\<lambda>i. n div 256 ^ (k - 1 - i) mod 256) [0..<k]"

definition shaPad :: "nat list \<Rightarrow> nat list" where
  "shaPad bs = (let l = length bs; z = (119 - l mod 64) mod 64
                in bs @ 128 # replicate z 0 @ beBytes 8 (8 * l))"

text \<open>The message schedule, newest word first, extended to 64 words.\<close>

fun schedule :: "nat \<Rightarrow> u32 list \<Rightarrow> u32 list" where
  "schedule 0 ws = ws"
| "schedule (Suc k) ws =
     (let a = ws ! 14; b = ws ! 1;
          s0 = rotr 7 a XOR rotr 18 a XOR drop_bit 3 a;
          s1 = rotr 17 b XOR rotr 19 b XOR drop_bit 10 b
      in schedule k ((ws ! 15 + s0 + ws ! 6 + s1) # ws))"

fun shaRounds :: "(u32 \<times> u32) list \<Rightarrow> u32 list \<Rightarrow> u32 list" where
  "shaRounds ((k, w) # kws) [a, b, c, d, e, f, g, h] =
     (let s1 = rotr 6 e XOR rotr 11 e XOR rotr 25 e;
          ch = (e AND f) XOR (NOT e AND g);
          t1 = h + s1 + ch + k + w;
          s0 = rotr 2 a XOR rotr 13 a XOR rotr 22 a;
          maj = (a AND b) XOR (a AND c) XOR (b AND c)
      in shaRounds kws [t1 + s0 + maj, a, b, c, d + t1, e, f, g])"
| "shaRounds _ st = st"

definition shaBlock :: "u32 list \<Rightarrow> nat list \<Rightarrow> u32 list" where
  "shaBlock h block =
     (let ws = rev (schedule 48 (rev (map packWord (chunks 16 4 block))))
      in map2 (+) h (shaRounds (zip shaK ws) h))"

definition sha256 :: "nat list \<Rightarrow> nat list" where
  "sha256 bs = (let p = shaPad bs
     in concat (map (\<lambda>w. beBytes 4 (unat w)) (foldl shaBlock shaH0 (chunks (length p div 64) 64 p))))"

definition strBytes :: "string \<Rightarrow> nat list" where
  "strBytes s = map of_char s"

definition hexString :: "nat list \<Rightarrow> string" where
  "hexString bs = concat (map (\<lambda>b. [hexDigit (b div 16), hexDigit (b mod 16)]) bs)"

definition sha256Hex :: "string \<Rightarrow> string" where
  "sha256Hex s = hexString (sha256 (strBytes s))"

text \<open>The digest always has 64 lower-case hexadecimal characters.\<close>

lemma length_shaRounds [simp]: "length h = 8 \<Longrightarrow> length (shaRounds kws h) = 8"
  by (induction kws h rule: shaRounds.induct) (auto simp: Let_def)

lemma length_foldl_shaBlock: "length h = 8 \<Longrightarrow> length (foldl shaBlock h bs) = 8"
  by (induction bs arbitrary: h) (auto simp: shaBlock_def Let_def)

lemma length_beBytes [simp]: "length (beBytes k n) = k"
  by (simp add: beBytes_def)

lemma length_sha256 [simp]: "length (sha256 bs) = 32"
proof -
  have "length (concat (map (\<lambda>w. beBytes 4 (unat w)) ws)) = 4 * length ws" for ws :: "u32 list"
    by (induction ws) auto
  then show ?thesis
    unfolding sha256_def Let_def using length_foldl_shaBlock [of shaH0] by (simp add: shaH0_def)
qed

lemma length_hexString [simp]: "length (hexString bs) = 2 * length bs"
  by (induction bs) (auto simp: hexString_def)

lemma length_sha256Hex [simp]: "length (sha256Hex s) = 64"
  by (simp add: sha256Hex_def)

end
