(* ===== verification/Netconfig.thy ===== *)
theory Netconfig
  imports Nft_Policy Nft_Kernel Go_Path Go_Sha256
begin

text \<open>
  The network-configuration domain (\<^verbatim>\<open>internal/netconfig\<close>): validation of a desired state, its
  execution as files and additive actions, the snapshot taken before it and the rollback.
  The machine has its files, its kernel state \<open>'n\<close> (reached through the runner parameter) and
  the list of failures the file system will produce.
\<close>

text \<open>
  What can go wrong while a file is replaced: an error before the rename, the death of the
  process before it or after it.  The temporary file survives a death, and an error when its
  removal fails too; the fault says under which name and with how much of the content.
\<close>

datatype writeFault =
    WOk | WFails "(string \<times> string) option" | WDies "(string \<times> string) option" | WDiesAfter

record 'n machine =
  etc :: "(string \<times> string) list"
  netk :: 'n
  readFaults :: "bool list"
  writeFaults :: "writeFault list"
  ctxFaults :: "bool list"

record netDesired =
  ExpectedFilesSHA256 :: "(string \<times> string) list"
  Files :: "(string \<times> string) list"
  Actions :: "string list list"

record undo =
  AddedRoutes :: "string list list"
  UFiles :: "(string \<times> string option) list"
  UIPForward :: string

definition InterfacesDir :: string where
  "InterfacesDir = ''/etc/network/interfaces.d''"

definition interfacesMain :: string where
  "interfacesMain = ''/etc/network/interfaces''"

definition forwardingFiles :: "string list" where
  "forwardingFiles = [''/etc/sysctl.d/99-stack-forward.conf'', ''/etc/sysctl.d/99-stack-no-forward.conf'']"

section \<open>Decoding\<close>

definition decNet :: "netDesired decoder" where
  "decNet = decObj (\<lambda>kvs d.
     bindR (decField (decMap decString []) ''expected_files_sha256'' kvs (ExpectedFilesSHA256 d)) (\<lambda>e.
     bindR (decField (decMap decString []) ''files'' kvs (Files d)) (\<lambda>f.
     bindR (decField (decList (decList decString []) []) ''actions'' kvs (Actions d)) (\<lambda>a.
       Inr \<lparr>ExpectedFilesSHA256 = e, Files = f, Actions = a\<rparr>))))"

definition ParseNetState :: "bytes \<Rightarrow> netDesired result" where
  "ParseNetState raw =
     bindR (unmarshal raw) (decNet \<lparr>ExpectedFilesSHA256 = [], Files = [], Actions = []\<rparr>)"

section \<open>Validation\<close>

definition knownActions :: "(string \<times> nat) list" where
  "knownActions = [(''default-route'', 3), (''vlan'', 3), (''addr'', 2), (''sysctl'', 1),
     (''forward'', 1), (''up'', 1)]"

definition routeDevice :: "string \<Rightarrow> bool" where
  "routeDevice s = (1 \<le> length s \<and> length s \<le> 15 \<and>
     list_all (\<lambda>c. isLowerLetter c \<or> isUpperLetter c \<or> isDigit c \<or> c \<in> set ''_.:-'') s)"

definition validateDefaultRoute :: "string list \<Rightarrow> unit result" where
  "validateDefaultRoute action =
     bindR (refuse (length action \<noteq> 4 \<or> \<not> routeDevice (action ! 1) \<or> action ! 1 = ''.'' \<or> action ! 1 = ''..'')
       ''invalid default route device'') (\<lambda>_.
     bindR (refuse (case ParseAddr (action ! 2) of
         None \<Rightarrow> True | Some ip \<Rightarrow> \<not> Is4 ip \<or> IsUnspecified ip \<or> IsMulticast ip)
       ''default route requires an IPv4 unicast gateway'') (\<lambda>_.
       refuse (action ! 3 \<noteq> ''onlink'' \<and> action ! 3 \<noteq> ''offlink'') ''invalid default route onlink flag''))"

definition netGet :: "(string \<times> string) list \<Rightarrow> string \<Rightarrow> string" where
  "netGet m k = (case map_of m k of None \<Rightarrow> [] | Some v \<Rightarrow> v)"

definition validateExpected :: "netDesired \<Rightarrow> string \<times> string \<Rightarrow> unit result" where
  "validateExpected ds pd = (case pd of (path, digest) \<Rightarrow>
     bindR (refuse (path \<noteq> interfacesMain \<or> length digest \<noteq> 64) ''invalid network file precondition'') (\<lambda>_.
     bindR (refuse (\<not> list_all isHexLower digest) ''invalid network file digest'') (\<lambda>_.
       refuse (map_of (Files ds) path = None) ''precondition without desired file'')))"

definition validateFile :: "netDesired \<Rightarrow> string \<times> string \<Rightarrow> unit result" where
  "validateFile ds pc = (case pc of (path, content) \<Rightarrow>
     if path = interfacesMain
     then refuse (netGet (ExpectedFilesSHA256 ds) path = [])
            ''main ifupdown file requires explicit adoption precondition''
     else if path \<in> set forwardingFiles
     then refuse (content \<noteq> [] \<and> content \<noteq> ''net.ipv4.ip_forward=0'' @ [CHR 0x0A] \<and>
            content \<noteq> ''net.ipv4.ip_forward=1'' @ [CHR 0x0A]) ''netconfig: invalid forwarding file''
     else let clean = cleanPath path
          in refuse (clean \<noteq> path \<or> \<not> hasPrefix clean (InterfacesDir @ ''/''))
               ''netconfig: refusing to write: not inside interfaces.d'')"

definition validateAction :: "string list \<Rightarrow> unit result" where
  "validateAction action = (case action of
       [] \<Rightarrow> Fail ''netconfig: empty action''
     | kind # args \<Rightarrow> (case map_of knownActions kind of
         None \<Rightarrow> Fail ''netconfig: unrecognized action kind''
       | Some want \<Rightarrow>
           bindR (refuse (length args \<noteq> want) ''netconfig: wrong number of arguments'') (\<lambda>_.
           bindR (if kind = ''default-route'' then validateDefaultRoute action else Inr ()) (\<lambda>_.
           bindR (refuse (kind = ''sysctl'' \<and> action ! 1 \<noteq> ''net.ipv4.ip_forward=0'' \<and>
               action ! 1 \<noteq> ''net.ipv4.ip_forward=1'') ''netconfig: only IPv4 forwarding sysctl is supported'') (\<lambda>_.
             refuse (kind = ''forward'' \<and> action ! 1 \<noteq> ''/etc/stack-forward.sh'')
               ''netconfig: unknown forwarding script'')))))"

text \<open>The device and address of every \<^verbatim>\<open>addr\<close> action, under the bare address.\<close>

definition addrClaims :: "string list list \<Rightarrow> (string \<times> string \<times> string) list" where
  "addrClaims actions = map (\<lambda>a. (beforeChar CHR ''/'' (a ! 2), a ! 1, a ! 2))
     (filter (\<lambda>a. hd a = ''addr'') actions)"

definition validateNoConflictingAddresses :: "string list list \<Rightarrow> unit result" where
  "validateNoConflictingAddresses actions =
     (let claims = addrClaims actions
      in refuse (list_ex (\<lambda>(bare, dev, ip). list_ex (\<lambda>(bare', dev', ip').
             bare' = bare \<and> dev' @ '' ('' @ ip' @ '')'' \<noteq> dev @ '' ('' @ ip @ '')'') claims) claims)
           ''netconfig: address is declared more than once with conflicting assignments'')"

definition NetValidate :: "netDesired \<Rightarrow> unit result" where
  "NetValidate ds =
     bindR (eachR (validateExpected ds) (ExpectedFilesSHA256 ds)) (\<lambda>_.
     bindR (eachR (validateFile ds) (Files ds)) (\<lambda>_.
     bindR (eachR validateAction (Actions ds)) (\<lambda>_.
       validateNoConflictingAddresses (Actions ds))))"

section \<open>Files\<close>

definition popFault :: "bool list \<Rightarrow> bool" where
  "popFault fs = (case fs of True # _ \<Rightarrow> True | _ \<Rightarrow> False)"

text \<open>\<^verbatim>\<open>os.ReadFile\<close>: \<open>None\<close> is \<^verbatim>\<open>os.IsNotExist\<close>.\<close>

definition readFile :: "string \<Rightarrow> ('n machine, string option) prog" where
  "readFile path m = (let m' = m\<lparr>readFaults := tl (readFaults m)\<rparr> in
     if popFault (readFaults m) then (Err (Error ''read''), m') else (Done (map_of (etc m) path), m'))"

text \<open>
  \<^verbatim>\<open>writeFile\<close> stages a temporary file beside the target, syncs it and renames it over the
  target.  The directories of \<^verbatim>\<open>MkdirAll\<close> are implicit in the paths.
\<close>

definition leave :: "string \<Rightarrow> (string \<times> string) option \<Rightarrow> 'n machine \<Rightarrow> 'n machine" where
  "leave path left m = (case left of None \<Rightarrow> m
     | Some (suffix, part) \<Rightarrow>
         m\<lparr>etc := assocPut (dirPath path @ ''/.stack-network-'' @ suffix) part (etc m)\<rparr>)"

definition headFault :: "writeFault list \<Rightarrow> writeFault" where
  "headFault fs = (case fs of [] \<Rightarrow> WOk | f # _ \<Rightarrow> f)"

definition writeFile :: "string \<Rightarrow> string \<Rightarrow> ('n machine, unit) prog" where
  "writeFile path content m =
     (let m' = m\<lparr>writeFaults := tl (writeFaults m)\<rparr>;
          written = m'\<lparr>etc := assocPut path content (etc m)\<rparr>
      in case headFault (writeFaults m) of
           WOk \<Rightarrow> (Done (), written)
         | WFails left \<Rightarrow> (Err (Error ''netconfig: write''), leave path left m')
         | WDies left \<Rightarrow> (Died, leave path left m')
         | WDiesAfter \<Rightarrow> (Died, written))"

text \<open>\<^verbatim>\<open>os.Remove\<close>, where the absence of the file is not an error.\<close>

definition removeFile :: "string \<Rightarrow> ('n machine, unit) prog" where
  "removeFile path m =
     (let m' = m\<lparr>writeFaults := tl (writeFaults m)\<rparr>;
          removed = m'\<lparr>etc := filter (\<lambda>(p, _). p \<noteq> path) (etc m)\<rparr>
      in case headFault (writeFaults m) of
           WOk \<Rightarrow> (Done (), removed)
         | WFails _ \<Rightarrow> (Err (Error ''remove''), m')
         | WDies _ \<Rightarrow> (Died, m')
         | WDiesAfter \<Rightarrow> (Died, removed))"

definition ctxErr :: "('n machine, unit) prog" where
  "ctxErr m = (let m' = m\<lparr>ctxFaults := tl (ctxFaults m)\<rparr> in
     if popFault (ctxFaults m) then (Err (Error ''context done''), m') else (Done (), m'))"

definition runNet :: "'n runner \<Rightarrow> string list \<Rightarrow> ('n machine, bytes) prog" where
  "runNet r argv m = (case r argv NoBytes (netk m) of
       (Replied b, k) \<Rightarrow> (Done b, m\<lparr>netk := k\<rparr>)
     | (Refused e, k) \<Rightarrow> (Err e, m\<lparr>netk := k\<rparr>)
     | (Killed, k) \<Rightarrow> (Died, m\<lparr>netk := k\<rparr>))"

definition sortedKeys :: "(string \<times> 'v) list \<Rightarrow> string list" where
  "sortedKeys m = sort (map fst m)"

definition checkFilePreconditions :: "netDesired \<Rightarrow> ('n machine, unit) prog" where
  "checkFilePreconditions ds = eachM (\<lambda>(path, digest).
     bindM (readFile path) (\<lambda>r. case r of
         None \<Rightarrow> raise (Error ''cannot read adoption precondition'')
       | Some raw \<Rightarrow>
           if raw = netGet (Files ds) path then ret ()
           else if sha256Hex raw \<noteq> digest then raise (Error ''file changed since observation; refusing adoption'')
           else ret ())) (ExpectedFilesSHA256 ds)"

text \<open>The forwarding files and every plain file directly inside \<^verbatim>\<open>interfaces.d\<close>.\<close>

definition directChild :: "string \<Rightarrow> bool" where
  "directChild p = (hasPrefix p (InterfacesDir @ ''/'') \<and>
     drop (length InterfacesDir + 1) p \<noteq> [] \<and> CHR ''/'' \<notin> set (drop (length InterfacesDir + 1) p))"

definition readKnown :: "(string \<times> string) list \<Rightarrow> string \<Rightarrow> ('n machine, (string \<times> string) list) prog" where
  "readKnown files path = bindM (readFile path) (\<lambda>r. case r of
       None \<Rightarrow> ret files | Some content \<Rightarrow> ret (assocPut path content files))"

definition readEntry :: "(string \<times> string) list \<Rightarrow> string \<Rightarrow> ('n machine, (string \<times> string) list) prog" where
  "readEntry files path = bindM (remap (\<lambda>_. Error ''netconfig: read'') (readFile path)) (\<lambda>r. case r of
       None \<Rightarrow> raise (Error ''netconfig: read'') | Some content \<Rightarrow> ret (assocPut path content files))"

definition readDir :: "('n machine, string list) prog" where
  "readDir m = (let m' = m\<lparr>readFaults := tl (readFaults m)\<rparr> in
     if popFault (readFaults m) then (Err (Error ''netconfig: read''), m')
     else (Done (sort (filter directChild (map fst (etc m)))), m'))"

definition readInterfacesFiles :: "('n machine, (string \<times> string) list) prog" where
  "readInterfacesFiles =
     bindM (foldM readKnown [] forwardingFiles) (\<lambda>files.
     bindM readDir (\<lambda>entries. foldM readEntry files entries))"

section \<open>The boot include tree\<close>

record visited =
  reached :: "string list"
  claims :: "(string \<times> string) list"

definition lineWords :: "string \<Rightarrow> string list" where
  "lineWords line = fieldsOf (beforeChar CHR ''#'' line)"

definition directoryName :: "string \<Rightarrow> bool" where
  "directoryName s = (s \<noteq> [] \<and>
     list_all (\<lambda>c. isLowerLetter c \<or> isUpperLetter c \<or> isDigit c \<or> c = CHR ''_'' \<or> c = CHR ''-'') s)"

text \<open>Does an include pattern select a captured file?  \<open>Inl\<close> for a malformed pattern.\<close>

definition included :: "bool \<Rightarrow> string \<Rightarrow> string \<Rightarrow> bool result" where
  "included isDir pattern p =
     (if isDir \<and> \<not> directoryName (basePath p) then Inr False
      else case pathMatch pattern (if isDir then dirPath p else p) of
        None \<Rightarrow> Fail ''invalid ifupdown include''
      | Some b \<Rightarrow> Inr b)"

text \<open>
  \<^verbatim>\<open>visit\<close> of the boot include tree: the files on the current include path (\<open>active\<close>), what was
  reached and claimed so far.  Each nested visit enters a file of the tree that is not active,
  so the number of files bounds the depth.
\<close>

fun visit :: "nat \<Rightarrow> (string \<times> string) list \<Rightarrow> string list \<Rightarrow> string \<Rightarrow> visited \<Rightarrow> visited result" where
  "visit 0 files active path v = Fail ''out of fuel''"
| "visit (Suc fuel) files active path v =
     (if path \<in> set active then Fail ''ifupdown include cycle''
      else case map_of files path of
        None \<Rightarrow> Fail ''ifupdown file was not captured''
      | Some content \<Rightarrow>
          foldR (\<lambda>v line. let words = lineWords line in
              if words = [] then Inr v
              else bindR (if words ! 0 = ''iface'' \<and> 4 \<le> length words then
                     (let key = words ! 1 @ '' '' @ words ! 2 in
                      if map_of (claims v) key \<noteq> None then Fail ''duplicate ifupdown definition''
                      else Inr (v\<lparr>claims := (key, path) # claims v\<rparr>))
                   else Inr v) (\<lambda>v.
                if words ! 0 \<noteq> ''source'' \<and> words ! 0 \<noteq> ''source-directory'' then Inr v
                else foldR (\<lambda>v pat0.
                  let pattern = (if isAbs pat0 then pat0 else joinPath (dirPath path) pat0);
                      isDir = (words ! 0 = ''source-directory'');
                      includeDir = (if isDir then pattern else dirPath pattern)
                  in if includeDir \<noteq> InterfacesDir then Fail ''ifupdown include directory is not fully captured''
                     else bindR (foldR (\<lambda>(found, v) p.
                              bindR (included isDir pattern p) (\<lambda>match.
                                if match
                                then bindR (visit fuel files (path # active) p v) (\<lambda>v. Inr (True, v))
                                else Inr (found, v)))
                            (False, v) (sortedKeys files)) (\<lambda>(found, v).
                            if \<not> isDir \<and> \<not> found \<and> \<not> containsAny pattern ''*?[''
                            then Fail ''ifupdown include not captured'' else Inr v))
                  v (tl words)))
            (v\<lparr>reached := List.insert path (reached v)\<rparr>) (splitOn (CHR 0x0A) content))"

definition mergeFiles :: "(string \<times> string) list \<Rightarrow> (string \<times> string) list \<Rightarrow> (string \<times> string) list" where
  "mergeFiles current desired = fold (\<lambda>(p, s) m. assocPut p s m) desired current"

definition checkIfupdownFiles :: "(string \<times> string) list \<Rightarrow> (string \<times> string) list \<Rightarrow> unit result" where
  "checkIfupdownFiles current desired =
     (let generated = filter (\<lambda>p. hasPrefix p (InterfacesDir @ ''/'')) (map fst desired);
          files = mergeFiles current desired
      in if generated = [] then Inr ()
         else bindR (visit (Suc (length files)) files [] interfacesMain \<lparr>reached = [], claims = []\<rparr>) (\<lambda>v.
           eachR (\<lambda>p.
             bindR (refuse (p \<in> set generated \<and> p \<notin> set (reached v))
               ''generated interface file is not loaded at boot'') (\<lambda>_.
             eachR (\<lambda>line. let words = lineWords line in
                 refuse (4 \<le> length words \<and> words ! 0 = ''iface'' \<and>
                     netGet (claims v) (words ! 1 @ '' '' @ words ! 2) = [])
                   ''write would remove boot configuration'')
               (splitOn (CHR 0x0A) (netGet current p))))
             (sortedKeys desired)))"

definition checkIfupdown :: "netDesired \<Rightarrow> ('n machine, unit) prog" where
  "checkIfupdown ds =
     (if list_ex (\<lambda>(p, _). hasPrefix p (InterfacesDir @ ''/'')) (Files ds)
      then bindM readInterfacesFiles (\<lambda>current.
           bindM (readFile interfacesMain) (\<lambda>r. case r of
               None \<Rightarrow> raise (Error ''read boot network configuration'')
             | Some main \<Rightarrow> liftR (checkIfupdownFiles (assocPut interfacesMain main current) (Files ds))))
      else ret ())"

section \<open>Default routes\<close>

definition anyAt :: "(string \<times> json) list \<Rightarrow> string \<Rightarrow> json" where
  "anyAt r k = (case map_of r k of None \<Rightarrow> JNull | Some j \<Rightarrow> j)"

definition routeKeys :: "string list" where
  "routeKeys = [''dst'', ''gateway'', ''dev'', ''flags'', ''protocol'', ''scope'', ''type'', ''table'', ''metric'']"

text \<open>The judgement on the observed default routes: does the route exist, does the daemon own it.\<close>

definition decRoutes :: "bytes \<Rightarrow> (string \<times> json) list list result" where
  "decRoutes raw = (case unmarshal raw of
       Inr (JArr rs) \<Rightarrow> (case decAll (decMap decRaw JNull) [] rs of
           Inr routes \<Rightarrow> Inr routes
         | Inl _ \<Rightarrow> Fail ''default route observation invalid'')
     | _ \<Rightarrow> Fail ''default route observation invalid'')"

definition judgeRoute :: "string list \<Rightarrow> (string \<times> json) list \<Rightarrow> (bool \<times> bool) result" where
  "judgeRoute action r =
     bindR (refuse (\<not> list_all (\<lambda>(k, _). k \<in> set routeKeys) r) ''unsupported default route attribute'') (\<lambda>_.
     let flags = (case anyAt r ''flags'' of JArr fs \<Rightarrow> fs | _ \<Rightarrow> []) in
     bindR (refuse (\<not> list_all (\<lambda>f. f = JStr ''onlink'') flags) ''unsupported route flag'') (\<lambda>_.
     let onlink = (flags \<noteq> []) in
     bindR (refuse (anyAt r ''dst'' \<noteq> JStr ''default'' \<or> anyAt r ''gateway'' \<noteq> JStr (action ! 2) \<or>
         anyAt r ''dev'' \<noteq> JStr (action ! 1) \<or> onlink \<noteq> (action ! 3 = ''onlink'') \<or>
         (anyAt r ''metric'' \<noteq> JNull \<and> anyAt r ''metric'' \<noteq> JNum 0) \<or>
         (anyAt r ''type'' \<noteq> JNull \<and> anyAt r ''type'' \<noteq> JStr ''unicast''))
       ''existing default route conflicts; refusing replacement'') (\<lambda>_.
       Inr (True, anyAt r ''protocol'' = JNum 242 \<or> anyAt r ''protocol'' = JStr ''242''))))"

definition judgeRoutes :: "string list \<Rightarrow> bytes \<Rightarrow> (bool \<times> bool) result" where
  "judgeRoutes action raw = bindR (decRoutes raw) (\<lambda>routes. case routes of
       [] \<Rightarrow> Inr (False, False)
     | [r] \<Rightarrow> judgeRoute action r
     | _ \<Rightarrow> Fail ''multiple default routes require explicit migration'')"

definition routeState :: "'n runner \<Rightarrow> string list \<Rightarrow> ('n machine, bool \<times> bool) prog" where
  "routeState r action =
     bindM (runNet r [''ip'', ''-j'', ''-4'', ''route'', ''show'', ''table'', ''main'', ''default'']) (\<lambda>raw.
       liftR (judgeRoutes action raw))"

definition routeArgs :: "string \<Rightarrow> string list \<Rightarrow> string list" where
  "routeArgs verb action =
     [''-4'', ''route'', verb, ''default'', ''via'', action ! 2, ''dev'', action ! 1, ''proto'', ''242''] @
     (if action ! 3 = ''onlink'' then [''onlink''] else [])"

definition ensureDefaultRoute :: "'n runner \<Rightarrow> string list \<Rightarrow> ('n machine, unit) prog" where
  "ensureDefaultRoute r action =
     bindM (routeState r action) (\<lambda>(exists, _).
       if exists then ret ()
       else bindM (attempt (runNet r (''ip'' # routeArgs ''add'' action))) (\<lambda>res. case res of
           Inr _ \<Rightarrow> ret ()
         | Inl e \<Rightarrow> bindM (attempt (routeState r action)) (\<lambda>check. case check of
             Inr (True, _) \<Rightarrow> ret ()
           | _ \<Rightarrow> raise e)))"

section \<open>Execution\<close>

record ipLink =
  LinkName :: string
  LinkIndex :: int
  LinkParent :: int
  LinkLink :: string
  LinkKind :: string
  LinkID :: int

definition decLink :: "ipLink decoder" where
  "decLink = decObj (\<lambda>kvs x.
     bindR (decField decString ''ifname'' kvs (LinkName x)) (\<lambda>n.
     bindR (decField decInt ''ifindex'' kvs (LinkIndex x)) (\<lambda>i.
     bindR (decField decInt ''link_index'' kvs (LinkParent x)) (\<lambda>p.
     bindR (decField decString ''link'' kvs (LinkLink x)) (\<lambda>l.
     bindR (decField (decObj (\<lambda>info (k, d).
         bindR (decField decString ''info_kind'' info k) (\<lambda>k.
         bindR (decField (decObj (\<lambda>data v. decField decInt ''id'' data v)) ''info_data'' info d) (\<lambda>d.
           Inr (k, d))))) ''linkinfo'' kvs (LinkKind x, LinkID x)) (\<lambda>(k, d).
       Inr \<lparr>LinkName = n, LinkIndex = i, LinkParent = p, LinkLink = l, LinkKind = k, LinkID = d\<rparr>))))))"

definition noLink :: ipLink where
  "noLink = \<lparr>LinkName = [], LinkIndex = 0, LinkParent = 0, LinkLink = [], LinkKind = [], LinkID = 0\<rparr>"

definition matchVLAN :: "ipLink list \<Rightarrow> string \<Rightarrow> string \<Rightarrow> int \<Rightarrow> bool" where
  "matchVLAN links base dev vid =
     (let parent = fold (\<lambda>l p. if LinkName l = base then LinkIndex l else p) links 0
      in list_ex (\<lambda>l. LinkName l = dev \<and> parent \<noteq> 0 \<and>
           (LinkParent l = parent \<or> (LinkParent l = 0 \<and> LinkLink l = base)) \<and>
           LinkKind l = ''vlan'' \<and> LinkID l = vid) links)"

definition checkVLAN :: "'n runner \<Rightarrow> string \<Rightarrow> string \<Rightarrow> string \<Rightarrow> ('n machine, unit) prog" where
  "checkVLAN r base dev vlanID =
     bindM (runNet r [''ip'', ''-j'', ''-d'', ''link'', ''show'']) (\<lambda>out.
     bindM (liftR (bindR (unmarshal out) (decList decLink noLink []))) (\<lambda>links.
       case atoi vlanID of
         None \<Rightarrow> raise (Error ''strconv.Atoi'')
       | Some vid \<Rightarrow> if matchVLAN links base dev vid then ret ()
                     else raise (Error ''existing link does not match VLAN'')))"

record ipIface =
  IfName :: string
  AddrInfo :: "(string \<times> int) list"

definition decIface :: "ipIface decoder" where
  "decIface = decObj (\<lambda>kvs x.
     bindR (decField decString ''ifname'' kvs (IfName x)) (\<lambda>n.
     bindR (decField (decList (decObj (\<lambda>info (l, p).
         bindR (decField decString ''local'' info l) (\<lambda>l.
         bindR (decField decInt ''prefixlen'' info p) (\<lambda>p. Inr (l, p))))) ([], 0)) ''addr_info'' kvs (AddrInfo x)) (\<lambda>a.
       Inr \<lparr>IfName = n, AddrInfo = a\<rparr>)))"

definition addrsAt :: "(string \<times> string list) list \<Rightarrow> string \<Rightarrow> string list" where
  "addrsAt m k = (case map_of m k of None \<Rightarrow> [] | Some v \<Rightarrow> v)"

definition addIface :: "ipIface \<Rightarrow> (string \<times> string list) list \<Rightarrow> (string \<times> string list) list" where
  "addIface x addrs =
     (if IfName x = [] then addrs
      else assocPut (IfName x) (addrsAt addrs (IfName x) @
             map (\<lambda>(l, p). l @ ''/'' @ itoa p) (filter (\<lambda>(l, _). l \<noteq> []) (AddrInfo x))) addrs)"

definition readAddrs :: "'n runner \<Rightarrow> ('n machine, (string \<times> string list) list) prog" where
  "readAddrs r =
     bindM (remap (\<lambda>_. Error ''netconfig: ip -j addr show'') (runNet r [''ip'', ''-j'', ''addr'', ''show''])) (\<lambda>out.
     bindM (remap (\<lambda>_. Error ''netconfig: parse ip -j addr show'')
       (liftR (bindR (unmarshal out) (decList decIface \<lparr>IfName = [], AddrInfo = []\<rparr> [])))) (\<lambda>ifaces.
       ret (fold addIface ifaces [])))"

definition samePrefix :: "string \<Rightarrow> string \<Rightarrow> bool" where
  "samePrefix address wanted = (ParsePrefix wanted \<noteq> None \<and> ParsePrefix address = ParsePrefix wanted)"

definition runCmd :: "'n runner \<Rightarrow> string \<Rightarrow> string list \<Rightarrow> ('n machine, unit) prog" where
  "runCmd r msg argv = bindM (remap (\<lambda>_. Error msg) (runNet r argv)) (\<lambda>_. ret ())"

definition applyAction :: "'n runner \<Rightarrow> string list \<Rightarrow> ('n machine, unit) prog" where
  "applyAction r action =
     (if action ! 0 = ''default-route'' then ensureDefaultRoute r action
      else if action ! 0 = ''vlan'' then
        bindM (attempt (runNet r [''ip'', ''link'', ''add'', ''link'', action ! 1, ''name'', action ! 2,
            ''type'', ''vlan'', ''id'', action ! 3])) (\<lambda>res. case res of
          Inr _ \<Rightarrow> ret ()
        | Inl _ \<Rightarrow> remap (\<lambda>_. Error ''netconfig: create vlan'')
            (checkVLAN r (action ! 1) (action ! 2) (action ! 3)))
      else if action ! 0 = ''addr'' then
        bindM (attempt (runNet r [''ip'', ''addr'', ''add'', action ! 2, ''dev'', action ! 1])) (\<lambda>res. case res of
          Inr _ \<Rightarrow> ret ()
        | Inl _ \<Rightarrow> bindM (attempt (readAddrs r)) (\<lambda>chk. case chk of
            Inl _ \<Rightarrow> raise (Error ''netconfig: add address'')
          | Inr addrs \<Rightarrow>
              if list_ex (\<lambda>a. samePrefix a (action ! 2)) (addrsAt addrs (action ! 1)) then ret ()
              else raise (Error ''netconfig: add address'')))
      else if action ! 0 = ''sysctl'' then
        runCmd r ''netconfig: sysctl -w'' [''sysctl'', ''-q'', ''-w'', action ! 1]
      else if action ! 0 = ''forward'' then
        bindM (runCmd r ''netconfig: apply forwarding script'' [''sh'', action ! 1]) (\<lambda>_.
          runCmd r ''netconfig: sysctl -w'' [''sysctl'', ''-q'', ''-w'', ''net.ipv4.ip_forward=1''])
      else if action ! 0 = ''up'' then
        runCmd r ''netconfig: bring up'' [''ip'', ''link'', ''set'', action ! 1, ''up'']
      else raise (Error ''netconfig: unrecognized action kind''))"

definition isRoute :: "string list \<Rightarrow> bool" where
  "isRoute action = (action ! 0 = ''default-route'')"

text \<open>\<^verbatim>\<open>netconfig.Apply\<close>: validate, check, refuse conflicting routes, write the files, act.\<close>

definition NetApply :: "'n runner \<Rightarrow> netDesired \<Rightarrow> ('n machine, unit) prog" where
  "NetApply r ds =
     bindM (liftR (NetValidate ds)) (\<lambda>_.
     bindM (checkFilePreconditions ds) (\<lambda>_.
     bindM (checkIfupdown ds) (\<lambda>_.
     bindM (eachM (\<lambda>a. bindM (routeState r a) (\<lambda>_. ret ())) (filter isRoute (Actions ds))) (\<lambda>_.
     bindM (eachM (\<lambda>path. bindM ctxErr (\<lambda>_. writeFile path (netGet (Files ds) path)))
       (sortedKeys (Files ds))) (\<lambda>_.
       eachM (\<lambda>a. bindM ctxErr (\<lambda>_. applyAction r a)) (Actions ds))))))"

text \<open>\<^verbatim>\<open>netconfig.Restore\<close>: replay of a confirmed desired state; nothing for an empty blob.\<close>

definition NetRestore :: "'n runner \<Rightarrow> bytes \<Rightarrow> ('n machine, unit) prog" where
  "NetRestore r blob =
     (if blob = NoBytes then ret ()
      else bindM (remap (\<lambda>_. Error ''netconfig: restore'') (liftR (ParseNetState blob))) (NetApply r))"

section \<open>Snapshot and rollback\<close>

definition encUndo :: "undo \<Rightarrow> json" where
  "encUndo u = JObj
     ((if AddedRoutes u = [] then [] else [(''added_routes'', JArr (map (\<lambda>a. JArr (map jstr a)) (AddedRoutes u)))]) @
      [(''files'', JObj (sort_key fst (map (\<lambda>(p, c).
          (toValidUTF8 p, case c of None \<Rightarrow> JNull | Some t \<Rightarrow> jstr t)) (UFiles u))))] @
      (if UIPForward u = [] then [] else [(''ip_forward'', jstr (UIPForward u))]))"

definition decUndo :: "undo decoder" where
  "decUndo = decObj (\<lambda>kvs u.
     bindR (decField (decList (decList decString []) []) ''added_routes'' kvs (AddedRoutes u)) (\<lambda>a.
     bindR (decField (decMap (decPtr decString []) None) ''files'' kvs (UFiles u)) (\<lambda>f.
     bindR (decField decString ''ip_forward'' kvs (UIPForward u)) (\<lambda>i.
       Inr \<lparr>AddedRoutes = a, UFiles = f, UIPForward = i\<rparr>))))"

definition noUndo :: undo where
  "noUndo = \<lparr>AddedRoutes = [], UFiles = [], UIPForward = []\<rparr>"

text \<open>
  The trimmed output of \<^verbatim>\<open>sysctl -n\<close>, when it is one of the two values the code accepts; the
  output \<^verbatim>\<open>0\<close> or \<^verbatim>\<open>1\<close> is also a JSON document.
\<close>

definition forwardValue :: "bytes \<Rightarrow> string option" where
  "forwardValue out = (case out of
       Text t \<Rightarrow> if trimSpace t = ''0'' \<or> trimSpace t = ''1'' then Some (trimSpace t) else None
     | Json j \<Rightarrow> if j = JNum 0 then Some ''0'' else if j = JNum 1 then Some ''1'' else None
     | NoBytes \<Rightarrow> None)"

definition snapshotFiles :: "netDesired \<Rightarrow> ('n machine, (string \<times> string option) list) prog" where
  "snapshotFiles ds = foldM (\<lambda>fs path. bindM (readFile path) (\<lambda>c. ret (assocPut path c fs)))
     [] (map fst (Files ds))"

definition snapshotRoutes :: "'n runner \<Rightarrow> netDesired \<Rightarrow> ('n machine, string list list) prog" where
  "snapshotRoutes r ds = foldM (\<lambda>rs a. bindM (routeState r a) (\<lambda>(exists, _).
       ret (if exists then rs else rs @ [a]))) [] (filter isRoute (Actions ds))"

definition snapshotForward :: "'n runner \<Rightarrow> netDesired \<Rightarrow> ('n machine, string) prog" where
  "snapshotForward r ds =
     (if list_ex (\<lambda>a. a ! 0 = ''sysctl'' \<or> a ! 0 = ''forward'') (Actions ds)
      then bindM (runNet r [''sysctl'', ''-n'', ''net.ipv4.ip_forward'']) (\<lambda>out. case forwardValue out of
          None \<Rightarrow> raise (Error ''cannot snapshot ip_forward'') | Some v \<Rightarrow> ret v)
      else ret [])"

definition NetSnapshot :: "'n runner \<Rightarrow> netDesired \<Rightarrow> ('n machine, bytes) prog" where
  "NetSnapshot r ds =
     bindM (liftR (NetValidate ds)) (\<lambda>_.
     bindM (checkFilePreconditions ds) (\<lambda>_.
     bindM (checkIfupdown ds) (\<lambda>_.
     bindM (snapshotFiles ds) (\<lambda>files.
     bindM (snapshotRoutes r ds) (\<lambda>routes.
     bindM (snapshotForward r ds) (\<lambda>fwd.
       ret (Json (encUndo \<lparr>AddedRoutes = routes, UFiles = files, UIPForward = fwd\<rparr>))))))))"

definition rollbackValidation :: "undo \<Rightarrow> netDesired" where
  "rollbackValidation u =
     \<lparr>ExpectedFilesSHA256 = (if interfacesMain \<in> fst ` set (UFiles u)
        then [(interfacesMain, replicate 64 CHR ''0'')] else []),
      Files = map (\<lambda>(p, _). (p, [])) (UFiles u), Actions = []\<rparr>"

definition rollbackFile :: "undo \<Rightarrow> string \<Rightarrow> ('n machine, unit) prog" where
  "rollbackFile u path = (case map_of (UFiles u) path of
       Some (Some content) \<Rightarrow> writeFile path content
     | _ \<Rightarrow> removeFile path)"

definition rollbackRoute :: "'n runner \<Rightarrow> string list \<Rightarrow> ('n machine, unit) prog" where
  "rollbackRoute r action = bindM (routeState r action) (\<lambda>(exists, owned).
     if exists \<and> \<not> owned then raise (Error ''default route ownership changed; refusing rollback deletion'')
     else if exists then bindM (runNet r (''ip'' # routeArgs ''del'' action)) (\<lambda>_. ret ())
     else ret ())"

definition NetRollback :: "'n runner \<Rightarrow> bytes \<Rightarrow> ('n machine, unit) prog" where
  "NetRollback r blob =
     bindM (liftR (bindR (unmarshal blob) (decUndo noUndo))) (\<lambda>u.
     bindM (liftR (eachR validateDefaultRoute (AddedRoutes u))) (\<lambda>_.
     bindM (liftR (NetValidate (rollbackValidation u))) (\<lambda>_.
     bindM (eachM (rollbackFile u) (sortedKeys (UFiles u))) (\<lambda>_.
     bindM (eachM (rollbackRoute r) (AddedRoutes u)) (\<lambda>_.
       if UIPForward u = [] then ret ()
       else if UIPForward u \<noteq> ''0'' \<and> UIPForward u \<noteq> ''1'' then raise (Error ''invalid forwarding snapshot'')
       else bindM (runNet r [''sysctl'', ''-q'', ''-w'', ''net.ipv4.ip_forward='' @ UIPForward u]) (\<lambda>_. ret ()))))))"

end
