(* ===== verification/Rpc_Server.thy ===== *)
theory Rpc_Server
  imports State_Store Auth Nft_Kernel Netconfig
begin

text \<open>
  The RPC server (\<^verbatim>\<open>internal/rpc/server.go\<close>, \<^verbatim>\<open>features.go\<close>): \<^verbatim>\<open>Apply\<close> with its two core domains
  and the table of optional ones, the opening of a lease, the recovery of an expired one, and
  \<^verbatim>\<open>Confirm\<close>.  The host is the store and the leases, the network machine, the nftables kernel
  state \<open>'k\<close> and a clock that may show any instant at each reading.
\<close>

record ('y, 'n, 'k) host = "'y leasing" +
  net :: "'n machine"
  nftk :: 'k
  clock :: "nat \<Rightarrow> int"
  tick :: nat
  minted :: nat

type_synonym ('y, 'n, 'k, 'a) hostprog = "(('y, 'n, 'k) host, 'a) prog"

text \<open>A program of one part of the host, run in the whole of it.\<close>

definition zoom :: "('s \<Rightarrow> 't) \<Rightarrow> ('t \<Rightarrow> 's \<Rightarrow> 's) \<Rightarrow> ('t, 'a) prog \<Rightarrow> ('s, 'a) prog" where
  "zoom get put m s = (case m (get s) of (r, t) \<Rightarrow> (r, put t s))"

definition onNet :: "('n machine, 'a) prog \<Rightarrow> ('y, 'n, 'k, 'a) hostprog" where
  "onNet = zoom net (\<lambda>m s. s\<lparr>net := m\<rparr>)"

definition execNft :: "'k runner \<Rightarrow> ('y, 'n, 'k) host exec" where
  "execNft r = runOn nftk (\<lambda>k s. s\<lparr>nftk := k\<rparr>) r"

definition Now :: "('y, 'n, 'k, int) hostprog" where
  "Now s = (Done (clock s (tick s)), s\<lparr>tick := Suc (tick s)\<rparr>)"

definition second :: int where
  "second = 1000000000"

section \<open>The server\<close>

record applyRequest =
  ReqDomain :: string
  DesiredStateJson :: bytes
  DeadManSwitchSeconds :: int

record 's domainImpl =
  configKey :: string
  implApply :: "string option \<Rightarrow> applyRequest \<Rightarrow> ('s, string) prog"
  implRestore :: "bytes \<Rightarrow> ('s, unit) prog"

text \<open>
  \<open>newID\<close> is the generator of lease identifiers (the \<^verbatim>\<open>uuid\<close> package) as the sequence it
  produces.
\<close>

record ('y, 'n, 'k) server =
  ObserveOnly :: bool
  authenticatorOf :: authenticator
  sysdRunner :: "'y runner"
  nftRunner :: "'k runner"
  netRunner :: "'n runner"
  guard :: reachabilityGuard
  binaryPath :: string
  storeDir :: string
  newID :: "nat \<Rightarrow> string"
  extraDomains :: "(string \<times> ('y, 'n, 'k) host domainImpl) list"

definition domainFirewall :: string where
  "domainFirewall = ''firewall''"

definition domainNetconfig :: string where
  "domainNetconfig = ''netconfig''"

definition NftRuleset :: string where
  "NftRuleset = ''nft-ruleset.json''"

definition NetconfigState :: string where
  "NetconfigState = ''netconfig-state.json''"

definition extraDomainNames :: "('y, 'n, 'k) server \<Rightarrow> string list" where
  "extraDomainNames S = sort (map fst (extraDomains S))"

definition registerDomain :: "string \<Rightarrow> ('y, 'n, 'k) host domainImpl \<Rightarrow>
    ('y, 'n, 'k) server \<times> ('y, 'n, 'k) host \<Rightarrow> ('y, 'n, 'k) server \<times> ('y, 'n, 'k) host" where
  "registerDomain name d = (\<lambda>(S, s).
     (S\<lparr>extraDomains := assocPut name d (extraDomains S)\<rparr>, RegisterDomain name s))"

definition peerAddr :: "string option \<Rightarrow> string result" where
  "peerAddr p = (case p of
       None \<Rightarrow> Inl (Status Unauthenticated ''rpc: no peer address on this connection'')
     | Some a \<Rightarrow> Inr a)"

definition legacyName :: "('y, 'n, 'k) server \<Rightarrow> string \<Rightarrow> string" where
  "legacyName S domain = (case map_of (extraDomains S) domain of
       Some d \<Rightarrow> configKey d
     | None \<Rightarrow> if domain = domainFirewall then NftRuleset else NetconfigState)"

definition mintID :: "('y, 'n, 'k) server \<Rightarrow> ('y, 'n, 'k, string) hostprog" where
  "mintID S s = (Done (newID S (minted s)), s\<lparr>minted := Suc (minted s)\<rparr>)"

definition internal :: "('s, 'a) prog \<Rightarrow> ('s, 'a) prog" where
  "internal = remap (statusOf Internal)"

definition invalid :: "('s, 'a) prog \<Rightarrow> ('s, 'a) prog" where
  "invalid = remap (statusOf InvalidArgument)"

section \<open>Opening, finishing and recovering a lease\<close>

text \<open>\<^verbatim>\<open>begin\<close> runs under the store lock and before the first mutation.\<close>

definition beginApply ::
  "('y, 'n, 'k) server \<Rightarrow> string option \<Rightarrow> applyRequest \<Rightarrow> bytes \<Rightarrow> ('y, 'n, 'k, string) hostprog"
where
  "beginApply S peer req snapshot =
     (let domain = ReqDomain req in
      bindM (internal (Domain domain (legacyName S domain))) (\<lambda>d.
      if Pending d \<noteq> None
      then raise (Status FailedPrecondition ''domain already has an unconfirmed apply; wait for rollback'')
      else
      bindM (mintID S) (\<lambda>id'.
      bindM Now (\<lambda>now.
      let p = \<lparr>Applied = False, PendingID = id', Deadline = now + DeadManSwitchSeconds req * second,
               PSnapshot = snapshot, Target = DesiredStateJson req,
               Peer = (case peer of None \<Rightarrow> [] | Some a \<Rightarrow> a)\<rparr> in
      bindM (internal (SaveDomain domain (d\<lparr>Pending := Some p\<rparr>))) (\<lambda>_.
      bindM (attempt (Arm (sysdRunner S) (binaryPath S) (Some (storeDir S)) id' domain (DeadManSwitchSeconds req))) (\<lambda>armed.
      case armed of
        Inr _ \<Rightarrow> ret id'
      | Inl e \<Rightarrow> bindM (attempt (SaveDomain domain (d\<lparr>Pending := None\<rparr>))) (\<lambda>_.
                 raise (statusOf Internal e))))))))"

text \<open>\<^verbatim>\<open>finishApply\<close> dereferences the pending record: a missing one kills the process.\<close>

definition finishApply ::
  "('y, 'n, 'k) server \<Rightarrow> string \<Rightarrow> string \<Rightarrow> ('y, 'n, 'k, string) hostprog" where
  "finishApply S domain id' =
     bindM (remap (statusOf DeadlineExceeded) (onNet ctxErr)) (\<lambda>_.
     bindM (internal (Domain domain (legacyName S domain))) (\<lambda>d.
     case Pending d of
       None \<Rightarrow> (\<lambda>s. (Died, s))
     | Some p \<Rightarrow>
         bindM (internal (SaveDomain domain (d\<lparr>Pending := Some (p\<lparr>Applied := True\<rparr>)\<rparr>))) (\<lambda>_. ret id')))"

definition restoreFor ::
  "('y, 'n, 'k) server \<Rightarrow> string \<Rightarrow> bytes \<Rightarrow> ('y, 'n, 'k, unit) hostprog" where
  "restoreFor S domain snapshot =
     (if domain = domainFirewall then Restore (execNft (nftRunner S)) snapshot
      else case map_of (extraDomains S) domain of
        Some impl \<Rightarrow> implRestore impl snapshot
      | None \<Rightarrow> onNet (NetRollback (netRunner S) snapshot))"

definition recoverExpired :: "('y, 'n, 'k) server \<Rightarrow> string \<Rightarrow> ('y, 'n, 'k, unit) hostprog" where
  "recoverExpired S domain =
     bindM (internal (Domain domain (legacyName S domain))) (\<lambda>d.
     case Pending d of
       None \<Rightarrow> ret ()
     | Some p \<Rightarrow>
         bindM Now (\<lambda>now.
         if now < Deadline p then raise (Status FailedPrecondition ''domain has unconfirmed lease'')
         else if PSnapshot p = NoBytes
         then raise (Status Internal ''expired lease has no rollback snapshot; pending record retained'')
         else
         bindM (internal (restoreFor S domain (PSnapshot p))) (\<lambda>_.
           internal (SaveDomain domain (d\<lparr>Pending := None\<rparr>)))))"

section \<open>Apply\<close>

definition applyFirewall ::
  "('y, 'n, 'k) server \<Rightarrow> string option \<Rightarrow> applyRequest \<Rightarrow> ('y, 'n, 'k, string) hostprog" where
  "applyFirewall S peer req =
     (let run = execNft (nftRunner S) in
      bindM (invalid (liftR (ParseDesiredState (DesiredStateJson req)))) (\<lambda>desired.
      bindM (invalid (liftR (Render desired (guard S)))) (\<lambda>script.
      bindM (invalid (ValidateSyntax run script)) (\<lambda>_.
      bindM (recoverExpired S domainFirewall) (\<lambda>_.
      bindM (internal (ReadRulesetJSON run)) (\<lambda>raw.
      bindM (if RedirectOnly desired
             then remap (statusOf FailedPrecondition) (liftR (ValidateRedirectCoexistence raw))
             else ret ()) (\<lambda>_.
      bindM (internal (liftR (OwnedRuleset raw))) (\<lambda>snapshot.
      bindM (beginApply S peer req snapshot) (\<lambda>leaseID.
      bindM (internal (Commit run script)) (\<lambda>_.
        finishApply S (ReqDomain req) leaseID))))))))))"

definition applyNetconfig ::
  "('y, 'n, 'k) server \<Rightarrow> string option \<Rightarrow> applyRequest \<Rightarrow> ('y, 'n, 'k, string) hostprog" where
  "applyNetconfig S peer req =
     bindM (invalid (liftR (ParseNetState (DesiredStateJson req)))) (\<lambda>desired.
     bindM (invalid (liftR (NetValidate desired))) (\<lambda>_.
     bindM (recoverExpired S domainNetconfig) (\<lambda>_.
     bindM (internal (onNet (NetSnapshot (netRunner S) desired))) (\<lambda>snapshot.
     bindM (beginApply S peer req snapshot) (\<lambda>leaseID.
     bindM (internal (onNet (NetApply (netRunner S) desired))) (\<lambda>_.
       finishApply S (ReqDomain req) leaseID))))))"

definition Apply ::
  "('y, 'n, 'k) server \<Rightarrow> string option \<Rightarrow> applyRequest \<Rightarrow> ('y, 'n, 'k, string) hostprog" where
  "Apply S peer req =
     (if ObserveOnly S then raise (Status FailedPrecondition ''ghostd is observation-only'')
      else
      bindM (liftR (peerAddr peer)) (\<lambda>addr.
      bindM (remap (statusOf PermissionDenied) (liftR (AuthorizeDeployer (authenticatorOf S) addr))) (\<lambda>_.
      if DeadManSwitchSeconds req \<le> 0
      then raise (Status InvalidArgument ''rpc: dead_man_switch_seconds is required and must be positive'')
      else
      bindM (internal Lock) (\<lambda>_.
      if ReqDomain req = ''firewall-output-v1'' \<or> ReqDomain req = ''firewall-redirect-v1''
      then applyFirewall S peer (req\<lparr>ReqDomain := domainFirewall\<rparr>)
      else if ReqDomain req = domainFirewall then applyFirewall S peer req
      else if ReqDomain req = domainNetconfig then applyNetconfig S peer req
      else case map_of (extraDomains S) (ReqDomain req) of
        Some d \<Rightarrow> implApply d peer req
      | None \<Rightarrow> raise (Status InvalidArgument ''rpc: domain must be one of the built-in domains'')))))"

section \<open>Confirm\<close>

definition confirmedBytes ::
  "('y, 'n, 'k) server \<Rightarrow> string \<Rightarrow> pending \<Rightarrow> ('y, 'n, 'k, bytes) hostprog" where
  "confirmedBytes S domain p =
     (if domain = domainFirewall
      then bindM (internal (ReadRulesetJSON (execNft (nftRunner S)))) (\<lambda>raw.
             internal (liftR (OwnedRuleset raw)))
      else ret (Target p))"

text \<open>What \<^verbatim>\<open>Confirm\<close> does in the domain that holds the lease.\<close>

definition confirmDomain ::
  "('y, 'n, 'k) server \<Rightarrow> string \<Rightarrow> string \<Rightarrow> string \<Rightarrow> domainState \<Rightarrow> pending \<Rightarrow>
    ('y, 'n, 'k, bool) hostprog" where
  "confirmDomain S addr leaseID domain d p =
     bindM Now (\<lambda>now.
     if \<not> now < Deadline p then raise (Status FailedPrecondition ''lease expired; rollback must complete'')
     else if Peer p = addr then raise (Status FailedPrecondition ''confirm requires a fresh connection'')
     else if \<not> Applied p then raise (Status FailedPrecondition ''apply did not complete; rollback must complete'')
     else
     bindM (confirmedBytes S domain p) (\<lambda>confirmed.
     bindM Now (\<lambda>now.
     if \<not> now < Deadline p
     then raise (Status FailedPrecondition ''confirmation exceeded lease deadline; rollback stays armed'')
     else
     bindM (remap (statusOf FailedPrecondition) (onNet ctxErr)) (\<lambda>_.
     bindM (internal (SaveDomain domain \<lparr>Confirmed = confirmed, Pending = None\<rparr>)) (\<lambda>_.
     bindM (attempt (Cancel (sysdRunner S) leaseID)) (\<lambda>_. ret True))))))"

fun confirmIn ::
  "('y, 'n, 'k) server \<Rightarrow> string \<Rightarrow> string \<Rightarrow> string list \<Rightarrow> ('y, 'n, 'k, bool) hostprog" where
  "confirmIn S addr leaseID [] = raise (Status FailedPrecondition ''unknown or completed lease'')"
| "confirmIn S addr leaseID (domain # ds) =
     bindM (internal (Domain domain (legacyName S domain))) (\<lambda>d.
     case Pending d of
       None \<Rightarrow> confirmIn S addr leaseID ds
     | Some p \<Rightarrow> if PendingID p \<noteq> leaseID then confirmIn S addr leaseID ds
                 else confirmDomain S addr leaseID domain d p)"

definition Confirm ::
  "('y, 'n, 'k) server \<Rightarrow> string option \<Rightarrow> string \<Rightarrow> ('y, 'n, 'k, bool) hostprog" where
  "Confirm S peer leaseID =
     (if ObserveOnly S then raise (Status FailedPrecondition ''ghostd is observation-only'')
      else
      bindM (liftR (peerAddr peer)) (\<lambda>addr.
      bindM (remap (statusOf PermissionDenied) (liftR (AuthorizeDeployer (authenticatorOf S) addr))) (\<lambda>_.
      if leaseID = [] then raise (Status InvalidArgument ''rpc: lease_id is required'')
      else
      bindM (internal Lock) (\<lambda>_.
        confirmIn S addr leaseID ([domainFirewall, domainNetconfig] @ extraDomainNames S)))))"

end
