(* ===== verification/Daemon.thy ===== *)
theory Daemon
  imports Rpc_Server
begin

text \<open>
  The daemon's own control of the domains (\<^verbatim>\<open>cmd/ghostd/main.go\<close>, \<^verbatim>\<open>feature.go\<close>): boot recovery,
  the revert process the timer starts, and the refusal of observation mode on a managed host.
\<close>

record 's domainHook =
  hookName :: string
  hookKey :: string
  hookRestore :: "bytes \<Rightarrow> ('s, unit) prog"

fun hookFor :: "'s domainHook list \<Rightarrow> string \<Rightarrow> 's domainHook option" where
  "hookFor [] domain = None"
| "hookFor (h # hs) domain = (if hookName h = domain then Some h else hookFor hs domain)"

definition allDomains :: "'s domainHook list \<Rightarrow> string list" where
  "allDomains hooks = [''firewall'', ''netconfig''] @ sort (map hookName hooks)"

text \<open>The key of the confirmed state a domain had before it had a transaction record.\<close>

definition recoverKey :: "'s domainHook list \<Rightarrow> string \<Rightarrow> string result" where
  "recoverKey hooks domain =
     (if domain = ''firewall'' then Inr NftRuleset
      else if domain = ''netconfig'' then Inr NetconfigState
      else case hookFor hooks domain of
        Some h \<Rightarrow> Inr (hookKey h)
      | None \<Rightarrow> Fail ''unknown domain'')"

definition recoverRestore ::
  "('y, 'n, 'k) host domainHook list \<Rightarrow> 'k runner \<Rightarrow> 'n runner \<Rightarrow> string \<Rightarrow> bytes \<Rightarrow> bool \<Rightarrow>
    ('y, 'n, 'k, unit) hostprog" where
  "recoverRestore hooks nftR netR domain snapshot rollback =
     (if domain = ''firewall'' then Restore (execNft nftR) snapshot
      else case hookFor hooks domain of
        Some h \<Rightarrow> hookRestore h snapshot
      | None \<Rightarrow> if rollback then onNet (NetRollback netR snapshot) else onNet (NetRestore netR snapshot))"

definition recoverDomain ::
  "('y, 'n, 'k) host domainHook list \<Rightarrow> 'k runner \<Rightarrow> 'n runner \<Rightarrow> string \<Rightarrow> string \<Rightarrow>
    ('y, 'n, 'k, unit) hostprog" where
  "recoverDomain hooks nftR netR domain leaseID =
     bindM (liftR (recoverKey hooks domain)) (\<lambda>key.
     bindM (Domain domain key) (\<lambda>d.
     case Pending d of
       Some p \<Rightarrow>
         if leaseID = [] \<or> PendingID p = leaseID
         then bindM (recoverRestore hooks nftR netR domain (PSnapshot p) True) (\<lambda>_.
                SaveDomain domain (d\<lparr>Pending := None\<rparr>))
         else ret ()
     | None \<Rightarrow>
         if leaseID \<noteq> [] then ret ()
         else recoverRestore hooks nftR netR domain (Confirmed d) False))"

definition runRevert ::
  "('y, 'n, 'k) host domainHook list \<Rightarrow> 'k runner \<Rightarrow> 'n runner \<Rightarrow> string \<Rightarrow> string \<Rightarrow>
    ('y, 'n, 'k, unit) hostprog" where
  "runRevert hooks nftR netR leaseID domain =
     bindM Lock (\<lambda>_. recoverDomain hooks nftR netR domain leaseID)"

definition prepareDomain ::
  "('y, 'n, 'k) host domainHook list \<Rightarrow> 'k runner \<Rightarrow> 'n runner \<Rightarrow> bool \<Rightarrow> string \<Rightarrow>
    ('y, 'n, 'k, unit) hostprog" where
  "prepareDomain hooks nftR netR observeOnly domain =
     (if \<not> observeOnly then recoverDomain hooks nftR netR domain []
      else
      bindM (Domain domain
          (if domain = ''netconfig'' then NetconfigState
           else case hookFor hooks domain of Some h \<Rightarrow> hookKey h | None \<Rightarrow> NftRuleset)) (\<lambda>d.
        if Pending d \<noteq> None \<or> Confirmed d \<noteq> NoBytes
        then raise (Error ''observation mode requires a fresh domain; managed state exists'')
        else ret ()))"

text \<open>The part of \<^verbatim>\<open>runDaemonWith\<close> that runs under the store lock.\<close>

definition bootRestore ::
  "('y, 'n, 'k) host domainHook list \<Rightarrow> 'k runner \<Rightarrow> 'n runner \<Rightarrow> bool \<Rightarrow> ('y, 'n, 'k, unit) hostprog"
where
  "bootRestore hooks nftR netR observeOnly =
     bindM Lock (\<lambda>_. eachM (\<lambda>domain. remap (\<lambda>_. Error ''boot restore'')
       (prepareDomain hooks nftR netR observeOnly domain)) (allDomains hooks))"

end
