(* ===== verification/Firewall_Safety.thy ===== *)
theory Firewall_Safety
  imports Daemon
begin

text \<open>
  The dead-man's switch of the firewall domain.  Whatever fails, and wherever the process
  dies, an unconfirmed \<^verbatim>\<open>Apply\<close> leaves the kernel table as it was or a durable record that leads
  back to it; the revert process and the boot recovery lead back.  The statements hold for
  every runner of \<^verbatim>\<open>nft\<close> with the documented behaviour \<open>nftDocumented\<close>.
\<close>

section \<open>What the nft command does\<close>

text \<open>The script with which \<^verbatim>\<open>Restore\<close> would replay a snapshot: its content without handles.\<close>

definition contentSnap :: "bytes \<Rightarrow> json option" where
  "contentSnap snap =
     (case bindR (OwnedRuleset snap) (\<lambda>owned.
           bindR (bindR (unmarshal owned) (decDump [])) restoreScript) of
        Inl _ \<Rightarrow> None | Inr j \<Rightarrow> Some j)"

text \<open>
  \<open>table k\<close> is the content of the daemon's table in the kernel state \<open>k\<close>.  Listing and
  checking (\<^verbatim>\<open>-c\<close>) leave it alone, a listing shows it, and an accepted replay script installs
  its content.  A commit and a refused script may do anything.
\<close>

definition nftDocumented :: "'k runner \<Rightarrow> ('k \<Rightarrow> json option) \<Rightarrow> bool" where
  "nftDocumented r table \<longleftrightarrow>
     (\<forall>k a k'. r [''nft'', ''-j'', ''list'', ''ruleset''] NoBytes k = (a, k') \<longrightarrow> table k' = table k) \<and>
     (\<forall>k raw k' sn. r [''nft'', ''-j'', ''list'', ''ruleset''] NoBytes k = (Replied raw, k') \<longrightarrow>
        OwnedRuleset raw = Inr sn \<longrightarrow> contentSnap sn = table k) \<and>
     (\<forall>k script a k'. r [''nft'', ''-c'', ''-f'', ''-''] (Text script) k = (a, k') \<longrightarrow> table k' = table k) \<and>
     (\<forall>k snap j b k'. contentSnap snap = Some j \<longrightarrow>
        r [''nft'', ''-j'', ''-f'', ''-''] (Json j) k = (Replied b, k') \<longrightarrow> table k' = Some j) \<and>
     (\<forall>k. table k \<noteq> None)"

abbreviation fwView :: "('y, 'n, 'k) host \<Rightarrow> domainState option" where
  "fwView \<equiv> viewOf ''firewall'' NftRuleset"

abbreviation fwSafe :: "('k \<Rightarrow> json option) \<Rightarrow> json \<Rightarrow> ('y, 'n, 'k) host \<Rightarrow> bool" where
  "fwSafe table T \<equiv> safe fwView (\<lambda>s. table (nftk s)) contentSnap (Some T)"

section \<open>The firewall domain keeps the transaction interface\<close>

lemma Domain_frame:
  fixes s :: "('y, 'n, 'k) host"
  assumes "Domain domain legacy s = (r, t)"
  shows "nftk t = nftk s" "net t = net s"
  using assms
  by (auto simp: Domain_def prog_defs domainFile_def Load_def Let_def
      split: sum.splits outcome.splits prod.splits if_splits list.splits bool.splits)

lemma SaveDomain_frame:
  fixes s :: "('y, 'n, 'k) host"
  assumes "SaveDomain domain d s = (r, t)"
  shows "nftk t = nftk s" "net t = net s"
  using assms
  by (auto simp: SaveDomain_def prog_defs domainFile_def Save_def Let_def putTmp_def renameTmp_def
      split: sum.splits outcome.splits prod.splits if_splits list.splits saveFault.splits)

lemma fw_names:
  "NftRuleset \<noteq> recordFile ''firewall''" "NftRuleset \<noteq> tmpName (recordFile ''firewall'')"
  by (simp_all add: NftRuleset_def recordFile_def tmpName_def)

lemma SaveDomain_other:
  fixes s :: "('y, 'n, 'k) host"
  assumes "SaveDomain ''netconfig'' d s = (r, t)"
  shows "fwView t = fwView s"
proof -
  consider "t = s" | "Save (recordFile ''netconfig'') (Json (encDomain d)) s = (r, t)"
    using assms by (auto simp: SaveDomain_def prog_defs domainFile_def recordFile_def split: if_splits)
  then show ?thesis
  proof cases
    case 2
    show ?thesis
      by (intro viewOf_cong Save_disk(3) [OF 2])
        (simp_all add: NftRuleset_def recordFile_def tmpName_def)
  qed simp
qed

interpretation fw: transactions "Domain ''firewall'' NftRuleset" "SaveDomain ''firewall''"
  fwView "\<lambda>s :: ('y, 'n, 'k) host. table (nftk s)" for table
proof
  fix s t :: "('y, 'n, 'k) host" and r q d and u :: unit
  show "Domain ''firewall'' NftRuleset s = (r, t) \<Longrightarrow>
      fwView t = fwView s \<and> table (nftk t) = table (nftk s)"
    by (intro conjI viewOf_cong) (auto dest: Domain_frame(1) Domain_reads(1))
  show "Domain ''firewall'' NftRuleset s = (Done d, t) \<Longrightarrow> fwView s = Some d"
    by (rule Domain_reads(3) [OF _ refl])
  show "SaveDomain ''firewall'' d s = (q, t) \<Longrightarrow> table (nftk t) = table (nftk s)"
    by (drule SaveDomain_frame(1)) simp
  show "SaveDomain ''firewall'' d s = (q, t) \<Longrightarrow> fwView t = fwView s \<or> fwView t = Some (cleanDomain d)"
    by (rule SaveDomain_writes(1) [OF _ fw_names])
  show "SaveDomain ''firewall'' d s = (Done u, t) \<Longrightarrow> fwView t = Some (cleanDomain d)"
    by (rule SaveDomain_writes(2) [OF _ fw_names]) simp_all
qed

section \<open>Steps that keep the promise\<close>

lemma safe_same:
  "safe view live snapOf T s \<Longrightarrow> view t = view s \<Longrightarrow> live t = live s \<Longrightarrow> safe view live snapOf T t"
  by (auto simp: safe_def split: option.splits)

text \<open>A step that touches neither the records nor the table.\<close>

definition quiet :: "('k \<Rightarrow> json option) \<Rightarrow> ('y, 'n, 'k, 'a) hostprog \<Rightarrow> bool" where
  "quiet table m \<longleftrightarrow> (\<forall>s r t. m s = (r, t) \<longrightarrow> fwView t = fwView s \<and> table (nftk t) = table (nftk s))"

lemma quiet_hoare:
  assumes "quiet table m" "\<And>s t. fwView t = fwView s \<Longrightarrow> table (nftk t) = table (nftk s) \<Longrightarrow> P s \<Longrightarrow> P t"
  shows "hoare P m (\<lambda>_. P) P P"
  using assms unfolding quiet_def
  by (intro hoare_stepI) (auto split: outcome.splits)

lemma quiet_safe: "quiet table m \<Longrightarrow> hoare (fwSafe table T) m (\<lambda>_. fwSafe table T) (fwSafe table T) (fwSafe table T)"
  by (rule quiet_hoare) (assumption, rule safe_same)

lemma quiet_ret [simp]: "quiet table (ret a)" "quiet table (raise e)" "quiet table (liftR x)"
  by (auto simp: quiet_def prog_defs split: sum.splits)

lemma quiet_remap [simp]: "quiet table m \<Longrightarrow> quiet table (remap f m)"
  unfolding quiet_def remap_def by (auto split: prod.splits outcome.splits)

lemma quiet_bind: "quiet table m \<Longrightarrow> (\<And>a. quiet table (k a)) \<Longrightarrow> quiet table (bindM m k)"
  unfolding quiet_def bindM_def by (auto split: prod.splits outcome.splits)

lemma quiet_Now [simp]: "quiet table Now"
  by (auto simp: quiet_def Now_def  intro!: viewOf_cong)

lemma quiet_mint [simp]: "quiet table (mintID S)"
  by (auto simp: quiet_def mintID_def  intro!: viewOf_cong)

lemma quiet_Lock [simp]: "quiet table Lock"
  by (auto simp: quiet_def Lock_def Let_def split: list.splits bool.splits intro!: viewOf_cong)

lemma quiet_onNet [simp]: "quiet table (onNet m)"
  by (auto simp: quiet_def onNet_def zoom_def split: prod.splits intro!: viewOf_cong)

lemma execNft_view: "execNft r a b s = (x, t) \<Longrightarrow> fwView t = fwView s"
  by (auto simp: execNft_def runOn_def split: prod.splits reply.splits intro!: viewOf_cong)

lemma quiet_Arm [simp]: "quiet table (Arm R bp sd i dm n)"
  by (auto simp: quiet_def Arm_def systemd_def runOn_def prog_defs split: prod.splits reply.splits outcome.splits intro!: viewOf_cong)

lemma quiet_Cancel [simp]: "quiet table (Cancel R i)"
  by (auto simp: quiet_def Cancel_def systemd_def runOn_def prog_defs split: prod.splits reply.splits outcome.splits option.splits intro!: viewOf_cong)

section \<open>The operations of the server keep the promise\<close>

definition fwLeased :: "json \<Rightarrow> ('y, 'n, 'k) host \<Rightarrow> bool" where
  "fwLeased T s \<longleftrightarrow> (\<exists>d p. fwView s = Some d \<and> Pending d = Some p \<and> contentSnap (PSnapshot p) = Some T)"

lemma leased_safe: "fwLeased T s \<Longrightarrow> fwSafe table T s"
  by (auto simp: safe_def fwLeased_def)

lemma leased_exec:
  "hoare (fwLeased T) (execNft r a b) (\<lambda>_. fwLeased T) (fwLeased T) (fwLeased T)"
  by (rule hoare_stepI) (auto simp: fwLeased_def dest: execNft_view split: outcome.splits)

lemma leased_Commit: "hoare (fwLeased T) (Commit (execNft r) sc) (\<lambda>_. fwLeased T) (fwLeased T) (fwLeased T)"
  unfolding Commit_def
  by (rule hoare_bind [OF hoare_ret], rule hoare_remap, rule leased_exec)

lemma ReadRuleset_quiet:
  assumes "nftDocumented r table"
  shows "quiet table (ReadRulesetJSON (execNft r))"
  using assms unfolding quiet_def nftDocumented_def ReadRulesetJSON_def
  by (auto simp: remap_def execNft_def runOn_def split: prod.splits reply.splits outcome.splits
      intro!: viewOf_cong)

lemma ValidateSyntax_quiet:
  assumes "nftDocumented r table"
  shows "quiet table (ValidateSyntax (execNft r) script)"
  unfolding ValidateSyntax_def
  by (intro quiet_bind quiet_remap quiet_ret)
    (use assms in \<open>auto simp: quiet_def nftDocumented_def execNft_def runOn_def
      split: prod.splits reply.splits outcome.splits intro!: viewOf_cong\<close>)

text \<open>A snapshot taken now leads back to the table as it is now.\<close>

lemma ReadRuleset_shows:
  assumes "nftDocumented r table"
  shows "hoare (fwSafe table T) (ReadRulesetJSON (execNft r))
    (\<lambda>raw s. fwSafe table T s \<and> (\<forall>sn. OwnedRuleset raw = Inr sn \<longrightarrow> contentSnap sn = table (nftk s)))
    (fwSafe table T) (fwSafe table T)"
proof (rule hoare_stepI)
  fix s a t
  assume pre: "fwSafe table T s" and run: "ReadRulesetJSON (execNft r) s = (a, t)"
  have q: "fwView t = fwView s \<and> table (nftk t) = table (nftk s)"
    using ReadRuleset_quiet [OF assms] run unfolding quiet_def by blast
  then have "fwSafe table T t"
    using pre by (intro safe_same [OF pre]) simp_all
  moreover have "contentSnap sn = table (nftk s)" if "a = Done raw" "OwnedRuleset raw = Inr sn" for raw sn
    using assms run that unfolding nftDocumented_def ReadRulesetJSON_def
    by (auto simp: remap_def execNft_def runOn_def split: prod.splits reply.splits outcome.splits)
  ultimately show "case a of
      Done raw \<Rightarrow> fwSafe table T t \<and> (\<forall>sn. OwnedRuleset raw = Inr sn \<longrightarrow> contentSnap sn = table (nftk t))
    | Err e \<Rightarrow> fwSafe table T t | Died \<Rightarrow> fwSafe table T t"
    using q by (auto split: outcome.splits)
qed

text \<open>A replay that succeeds installs the content of the snapshot; the records stay.\<close>

lemma Restore_view: "Restore (execNft r) snap s = (a, t) \<Longrightarrow> fwView t = fwView s"
  by (auto simp: Restore_def prog_defs dest: execNft_view
      split: if_splits sum.splits outcome.splits prod.splits)

lemma Restore_installs:
  assumes "nftDocumented r table" "Restore (execNft r) snap s = (Done u, t)" "contentSnap snap = Some T"
  shows "table (nftk t) = Some T"
proof -
  obtain owned dump where o: "OwnedRuleset snap = Inr owned" "bindR (unmarshal owned) (decDump []) = Inr dump"
    "restoreScript dump = Inr T"
    using assms(3) by (auto simp: contentSnap_def bindR_Inr split: sum.splits)
  have "snap \<noteq> NoBytes"
    using o(1) by (auto simp: OwnedRuleset_def unmarshal_def)
  then obtain b where "execNft r [''nft'', ''-j'', ''-f'', ''-''] (Json T) s = (Done b, t)"
    using assms(2) o by (auto simp: Restore_def prog_defs split: outcome.splits prod.splits)
  then show ?thesis
    using assms(1,3) unfolding nftDocumented_def
    by (auto simp: execNft_def runOn_def split: prod.splits reply.splits)
qed

lemma Restore_safe:
  assumes "nftDocumented r table"
  shows "hoare (\<lambda>s. fwLeased T s \<and> contentSnap snap = Some T) (Restore (execNft r) snap)
    (\<lambda>_ s. fwSafe table T s \<and> table (nftk s) = Some T) (fwSafe table T) (fwSafe table T)"
proof (rule hoare_stepI)
  fix s a t
  assume pre: "fwLeased T s \<and> contentSnap snap = Some T" and run: "Restore (execNft r) snap s = (a, t)"
  have "fwSafe table T t"
    using pre Restore_view [OF run] by (intro leased_safe) (auto simp: fwLeased_def)
  then show "case a of Done u \<Rightarrow> fwSafe table T t \<and> table (nftk t) = Some T
      | Err e \<Rightarrow> fwSafe table T t | Died \<Rightarrow> fwSafe table T t"
    using Restore_installs [OF assms] run pre by (auto split: outcome.splits)
qed

text \<open>The core build: no optional domains.\<close>

lemma legacy_core:
  assumes "extraDomains S = []"
  shows "legacyName S ''firewall'' = NftRuleset" "legacyName S ''netconfig'' = NetconfigState"
  using assms by (simp_all add: legacyName_def domainFirewall_def)

lemma quiet_attempt [simp]: "quiet table m \<Longrightarrow> quiet table (attempt m)"
  unfolding quiet_def attempt_def by (auto split: prod.splits outcome.splits)

text \<open>Assertions about the record and the table only, which quiet steps keep.\<close>

definition stable :: "('k \<Rightarrow> json option) \<Rightarrow> (('y, 'n, 'k) host \<Rightarrow> bool) \<Rightarrow> bool" where
  "stable table P \<longleftrightarrow> (\<forall>s t. fwView t = fwView s \<longrightarrow> table (nftk t) = table (nftk s) \<longrightarrow> P s \<longrightarrow> P t)"

lemma stable_safe [simp]: "stable table (fwSafe table T)"
  unfolding stable_def by (auto intro: safe_same)

lemma stable_view [simp]: "stable table (\<lambda>s. Q (fwView s))" "stable table (\<lambda>s. Q' (table (nftk s)))"
  "stable table (fwLeased T)"
  by (simp_all add: stable_def fwLeased_def)

lemma stable_eq [simp]: "stable table (\<lambda>s. fwView s = x)" "stable table (\<lambda>s. y = table (nftk s))"
  "stable table (\<lambda>s. table (nftk s) = y)" "stable table (\<lambda>s. c)"
  by (simp_all add: stable_def)

lemma stable_conj [simp]: "stable table P \<Longrightarrow> stable table Q \<Longrightarrow> stable table (\<lambda>s. P s \<and> Q s)"
  unfolding stable_def by blast

lemma quiet_keeps:
  assumes "quiet table m" "stable table P" "\<And>s. P s \<Longrightarrow> I s"
  shows "hoare P m (\<lambda>_. P) I I"
proof -
  have "hoare P m (\<lambda>_. P) P P"
    by (rule quiet_hoare [OF assms(1)]) (use assms(2) in \<open>auto simp: stable_def\<close>)
  then show ?thesis
    by (rule hoare_weaken) (use assms(3) in auto)
qed

lemma load_keeps_snap:
  fixes table :: "'k \<Rightarrow> json option"
  shows "hoare (\<lambda>s. fwSafe table T s \<and> contentSnap sn = table (nftk s))
     (internal (Domain ''firewall'' NftRuleset))
     (\<lambda>d s. fwSafe table T s \<and> fwView s = Some d \<and> contentSnap sn = table (nftk s))
     (fwSafe table T) (fwSafe table T)"
  unfolding internal_def
proof (rule hoare_remap, rule hoare_stepI)
  fix s r and t :: "('y, 'n, 'k) host"
  assume pre: "fwSafe table T s \<and> contentSnap sn = table (nftk s)"
    and run: "Domain ''firewall'' NftRuleset s = (r, t)"
  have k: "fwView t = fwView s" "table (nftk t) = table (nftk s)"
    using fw.load_keeps [OF run] by auto
  have "fwSafe table T t"
    by (rule safe_same [OF _ k]) (use pre in simp)
  then show "case r of Done d \<Rightarrow> fwSafe table T t \<and> fwView t = Some d \<and> contentSnap sn = table (nftk t)
      | Err e \<Rightarrow> fwSafe table T t | Died \<Rightarrow> fwSafe table T t"
    using k fw.load_sees pre run by (auto split: outcome.splits)
qed

lemma save_opens:
  assumes "PSnapshot p = sn"
  shows "hoare (\<lambda>s. fwSafe table T s \<and> fwView s = Some d \<and> Pending d = None \<and> contentSnap sn = Some T)
    (internal (SaveDomain ''firewall'' (d\<lparr>Pending := Some p\<rparr>)))
    (\<lambda>_ s. fwLeased T s \<and> table (nftk s) = Some T) (fwSafe table T) (fwSafe table T)"
  unfolding internal_def
  by (rule hoare_remap, rule hoare_weaken [OF fw.open_safe [where p = p]]) (use assms in \<open>auto simp: safe_def fwLeased_def\<close>)

lemma arm_or_close:
  "hoare (\<lambda>s. fwLeased T s \<and> table (nftk s) = Some T)
     (bindM (attempt (Arm R bp sd i dm n)) (\<lambda>armed. case armed of
         Inr _ \<Rightarrow> ret i
       | Inl e \<Rightarrow> bindM (attempt (SaveDomain ''firewall'' (d\<lparr>Pending := None\<rparr>))) (\<lambda>_. raise (statusOf Internal e))))
     (\<lambda>_. fwLeased T) (fwSafe table T) (fwSafe table T)"
proof (rule hoare_bind [where R = "\<lambda>_ s. fwLeased T s \<and> table (nftk s) = Some T"])
  show "hoare (\<lambda>s. fwLeased T s \<and> table (nftk s) = Some T) (attempt (Arm R bp sd i dm n))
      (\<lambda>_ s. fwLeased T s \<and> table (nftk s) = Some T) (fwSafe table T) (fwSafe table T)"
    by (rule quiet_keeps [where table = table]) (auto intro: leased_safe)
  fix armed :: "unit result"
  have "hoare (\<lambda>s. fwLeased T s \<and> table (nftk s) = Some T) (attempt (SaveDomain ''firewall'' (d\<lparr>Pending := None\<rparr>)))
      (\<lambda>_. fwSafe table T) (fwSafe table T) (fwSafe table T)"
    by (rule hoare_attempt, rule hoare_weaken [OF fw.close_safe [where T = "Some T" and snapOf = contentSnap]])
      (auto intro: leased_safe)
  then show "hoare (\<lambda>s. fwLeased T s \<and> table (nftk s) = Some T) (case armed of
         Inr _ \<Rightarrow> ret i
       | Inl e \<Rightarrow> bindM (attempt (SaveDomain ''firewall'' (d\<lparr>Pending := None\<rparr>))) (\<lambda>_. raise (statusOf Internal e)))
     (\<lambda>_. fwLeased T) (fwSafe table T) (fwSafe table T)"
    by (cases armed) (auto intro: hoare_bind [OF hoare_raise] hoare_pre [OF hoare_ret])
qed

lemma begin_safe:
  assumes "extraDomains S = []" "ReqDomain req = ''firewall''"
  shows "hoare (\<lambda>s. fwSafe table T s \<and> contentSnap sn = table (nftk s))
    (beginApply S peer req sn) (\<lambda>_. fwLeased T) (fwSafe table T) (fwSafe table T)"
  unfolding beginApply_def Let_def assms(2) legacy_core [OF assms(1)]
proof (rule hoare_bind [OF _ load_keeps_snap])
  fix d
  let ?C = "\<lambda>s. fwSafe table T s \<and> fwView s = Some d \<and> Pending d = None \<and> contentSnap sn = Some T"
  let ?p = "\<lambda>i now. \<lparr>Applied = False, PendingID = i, Deadline = now + DeadManSwitchSeconds req * second,
     PSnapshot = sn, Target = DesiredStateJson req, Peer = (case peer of None \<Rightarrow> [] | Some a \<Rightarrow> a)\<rparr>"
  have q: "hoare ?C m (\<lambda>_. ?C) (fwSafe table T) (fwSafe table T)" if "quiet table m" for m :: "('a, 'b, 'c, 'x) hostprog"
    by (rule quiet_keeps [OF that]) simp_all
  note steps = hoare_bind [OF hoare_bind [OF hoare_bind [OF arm_or_close save_opens] q] q]
  show "hoare (\<lambda>s. fwSafe table T s \<and> fwView s = Some d \<and> contentSnap sn = table (nftk s))
    (if Pending d \<noteq> None
     then raise (Status FailedPrecondition ''domain already has an unconfirmed apply; wait for rollback'')
     else bindM (mintID S) (\<lambda>i. bindM Now (\<lambda>now.
       bindM (internal (SaveDomain ''firewall'' (d\<lparr>Pending := Some (?p i now)\<rparr>))) (\<lambda>_.
       bindM (attempt (Arm (sysdRunner S) (binaryPath S) (Some (storeDir S)) i ''firewall'' (DeadManSwitchSeconds req))) (\<lambda>armed.
         case armed of Inr _ \<Rightarrow> ret i
         | Inl e \<Rightarrow> bindM (attempt (SaveDomain ''firewall'' (d\<lparr>Pending := None\<rparr>))) (\<lambda>_. raise (statusOf Internal e)))))))
    (\<lambda>_. fwLeased T) (fwSafe table T) (fwSafe table T)"
    by (rule hoare_pre [OF hoare_if [OF hoare_raise [where E = "fwSafe table T"] steps]])
      (auto simp: safe_def)
qed

lemma load_open:
  "hoare (fwSafe table T) (internal (Domain ''firewall'' NftRuleset))
     (\<lambda>d s. fwSafe table T s \<and> fwView s = Some d) (fwSafe table T) (fwSafe table T)"
  unfolding internal_def by (rule hoare_remap, rule fw.load_safe)

lemma hoare_died: "hoare D (\<lambda>s. (Died, s)) Q E D"
  by (simp add: hoare_def)

lemma finish_safe:
  assumes "extraDomains S = []"
  shows "hoare (fwSafe table T) (finishApply S ''firewall'' i) (\<lambda>_. fwSafe table T) (fwSafe table T) (fwSafe table T)"
  unfolding finishApply_def legacy_core [OF assms]
proof (rule hoare_bind [OF hoare_bind [OF _ load_open]])
  show "hoare (fwSafe table T) (remap (statusOf DeadlineExceeded) (onNet ctxErr))
      (\<lambda>_. fwSafe table T) (fwSafe table T) (fwSafe table T)"
    by (rule quiet_safe) simp
  fix d
  show "hoare (\<lambda>s. fwSafe table T s \<and> fwView s = Some d)
    (case Pending d of None \<Rightarrow> \<lambda>s. (Died, s)
     | Some p \<Rightarrow> bindM (internal (SaveDomain ''firewall'' (d\<lparr>Pending := Some (p\<lparr>Applied := True\<rparr>)\<rparr>))) (\<lambda>_. ret i))
    (\<lambda>_. fwSafe table T) (fwSafe table T) (fwSafe table T)"
    unfolding internal_def
    by (cases "Pending d")
      (auto intro: hoare_pre [OF hoare_died] hoare_bind [OF hoare_ret]
        hoare_remap [OF hoare_pre [OF fw.mark_safe]])
qed

text \<open>Replay of the snapshot of an open lease, then the record without the lease.\<close>

lemma rollback_safe:
  assumes "nftDocumented r table" "Pending d = Some p"
  shows "hoare (\<lambda>s. fwSafe table T s \<and> fwView s = Some d)
    (bindM (Restore (execNft r) (PSnapshot p)) (\<lambda>_. SaveDomain ''firewall'' (d\<lparr>Pending := None\<rparr>)))
    (\<lambda>_ s. fwSafe table T s \<and> table (nftk s) = Some T) (fwSafe table T) (fwSafe table T)"
proof (rule hoare_bind)
  show "hoare (\<lambda>s. fwSafe table T s \<and> fwView s = Some d) (Restore (execNft r) (PSnapshot p))
      (\<lambda>_ s. fwSafe table T s \<and> table (nftk s) = Some T) (fwSafe table T) (fwSafe table T)"
    by (rule hoare_pre [OF Restore_safe [OF assms(1)]]) (use assms(2) in \<open>auto simp: safe_def fwLeased_def\<close>)
  show "hoare (\<lambda>s. fwSafe table T s \<and> table (nftk s) = Some T) (SaveDomain ''firewall'' (d\<lparr>Pending := None\<rparr>))
      (\<lambda>_ s. fwSafe table T s \<and> table (nftk s) = Some T) (fwSafe table T) (fwSafe table T)"
  proof (rule hoare_stepI)
    fix s q t
    assume pre: "fwSafe table T s \<and> table (nftk s) = Some T"
      and run: "SaveDomain ''firewall'' (d\<lparr>Pending := None\<rparr>) s = (q, t)"
    have "fwSafe table T t"
      by (rule fw.save_safe [OF run]) (use pre in auto)
    then show "case q of Done u \<Rightarrow> fwSafe table T t \<and> table (nftk t) = Some T
        | Err e \<Rightarrow> fwSafe table T t | Died \<Rightarrow> fwSafe table T t"
      using SaveDomain_frame(1) [OF run] pre by (auto split: outcome.splits)
  qed
qed

lemma remap_bind: "remap f (bindM m k) = bindM (remap f m) (\<lambda>a. remap f (k a))"
  by (rule ext) (auto simp: remap_def bindM_def split: prod.splits outcome.splits)

lemma restore_firewall: "restoreFor S ''firewall'' snap = Restore (execNft (nftRunner S)) snap"
  by (simp add: restoreFor_def domainFirewall_def)

lemma recoverExpired_safe:
  assumes "nftDocumented (nftRunner S) table" "extraDomains S = []"
  shows "hoare (fwSafe table T) (recoverExpired S ''firewall'') (\<lambda>_. fwSafe table T) (fwSafe table T) (fwSafe table T)"
  unfolding recoverExpired_def legacy_core [OF assms(2)]
proof (rule hoare_bind [OF _ load_open])
  fix d
  let ?P = "\<lambda>s. fwSafe table T s \<and> fwView s = Some d"
  have roll: "hoare ?P (bindM (internal (restoreFor S ''firewall'' (PSnapshot p))) (\<lambda>_.
      internal (SaveDomain ''firewall'' (d\<lparr>Pending := None\<rparr>)))) (\<lambda>_. fwSafe table T) (fwSafe table T) (fwSafe table T)"
    if "Pending d = Some p" for p
    unfolding internal_def remap_bind [symmetric] restore_firewall
    by (rule hoare_remap, rule hoare_weaken [OF rollback_safe [OF assms(1) that]]) auto
  have now: "hoare ?P Now (\<lambda>_. ?P) (fwSafe table T) (fwSafe table T)"
    by (rule quiet_keeps [where table = table]) simp_all
  show "hoare ?P (case Pending d of None \<Rightarrow> ret ()
     | Some p \<Rightarrow> bindM Now (\<lambda>now.
         if now < Deadline p then raise (Status FailedPrecondition ''domain has unconfirmed lease'')
         else if PSnapshot p = NoBytes
         then raise (Status Internal ''expired lease has no rollback snapshot; pending record retained'')
         else bindM (internal (restoreFor S ''firewall'' (PSnapshot p))) (\<lambda>_.
           internal (SaveDomain ''firewall'' (d\<lparr>Pending := None\<rparr>)))))
    (\<lambda>_. fwSafe table T) (fwSafe table T) (fwSafe table T)"
    by (cases "Pending d")
      (auto intro!: hoare_pre [OF hoare_ret] hoare_bind [OF _ now] hoare_pre [OF hoare_raise] roll)
qed

lemma applyFirewall_safe:
  assumes "nftDocumented (nftRunner S) table" "extraDomains S = []" "ReqDomain req = ''firewall''"
  shows "hoare (fwSafe table T) (applyFirewall S peer req) (\<lambda>_. fwSafe table T) (fwSafe table T) (fwSafe table T)"
proof -
  let ?I = "fwSafe table T"
  have commit: "hoare (fwLeased T) (internal (Commit (execNft (nftRunner S)) sc)) (\<lambda>_. ?I) ?I ?I" for sc
    unfolding internal_def
    by (rule hoare_remap, rule hoare_weaken [OF leased_Commit]) (auto intro: leased_safe)
  let ?R = "\<lambda>raw s. ?I s \<and> (\<forall>sn. OwnedRuleset raw = Inr sn \<longrightarrow> contentSnap sn = table (nftk s))"
  have own: "hoare (?R raw) (internal (liftR (OwnedRuleset raw)))
      (\<lambda>sn s. ?I s \<and> contentSnap sn = table (nftk s)) ?I ?I" for raw
    unfolding internal_def by (rule hoare_remap, rule hoare_pre [OF hoare_liftR]) auto
  have coex: "hoare (?R raw) (if c then remap (statusOf FailedPrecondition) (liftR x) else ret ())
      (\<lambda>_. ?R raw) ?I ?I" for raw c x
    by (rule quiet_keeps [where table = table]) (auto simp: stable_def intro: safe_same)
  have read: "hoare ?I (internal (ReadRulesetJSON (execNft (nftRunner S)))) ?R ?I ?I"
    unfolding internal_def by (rule hoare_remap, rule ReadRuleset_shows [OF assms(1)])
  show ?thesis
    unfolding applyFirewall_def Let_def domainFirewall_def assms(3)
    by (rule hoare_bind [OF hoare_bind [OF hoare_bind [OF hoare_bind [OF hoare_bind [OF hoare_bind
          [OF hoare_bind [OF hoare_bind [OF hoare_bind [OF finish_safe [OF assms(2)] commit]
          begin_safe [OF assms(2,3)]] own] coex] read] recoverExpired_safe [OF assms(1,2)]]
          quiet_safe] quiet_safe] quiet_safe])
      (simp_all add: invalid_def ValidateSyntax_quiet [OF assms(1)])
qed

end
