(* ===== verification/Dead_Man_Switch.thy ===== *)
theory Dead_Man_Switch
  imports Firewall_Safety
begin

text \<open>
  The firewall domain under every sequence of events: requests, confirmations, timers that
  fire late or twice, restarts, deaths of the process at any point, and other programs that
  change the kernel.  The network domain shares the store but never disturbs the firewall.
\<close>

section \<open>The network domain is quiet\<close>

lemma quiet_Domain [simp]: "quiet table (Domain domain legacy)"
  unfolding quiet_def
  by (intro allI impI conjI viewOf_cong) (auto dest: Domain_frame(1) Domain_reads(1))

lemma quiet_SaveDomain_net [simp]: "quiet table (SaveDomain ''netconfig'' d)"
  unfolding quiet_def by (auto dest: SaveDomain_other SaveDomain_frame(1))

lemma quiet_internal [simp]: "quiet table m \<Longrightarrow> quiet table (internal m)"
  "quiet table m \<Longrightarrow> quiet table (invalid m)"
  by (simp_all add: internal_def invalid_def)

lemma quiet_died [simp]: "quiet table (\<lambda>s. (Died, s))"
  by (simp add: quiet_def)

lemma quiet_if: "(c \<Longrightarrow> quiet table m) \<Longrightarrow> (\<not> c \<Longrightarrow> quiet table m') \<Longrightarrow> quiet table (if c then m else m')"
  by simp

lemma quiet_option:
  "quiet table m \<Longrightarrow> (\<And>x. quiet table (m' x)) \<Longrightarrow> quiet table (case y of None \<Rightarrow> m | Some x \<Rightarrow> m' x)"
  by (cases y) simp_all

lemma quiet_sum:
  "(\<And>e. quiet table (m e)) \<Longrightarrow> (\<And>x. quiet table (m' x)) \<Longrightarrow>
   quiet table (case y of Inl e \<Rightarrow> m e | Inr x \<Rightarrow> m' x)"
  by (cases y) simp_all

lemmas quiet_rules = quiet_bind quiet_if quiet_option quiet_sum

lemma quiet_recover_net:
  assumes "extraDomains S = []"
  shows "quiet table (recoverExpired S ''netconfig'')"
proof -
  have "restoreFor S ''netconfig'' sn = onNet (NetRollback (netRunner S) sn)" for sn
    by (simp add: restoreFor_def assms domainFirewall_def)
  then show ?thesis
    unfolding recoverExpired_def by (intro quiet_rules quiet_internal) simp_all
qed

lemma quiet_begin_net:
  "ReqDomain req = ''netconfig'' \<Longrightarrow> quiet table (beginApply S peer req sn)"
  unfolding beginApply_def Let_def by (intro quiet_rules) simp_all

lemma quiet_finish_net: "quiet table (finishApply S ''netconfig'' i)"
  unfolding finishApply_def by (intro quiet_rules) simp_all

lemma quiet_applyNetconfig:
  assumes "extraDomains S = []" "ReqDomain req = ''netconfig''"
  shows "quiet table (applyNetconfig S peer req)"
  unfolding applyNetconfig_def assms(2) domainNetconfig_def
  by (intro quiet_rules quiet_begin_net quiet_recover_net quiet_finish_net) (simp_all add: assms)

section \<open>Requests\<close>

lemma hoare_if_same:
  "hoare P m Q E D \<Longrightarrow> hoare P m' Q E D \<Longrightarrow> hoare P (if c then m else m') Q E D"
  by simp

lemma Apply_safe:
  assumes "nftDocumented (nftRunner S) table" "extraDomains S = []"
  shows "hoare (fwSafe table T) (Apply S peer req) (\<lambda>_. fwSafe table T) (fwSafe table T) (fwSafe table T)"
proof -
  let ?I = "fwSafe table T"
  have dispatch: "hoare ?I
      (if ReqDomain req = ''firewall-output-v1'' \<or> ReqDomain req = ''firewall-redirect-v1''
       then applyFirewall S peer (req\<lparr>ReqDomain := domainFirewall\<rparr>)
       else if ReqDomain req = domainFirewall then applyFirewall S peer req
       else if ReqDomain req = domainNetconfig then applyNetconfig S peer req
       else case map_of (extraDomains S) (ReqDomain req) of
         Some d \<Rightarrow> implApply d peer req
       | None \<Rightarrow> raise (Status InvalidArgument ''rpc: domain must be one of the built-in domains''))
      (\<lambda>_. ?I) ?I ?I"
    by (auto simp: domainFirewall_def domainNetconfig_def assms(2)
        intro: applyFirewall_safe [OF assms] quiet_safe [OF quiet_applyNetconfig [OF assms(2)]] quiet_safe)
  show ?thesis
    unfolding Apply_def
    by (rule hoare_if_same [OF quiet_safe hoare_bind [OF hoare_bind [OF hoare_if_same
          [OF quiet_safe hoare_bind [OF dispatch quiet_safe]] quiet_safe] quiet_safe]]) simp_all
qed

text \<open>A confirmation keeps the promise, unless it closes the lease.\<close>

definition fwOpen :: "('y, 'n, 'k) host \<Rightarrow> bool" where
  "fwOpen s = (case fwView s of Some d \<Rightarrow> Pending d \<noteq> None | None \<Rightarrow> False)"

abbreviation fwKept :: "('k \<Rightarrow> json option) \<Rightarrow> json \<Rightarrow> ('y, 'n, 'k) host \<Rightarrow> bool" where
  "fwKept table T s \<equiv> fwSafe table T s \<or> \<not> fwOpen s"

lemma stable_kept [simp]: "stable table (fwKept table T)"
  by (auto simp: stable_def fwOpen_def intro: safe_same)

lemma kept_quiet: "quiet table m \<Longrightarrow> hoare (fwKept table T) m (\<lambda>_. fwKept table T) (fwKept table T) (fwKept table T)"
  by (rule quiet_keeps [where table = table]) simp_all

lemma kept_confirmSave:
  "hoare (fwKept table T) (internal (SaveDomain ''firewall'' \<lparr>Confirmed = c, Pending = None\<rparr>))
     (\<lambda>_. fwKept table T) (fwKept table T) (fwKept table T)"
  unfolding internal_def
proof (rule hoare_remap, rule hoare_stepI)
  fix s q t
  assume pre: "fwKept table T s"
    and run: "SaveDomain ''firewall'' \<lparr>Confirmed = c, Pending = None\<rparr> s = (q, t)"
  have live: "table (nftk t) = table (nftk s)"
    using SaveDomain_frame(1) [OF run] by simp
  have "fwKept table T t"
    using fw.save_either [OF run]
  proof
    assume same: "fwView t = fwView s"
    then show ?thesis
      using pre live safe_same [where view = fwView and live = "\<lambda>s. table (nftk s)" and s = s and t = t]
      by (auto simp: fwOpen_def)
  qed (simp add: fwOpen_def)
  then show "case q of Done u \<Rightarrow> fwKept table T t | Err e \<Rightarrow> fwKept table T t | Died \<Rightarrow> fwKept table T t"
    by (simp split: outcome.splits)
qed

lemma kept_save:
  assumes "domain \<in> {''firewall'', ''netconfig''}"
  shows "hoare (fwKept table T) (internal (SaveDomain domain \<lparr>Confirmed = c, Pending = None\<rparr>))
     (\<lambda>_. fwKept table T) (fwKept table T) (fwKept table T)"
  using assms by (auto intro: kept_confirmSave kept_quiet)

lemma quiet_confirmedBytes:
  assumes "nftDocumented (nftRunner S) table"
  shows "quiet table (confirmedBytes S domain p)"
  unfolding confirmedBytes_def
  by (intro quiet_rules quiet_internal) (simp_all add: ReadRuleset_quiet [OF assms])

lemma confirmDomain_kept:
  assumes "nftDocumented (nftRunner S) table" "domain \<in> {''firewall'', ''netconfig''}"
  shows "hoare (fwKept table T) (confirmDomain S addr i domain d p)
    (\<lambda>_. fwKept table T) (fwKept table T) (fwKept table T)"
proof -
  note q = kept_quiet [where table = table and T = T]
  have tail: "hoare (fwKept table T)
      (bindM (remap (statusOf FailedPrecondition) (onNet ctxErr)) (\<lambda>_.
       bindM (internal (SaveDomain domain \<lparr>Confirmed = c, Pending = None\<rparr>)) (\<lambda>_.
       bindM (attempt (Cancel (sysdRunner S) i)) (\<lambda>_. ret True))))
      (\<lambda>_. fwKept table T) (fwKept table T) (fwKept table T)" for c
    by (rule hoare_bind [OF hoare_bind [OF q kept_save [OF assms(2)]] q])
      (simp_all add: quiet_bind)
  show ?thesis
    unfolding confirmDomain_def
    by (rule hoare_bind [OF hoare_if_same [OF q hoare_if_same [OF q hoare_if_same [OF q
          hoare_bind [OF hoare_bind [OF hoare_if_same [OF q tail] q] q]]]] q])
      (simp_all add: quiet_confirmedBytes [OF assms(1)])
qed

lemma confirmIn_kept:
  assumes "nftDocumented (nftRunner S) table" "set ds \<subseteq> {''firewall'', ''netconfig''}"
  shows "hoare (fwKept table T) (confirmIn S addr i ds)
    (\<lambda>_. fwKept table T) (fwKept table T) (fwKept table T)"
  using assms(2)
proof (induction ds)
  case Nil
  show ?case by (simp add: kept_quiet)
next
  case (Cons dm ds)
  show ?case
    unfolding confirmIn.simps
    by (rule hoare_bind [OF _ kept_quiet])
      (use Cons confirmDomain_kept [OF assms(1)] in \<open>auto split: option.splits\<close>)
qed

lemma Confirm_kept:
  assumes "nftDocumented (nftRunner S) table" "extraDomains S = []"
  shows "hoare (fwKept table T) (Confirm S peer i) (\<lambda>_. fwKept table T) (fwKept table T) (fwKept table T)"
proof -
  have c: "hoare (fwKept table T) (confirmIn S addr i ([domainFirewall, domainNetconfig] @ extraDomainNames S))
      (\<lambda>_. fwKept table T) (fwKept table T) (fwKept table T)" for addr
    by (rule confirmIn_kept [OF assms(1)])
      (simp add: extraDomainNames_def assms domainFirewall_def domainNetconfig_def)
  show ?thesis
    unfolding Confirm_def
    by (rule hoare_if_same [OF kept_quiet hoare_bind [OF hoare_bind [OF hoare_if_same
          [OF kept_quiet hoare_bind [OF c kept_quiet]] kept_quiet] kept_quiet]]) simp_all
qed

section \<open>Timers and restarts\<close>

lemma recoverRestore_core:
  "recoverRestore [] nftR netR ''firewall'' sn b = Restore (execNft nftR) sn"
  "domain \<noteq> ''firewall'' \<Longrightarrow> recoverRestore [] nftR netR domain sn b =
     (if b then onNet (NetRollback netR sn) else onNet (NetRestore netR sn))"
  by (simp_all add: recoverRestore_def)

lemma recoverKey_core:
  "recoverKey [] ''firewall'' = Inr NftRuleset"
  "domain \<noteq> ''firewall'' \<Longrightarrow> domain \<noteq> ''netconfig'' \<Longrightarrow> recoverKey [] domain = Fail ''unknown domain''"
  by (simp_all add: recoverKey_def)

lemma bind_lift: "bindM (liftR (Inr a)) k = k a" "bindM (liftR (Inl e)) k = raise e"
  by (rule ext, simp add: prog_defs)+

lemma recoverDomain_firewall:
  "recoverDomain [] nftR netR ''firewall'' i =
     bindM (Domain ''firewall'' NftRuleset) (\<lambda>d. case Pending d of
       Some p \<Rightarrow> if i = [] \<or> PendingID p = i
         then bindM (Restore (execNft nftR) (PSnapshot p)) (\<lambda>_. SaveDomain ''firewall'' (d\<lparr>Pending := None\<rparr>))
         else ret ()
     | None \<Rightarrow> if i \<noteq> [] then ret () else Restore (execNft nftR) (Confirmed d))"
  unfolding recoverDomain_def recoverKey_core bind_lift recoverRestore_core by (rule refl)

lemma quiet_recoverDomain:
  assumes "domain \<noteq> ''firewall''"
  shows "quiet table (recoverDomain [] nftR netR domain i)"
proof (cases "domain = ''netconfig''")
  case True
  show ?thesis
    unfolding recoverDomain_def True by (intro quiet_rules) (simp_all add: recoverRestore_core)
next
  case False
  show ?thesis
    unfolding recoverDomain_def recoverKey_core(2) [OF assms False] bind_lift by simp
qed

lemma revert_safe:
  assumes "nftDocumented r table" "i \<noteq> []"
  shows "hoare (fwSafe table T) (runRevert [] r netR i domain)
    (\<lambda>_. fwSafe table T) (fwSafe table T) (fwSafe table T)"
proof -
  have "hoare (fwSafe table T) (recoverDomain [] r netR domain i)
      (\<lambda>_. fwSafe table T) (fwSafe table T) (fwSafe table T)"
  proof (cases "domain = ''firewall''")
    case True
    show ?thesis
      unfolding True recoverDomain_firewall
      by (rule hoare_bind [OF _ fw.load_safe])
        (auto simp: assms(2) split: option.splits intro: hoare_pre [OF hoare_ret]
          hoare_weaken [OF rollback_safe [OF assms(1)]])
  qed (simp add: quiet_safe quiet_recoverDomain)
  then show ?thesis
    unfolding runRevert_def by (rule hoare_bind [OF _ quiet_safe]) simp
qed

lemma quiet_observe: "quiet table (prepareDomain [] r netR True domain)"
  unfolding prepareDomain_def by (intro quiet_rules) simp_all

lemma Domain_view: "Domain domain legacy s = (a, t) \<Longrightarrow> fwView t = fwView s"
  by (rule viewOf_cong) (simp_all add: Domain_reads(1))

lemma hoare_never: "(\<And>s. \<not> P s) \<Longrightarrow> hoare P m Q E D"
  by (simp add: hoare_def)

text \<open>A restart with an open lease rolls it back; without one it replays what was confirmed.\<close>

lemma boot_open:
  assumes "nftDocumented r table"
  shows "hoare (\<lambda>s. fwSafe table T s \<and> fwOpen s) (recoverDomain [] r netR ''firewall'' [])
    (\<lambda>_. fwSafe table T) (fwSafe table T) (fwSafe table T)"
proof -
  have load: "hoare (\<lambda>s. fwSafe table T s \<and> fwOpen s) (Domain ''firewall'' NftRuleset)
      (\<lambda>d s. fwSafe table T s \<and> fwView s = Some d \<and> Pending d \<noteq> None) (fwSafe table T) (fwSafe table T)"
  proof (rule hoare_stepI)
    fix s a t
    assume pre: "fwSafe table T s \<and> fwOpen s" and run: "Domain ''firewall'' NftRuleset s = (a, t)"
    have k: "fwView t = fwView s" "table (nftk t) = table (nftk s)"
      using fw.load_keeps [OF run] by auto
    have "fwSafe table T t"
      by (rule safe_same [OF _ k]) (use pre in simp)
    then show "case a of Done d \<Rightarrow> fwSafe table T t \<and> fwView t = Some d \<and> Pending d \<noteq> None
        | Err e \<Rightarrow> fwSafe table T t | Died \<Rightarrow> fwSafe table T t"
      using k fw.load_sees pre run by (auto simp: fwOpen_def split: outcome.splits)
  qed
  have step: "hoare (\<lambda>s. fwSafe table T s \<and> fwView s = Some d \<and> Pending d \<noteq> None)
      (case Pending d of
         Some p \<Rightarrow> if [] = [] \<or> PendingID p = []
           then bindM (Restore (execNft r) (PSnapshot p)) (\<lambda>_. SaveDomain ''firewall'' (d\<lparr>Pending := None\<rparr>))
           else ret ()
       | None \<Rightarrow> if [] \<noteq> [] then ret () else Restore (execNft r) (Confirmed d))
      (\<lambda>_. fwSafe table T) (fwSafe table T) (fwSafe table T)" for d
  proof (cases "Pending d")
    case (Some p)
    show ?thesis
      using Some by (simp, intro hoare_weaken [OF rollback_safe [OF assms Some]]) auto
  qed (simp add: hoare_never)
  show ?thesis
    unfolding recoverDomain_firewall by (rule hoare_bind [OF step load])
qed

lemma boot_closed:
  "hoare (\<lambda>s. \<not> fwOpen s) (recoverDomain [] r netR ''firewall'' [])
     (\<lambda>_ s. \<not> fwOpen s) (\<lambda>s. \<not> fwOpen s) (\<lambda>s. \<not> fwOpen s)"
proof -
  have load: "hoare (\<lambda>s. \<not> fwOpen s) (Domain ''firewall'' NftRuleset)
      (\<lambda>d s. \<not> fwOpen s \<and> Pending d = None) (\<lambda>s. \<not> fwOpen s) (\<lambda>s. \<not> fwOpen s)"
    by (rule hoare_stepI)
      (auto simp: fwOpen_def split: outcome.splits dest: Domain_view Domain_reads(3) [OF _ refl])
  have step: "hoare (\<lambda>s. \<not> fwOpen s \<and> Pending d = None)
      (case Pending d of
         Some p \<Rightarrow> if [] = [] \<or> PendingID p = []
           then bindM (Restore (execNft r) (PSnapshot p)) (\<lambda>_. SaveDomain ''firewall'' (d\<lparr>Pending := None\<rparr>))
           else ret ()
       | None \<Rightarrow> if [] \<noteq> [] then ret () else Restore (execNft r) (Confirmed d))
      (\<lambda>_ s. \<not> fwOpen s) (\<lambda>s. \<not> fwOpen s) (\<lambda>s. \<not> fwOpen s)" for d
  proof (cases "Pending d")
    case None
    show ?thesis
      by (rule hoare_stepI) (use None in \<open>auto simp: fwOpen_def dest: Restore_view split: outcome.splits\<close>)
  qed (simp add: hoare_never)
  show ?thesis
    unfolding recoverDomain_firewall by (rule hoare_bind [OF step load])
qed

section \<open>Every sequence of events\<close>

text \<open>
  One event on a host, with the baseline of the firewall beside it.  Only a confirmation that
  closes a lease, a restart without a lease, and a change by another program without a lease
  set a new baseline.  In \<open>outside\<close> anything but the store may change: the kernel, the process
  memory, the clock, the failures to come.
\<close>

inductive fwStep ::
  "('y, 'n, 'k) server \<Rightarrow> ('k \<Rightarrow> json option) \<Rightarrow>
   ('y, 'n, 'k) host \<times> json \<Rightarrow> ('y, 'n, 'k) host \<times> json \<Rightarrow> bool"
  for S table where
  applied: "Apply S peer req s = (r, t) \<Longrightarrow> fwStep S table (s, T) (t, T)"
| confirmed: "Confirm S peer i s = (r, t) \<Longrightarrow> (if fwOpen t then T' = T else table (nftk t) = Some T') \<Longrightarrow>
    fwStep S table (s, T) (t, T')"
| reverted: "i \<noteq> [] \<Longrightarrow> runRevert [] (nftRunner S) (netRunner S) i domain s = (r, t) \<Longrightarrow>
    fwStep S table (s, T) (t, T)"
| restarted: "bootRestore [] (nftRunner S) (netRunner S) False s = (r, t) \<Longrightarrow>
    (if fwOpen s then T' = T else table (nftk t) = Some T') \<Longrightarrow> fwStep S table (s, T) (t, T')"
| outside: "disk t = disk s \<Longrightarrow> (if fwOpen s then T' = T else table (nftk t) = Some T') \<Longrightarrow>
    fwStep S table (s, T) (t, T')"

lemma fwStep_elim [consumes 1, case_names applied confirmed reverted restarted outside]:
  assumes "fwStep S table (s, T) (t, T')"
    "\<And>peer req r. Apply S peer req s = (r, t) \<Longrightarrow> T' = T \<Longrightarrow> P"
    "\<And>peer i r. Confirm S peer i s = (r, t) \<Longrightarrow> (if fwOpen t then T' = T else table (nftk t) = Some T') \<Longrightarrow> P"
    "\<And>i domain r. i \<noteq> [] \<Longrightarrow> runRevert [] (nftRunner S) (netRunner S) i domain s = (r, t) \<Longrightarrow> T' = T \<Longrightarrow> P"
    "\<And>r. bootRestore [] (nftRunner S) (netRunner S) False s = (r, t) \<Longrightarrow>
       (if fwOpen s then T' = T else table (nftk t) = Some T') \<Longrightarrow> P"
    "disk t = disk s \<Longrightarrow> (if fwOpen s then T' = T else table (nftk t) = Some T') \<Longrightarrow> P"
  shows P
  using assms(1)
proof (cases rule: fwStep.cases)
  case applied
  then show ?thesis by (intro assms(2)) simp_all
next
  case confirmed
  then show ?thesis by (intro assms(3)) simp_all
next
  case reverted
  then show ?thesis by (intro assms(4)) simp_all
next
  case restarted
  then show ?thesis by (intro assms(5)) simp_all
next
  case outside
  then show ?thesis by (intro assms(6)) simp_all
qed

lemma closed_safe: "\<not> fwOpen t \<Longrightarrow> table (nftk t) = Some T \<Longrightarrow> fwSafe table T t"
  by (auto simp: safe_def fwOpen_def split: option.splits)

lemma quiet_open: "quiet table m \<Longrightarrow> m s = (r, t) \<Longrightarrow> fwOpen t = fwOpen s"
  by (simp add: quiet_def fwOpen_def)

lemma stable_open [simp]: "stable table fwOpen" "stable table (\<lambda>s. \<not> fwOpen s)"
  by (simp_all add: stable_def fwOpen_def)

lemma boot_steps:
  assumes "hoare P (recoverDomain [] r netR ''firewall'' []) (\<lambda>_. Q) Q Q" "stable table P" "stable table Q"
    "\<And>s. P s \<Longrightarrow> Q s"
  shows "hoare P (bootRestore [] r netR False) (\<lambda>_. Q) Q Q"
proof -
  have q: "hoare Q (remap f (recoverDomain [] r netR ''netconfig'' [])) (\<lambda>_. Q) Q Q" for f
    by (rule quiet_keeps [where table = table]) (simp_all add: assms quiet_recoverDomain)
  have l: "hoare P Lock (\<lambda>_. P) Q Q"
    by (rule quiet_keeps [where table = table]) (simp_all add: assms)
  show ?thesis
    unfolding bootRestore_def allDomains_def prepareDomain_def
    by (simp, intro hoare_bind [OF hoare_bind [OF hoare_bind [OF hoare_ret q] hoare_remap] l] assms(1))
qed

lemma restart_safe:
  assumes "nftDocumented r table"
  shows "hoare (\<lambda>s. fwSafe table T s \<and> fwOpen s) (bootRestore [] r netR False)
      (\<lambda>_. fwSafe table T) (fwSafe table T) (fwSafe table T)"
    and "hoare (\<lambda>s. \<not> fwOpen s) (bootRestore [] r netR False)
      (\<lambda>_ s. \<not> fwOpen s) (\<lambda>s. \<not> fwOpen s) (\<lambda>s. \<not> fwOpen s)"
  by (rule boot_steps [where table = table, OF boot_open [OF assms]], simp, simp, simp)
    (rule boot_steps [where table = table, OF boot_closed], simp, simp, simp)

lemma hoare_end:
  assumes "hoare P m (\<lambda>_. I) I I" "P s" "m s = (r, t)"
  shows "I t"
  using hoare_all [OF assms(1,2)] assms(3) by simp

lemma outside_safe:
  assumes "fwSafe table T s" "disk t = disk s" "if fwOpen s then T' = T else table (nftk t) = Some T'"
  shows "fwSafe table T' t"
proof -
  have v: "fwView t = fwView s"
    by (rule viewOf_cong) (simp_all add: assms(2))
  then have o: "fwOpen t = fwOpen s"
    by (simp add: fwOpen_def)
  show ?thesis
  proof (cases "fwOpen s")
    case True
    then show ?thesis
      using assms(1,3) v by (auto simp: safe_def fwOpen_def split: option.splits)
  qed (use assms(3) o in \<open>simp add: closed_safe\<close>)
qed

lemma fwStep_safe:
  assumes "nftDocumented (nftRunner S) table" "extraDomains S = []" "fwStep S table (s, T) (t, T')"
    "fwSafe table T s"
  shows "fwSafe table T' t"
  using assms(3)
proof (cases rule: fwStep_elim)
  case (applied peer req r)
  then show ?thesis
    using hoare_end [OF Apply_safe [OF assms(1,2)] assms(4) applied(1)] by simp
next
  case (confirmed peer i r)
  have "fwKept table T t"
    by (rule hoare_end [OF Confirm_kept [OF assms(1,2)] _ confirmed(1)]) (simp add: assms(4))
  then show ?thesis
    using confirmed(2) closed_safe [of t table T'] by (cases "fwOpen t") simp_all
next
  case (reverted i domain r)
  then show ?thesis
    using hoare_end [OF revert_safe [OF assms(1) reverted(1)] assms(4) reverted(2)] by simp
next
  case (restarted r)
  show ?thesis
  proof (cases "fwOpen s")
    case True
    then show ?thesis
      using hoare_end [OF restart_safe(1) [OF assms(1), where T = T] _ restarted(1)] assms(4) restarted(2) by simp
  next
    case False
    then have "\<not> fwOpen t"
      using hoare_end [OF restart_safe(2) [OF assms(1)] _ restarted(1)] by simp
    then show ?thesis
      using False restarted(2) by (simp add: closed_safe)
  qed
next
  case outside
  then show ?thesis
    using outside_safe [OF assms(4)] by blast
qed

lemma fwSteps_safe:
  assumes "nftDocumented (nftRunner S) table" "extraDomains S = []"
    "(fwStep S table)\<^sup>*\<^sup>* a b" "fwSafe table (snd a) (fst a)"
  shows "fwSafe table (snd b) (fst b)"
  using assms(3,4)
proof (induction rule: rtranclp_induct)
  case (step b c)
  then show ?case
    using fwStep_safe [OF assms(1,2), of "fst b" "snd b" "fst c" "snd c"] by simp
qed simp

section \<open>The runs of the revert process\<close>

lemma Lock_frame: "Lock s = (r, t) \<Longrightarrow> disk t = disk s \<and> domains t = domains s"
  by (auto simp: Lock_def Let_def split: list.splits bool.splits)

lemma Lock_parts:
  fixes s :: "('y, 'n, 'k) host"
  shows "Lock s = (r, t) \<Longrightarrow> nftk t = nftk s \<and> net t = net s"
  by (auto simp: Lock_def Let_def split: list.splits bool.splits)

lemma revert_done:
  assumes "nftDocumented r table" "fwView s = Some d" "Pending d = Some p"
    "contentSnap (PSnapshot p) = Some T" "runRevert [] r netR (PendingID p) ''firewall'' s = (Done u, t)"
  shows "table (nftk t) = Some T \<and> fwView t = Some (d\<lparr>Pending := None\<rparr>)"
proof -
  obtain s1 where l: "Lock s = (Done (), s1)" "recoverDomain [] r netR ''firewall'' (PendingID p) s1 = (Done u, t)"
    using assms(5) by (auto simp: runRevert_def bindM_Done)
  have v1: "fwView s1 = fwView s"
    using Lock_frame [OF l(1)] by (intro viewOf_cong) simp_all
  obtain d' s2 where dom: "Domain ''firewall'' NftRuleset s1 = (Done d', s2)"
    and rest: "(case Pending d' of
         Some q \<Rightarrow> if PendingID p = [] \<or> PendingID q = PendingID p
           then bindM (Restore (execNft r) (PSnapshot q)) (\<lambda>_. SaveDomain ''firewall'' (d'\<lparr>Pending := None\<rparr>))
           else ret ()
       | None \<Rightarrow> if PendingID p \<noteq> [] then ret () else Restore (execNft r) (Confirmed d')) s2 = (Done u, t)"
    using l(2) unfolding recoverDomain_firewall by (auto simp: bindM_Done)
  have "d' = d"
    using Domain_reads(3) [OF dom refl] v1 assms(2) by simp
  then obtain s3 where res: "Restore (execNft r) (PSnapshot p) s2 = (Done (), s3)"
    and sav: "SaveDomain ''firewall'' (d\<lparr>Pending := None\<rparr>) s3 = (Done u, t)"
    using rest assms(3) by (auto simp: bindM_Done)
  have "table (nftk t) = Some T"
    using Restore_installs [OF assms(1) res assms(4)] SaveDomain_frame(1) [OF sav] by simp
  moreover have "fwView t = Some (d\<lparr>Pending := None\<rparr>)"
    using SaveDomain_writes(2) [OF sav fw_names] by (simp add: cleanDomain_def)
  ultimately show ?thesis ..
qed

text \<open>Without failures the revert process does return.\<close>

definition faultless :: "('y, 'n, 'k) host \<Rightarrow> bool" where
  "faultless s \<longleftrightarrow> saveFaults s = [] \<and> loadFaults s = [] \<and> lockFaults s = []"

lemma Lock_ok: "lockFaults s = [] \<Longrightarrow> Lock s = (Done (), s)"
  by (simp add: Lock_def Let_def)

lemma Load_ok: "loadFaults s = [] \<Longrightarrow> Load n s = (Done (blobAt s n), s)"
  by (simp add: Load_def blobAt_def Let_def)

lemma Domain_ok:
  assumes "loadFaults s = []" "domain \<in> set (domains s)" "viewOf domain legacy s = Some d"
  shows "Domain domain legacy s = (Done d, s)"
  using assms
  by (auto simp: Domain_def domainFile_def bindM_def getS_def Load_ok viewOf_def recordFile_def Let_def
      ret_def liftR_def raise_def split: if_splits sum.splits)

lemma SaveDomain_ok:
  assumes "saveFaults s = []" "domain \<in> set (domains s)"
  shows "\<exists>t. SaveDomain domain d s = (Done (), t)"
  using assms by (simp add: SaveDomain_def domainFile_def prog_defs Save_def Let_def)

lemma Restore_ok:
  assumes "contentSnap snap = Some T" "r [''nft'', ''-j'', ''-f'', ''-''] (Json T) (nftk s) = (Replied b, k)"
  shows "Restore (execNft r) snap s = (Done (), s\<lparr>nftk := k\<rparr>)"
proof -
  obtain owned dump where o: "OwnedRuleset snap = Inr owned" "bindR (unmarshal owned) (decDump []) = Inr dump"
    "restoreScript dump = Inr T"
    using assms(1) by (auto simp: contentSnap_def bindR_Inr split: sum.splits)
  have "snap \<noteq> NoBytes"
    using o(1) by (auto simp: OwnedRuleset_def unmarshal_def)
  then show ?thesis
    using o assms(2) by (simp add: Restore_def prog_defs execNft_def runOn_def)
qed

lemma revert_returns:
  assumes "faultless s" "''firewall'' \<in> set (domains s)" "fwView s = Some d" "Pending d = Some p"
    "contentSnap (PSnapshot p) = Some T"
    "r [''nft'', ''-j'', ''-f'', ''-''] (Json T) (nftk s) = (Replied b, k)"
  shows "\<exists>t. runRevert [] r netR (PendingID p) ''firewall'' s = (Done (), t)"
proof -
  have f: "lockFaults s = []" "loadFaults s = []" "saveFaults s = []"
    using assms(1) by (auto simp: faultless_def)
  obtain t where "SaveDomain ''firewall'' (d\<lparr>Pending := None\<rparr>) (s\<lparr>nftk := k\<rparr>) = (Done (), t)"
    using SaveDomain_ok [of "s\<lparr>nftk := k\<rparr>" "''firewall''"] f assms(2) by auto
  then show ?thesis
    unfolding runRevert_def recoverDomain_firewall
    by (simp add: bindM_def Lock_ok [OF f(1)] Domain_ok [OF f(2) assms(2,3)] assms(4)
        Restore_ok [of "PSnapshot p" T r s b k, OF assms(5,6)])
qed

text \<open>A timer whose lease is not the open one.\<close>

lemma revert_stale:
  fixes s :: "('y, 'n, 'k) host"
  assumes "i \<noteq> []" "recoverKey ([] :: ('y, 'n, 'k) host domainHook list) domain = Inr key"
    "\<And>d p. viewOf domain key s = Some d \<Longrightarrow> Pending d = Some p \<Longrightarrow> PendingID p \<noteq> i"
    "runRevert [] r netR i domain s = (a, t)"
  shows "disk t = disk s \<and> nftk t = nftk s \<and> net t = net s"
proof (cases "Lock s")
  case (Pair x s1)
  have l: "disk s1 = disk s \<and> nftk s1 = nftk s \<and> net s1 = net s"
    using Lock_frame [OF Pair] Lock_parts [OF Pair] by simp
  show ?thesis
  proof (cases "Domain domain key s1")
    case (Pair y s2)
    have m: "disk s2 = disk s1 \<and> nftk s2 = nftk s1 \<and> net s2 = net s1"
      using Domain_reads(1) [OF Pair] Domain_frame [OF Pair] by simp
    have v: "viewOf domain key s1 = viewOf domain key s"
      using l by (intro viewOf_cong) simp_all
    have id: "PendingID p \<noteq> i" if "y = Done d" "Pending d = Some p" for d p
      using assms(3) Domain_reads(3) [OF Pair that(1)] v that(2) by simp
    have "t = s1 \<or> t = s2"
      using assms(4) \<open>Lock s = (x, s1)\<close> Pair id
      by (auto simp: runRevert_def recoverDomain_def assms(1,2) bindM_def ret_def liftR_def
          split: outcome.splits option.splits if_splits)
    then show ?thesis
      using l m by auto
  qed
qed

end
