(* ===== verification/Demo_Host.thy ===== *)
theory Demo_Host
  imports Dead_Man_Switch
begin

text \<open>
  A concrete host on which the properties are exercised: a kernel whose table is either absent
  or loaded, an overlay with one deployer, a server of the core build.  It shows that the
  assumptions of the properties can hold.
\<close>

definition demoEntry :: json where
  "demoEntry = JObj [(''table'', JObj [(''family'', JStr ''inet''), (''handle'', JNum 7), (''name'', JStr tableName)])]"

definition demoDump :: "bool \<Rightarrow> json" where
  "demoDump k = encDump (if k then [demoEntry] else [])"

definition demoScript :: "bool \<Rightarrow> json" where
  "demoScript k = encDump ([JObj [(''add'', ownTable)], JObj [(''delete'', ownTable)]] @
     (if k then [JObj [(''add'', ownTable)]] else []))"

definition demoNft :: "bool runner" where
  "demoNft argv stdin k =
     (if argv = [''nft'', ''-j'', ''list'', ''ruleset''] then (Replied (Json (demoDump k)), k)
      else if argv = [''nft'', ''-f'', ''-''] then (Replied NoBytes, True)
      else if argv = [''nft'', ''-j'', ''-f'', ''-''] then
        (if stdin = Json (demoScript False) then (Replied NoBytes, False)
         else if stdin = Json (demoScript True) then (Replied NoBytes, True)
         else (Refused (Error ''syntax''), k))
      else (Replied NoBytes, k))"

definition demoTable :: "bool \<Rightarrow> json option" where
  "demoTable k = Some (demoScript k)"

definition demoOk :: "unit runner" where
  "demoOk argv stdin k = (Replied NoBytes, k)"

definition demoCaller :: caller where
  "demoCaller = \<lparr>CallerLogin = ''ops'', CallerNodeID = ''n1'', CallerDNSName = ''ops.example'',
     CallerTags = [''tag:stack-deployer''], CallerAddresses = [], Capabilities = []\<rparr>"

definition demoAuth :: authenticator where
  "demoAuth = NewAuthenticator (\<lambda>a. if hasPrefix a ''100.64.0.9:'' then Inr (Some demoCaller)
     else Fail ''not found'') ''tag:stack-deployer''"

definition demoServer :: "(unit, unit, bool) server" where
  "demoServer = \<lparr>ObserveOnly = False, authenticatorOf = demoAuth, sysdRunner = demoOk,
     nftRunner = demoNft, netRunner = demoOk,
     guard = \<lparr>TailscaleInterface = ''tailscale0'', GuardPort = 7443\<rparr>,
     binaryPath = ''/usr/bin/ghostd'', storeDir = ''/var/lib/ghostd/last-good'',
     newID = (\<lambda>n. ''lease-'' @ itoa (int n)), extraDomains = []\<rparr>"

definition demoMachine :: "unit machine" where
  "demoMachine = \<lparr>etc = [], netk = (), readFaults = [], writeFaults = [], ctxFaults = []\<rparr>"

definition demoHost :: "(unit, unit, bool) host" where
  "demoHost = \<lparr>disk = (\<lambda>_. None), domains = [''firewall'', ''netconfig''], saveFaults = [], loadFaults = [],
     lockFaults = [], units = (\<lambda>_. None), sysd = (), net = demoMachine, nftk = False,
     clock = (\<lambda>n. 1000 + int n), tick = 0, minted = 0\<rparr>"

definition demoRequest :: applyRequest where
  "demoRequest = \<lparr>ReqDomain = ''firewall'', DesiredStateJson = Json (JObj [(''zones'', JObj [(''lan'',
       JObj [(''interfaces'', JArr [JStr ''eth0'']), (''ssh'', JObj [(''port'', JNum 22)])])])]),
     DeadManSwitchSeconds = 60\<rparr>"

definition demoPending :: pending where
  "demoPending = \<lparr>Applied = True, PendingID = ''lease-0'', Deadline = 5000,
     PSnapshot = Json (demoDump False), Target = NoBytes, Peer = ''100.64.0.9:1111''\<rparr>"

text \<open>The host with an applied, unconfirmed lease and a loaded table.\<close>

definition demoLeased :: "(unit, unit, bool) host" where
  "demoLeased = demoHost\<lparr>disk := (\<lambda>n. if n = ''firewall-transaction.json''
       then Some (Json (encDomain \<lparr>Confirmed = NoBytes, Pending = Some demoPending\<rparr>)) else None),
     nftk := True\<rparr>"

lemma demo_content:
  "contentSnap (Json (demoDump False)) = Some (demoScript False)"
  "contentSnap (Json (demoDump True)) = Some (demoScript True)"
  by code_simp+

lemma demo_owned:
  "OwnedRuleset (Json (demoDump False)) = Inr (Json (demoDump False))"
  "OwnedRuleset (Json (demoDump True)) = Inr (Json (demoDump True))"
  by code_simp+

lemma demo_scripts: "demoScript True \<noteq> demoScript False"
  by code_simp

lemma demo_documented: "nftDocumented demoNft demoTable"
proof -
  have "contentSnap sn = demoTable k" if "OwnedRuleset (Json (demoDump k)) = Inr sn" for k sn
    using that demo_content demo_owned by (cases k) (auto simp: demoTable_def)
  then show ?thesis
    unfolding nftDocumented_def
    by (auto simp: demoNft_def demoTable_def split: if_splits)
qed

lemma demo_extra: "extraDomains demoServer = []" "nftRunner demoServer = demoNft"
  by (simp_all add: demoServer_def)

lemma demo_safe: "fwSafe demoTable (demoScript False) demoHost"
  by (simp add: safe_def viewOf_def blobAt_def demoHost_def demoTable_def)

lemma demo_view:
  "viewOf ''firewall'' NftRuleset demoLeased = Some \<lparr>Confirmed = NoBytes, Pending = Some demoPending\<rparr>"
  by code_simp

lemma demo_leased_facts:
  "faultless demoLeased" "''firewall'' \<in> set (domains demoLeased)"
  "viewOf ''firewall'' NftRuleset demoLeased = Some \<lparr>Confirmed = NoBytes, Pending = Some demoPending\<rparr>"
  "Pending \<lparr>Confirmed = NoBytes, Pending = Some demoPending\<rparr> = Some demoPending"
  "contentSnap (PSnapshot demoPending) = Some (demoScript False)"
proof -
  show "faultless demoLeased" "''firewall'' \<in> set (domains demoLeased)"
    by (simp_all add: faultless_def demoLeased_def demoHost_def)
  show "contentSnap (PSnapshot demoPending) = Some (demoScript False)"
    by (simp add: demoPending_def demo_content)
qed (simp_all add: demo_view)

end
