(* ===== verification/Confirmation.thy ===== *)
theory Confirmation
  imports Demo_Host
begin

text \<open>
  What a successful confirmation proves about the lease it closed, and what a refused request
  leaves behind.
\<close>

lemma Domain_clock:
  fixes s :: "('y, 'n, 'k) host"
  assumes "Domain domain legacy s = (r, t)"
  shows "clock t = clock s" "tick t = tick s"
  using assms
  by (auto simp: Domain_def prog_defs domainFile_def Load_def Let_def
      split: sum.splits outcome.splits prod.splits if_splits list.splits bool.splits)

lemma Lock_clock:
  fixes s :: "('y, 'n, 'k) host"
  shows "Lock s = (r, t) \<Longrightarrow> clock t = clock s \<and> tick t = tick s"
  by (auto simp: Lock_def Let_def split: list.splits bool.splits)

lemma Cancel_disk:
  fixes s :: "('y, 'n, 'k) host"
  shows "attempt (Cancel R i) s = (r, t) \<Longrightarrow> disk t = disk s"
  by (auto simp: Cancel_def systemd_def runOn_def prog_defs
      split: prod.splits reply.splits outcome.splits option.splits)

lemma SaveDomain_disk: "SaveDomain domain d s = (Done u, t) \<Longrightarrow> disk t (recordFile domain) = Some (Json (encDomain d))"
  by (auto simp: SaveDomain_def bindM_Done getS_def domainFile_def recordFile_def
      split: if_splits dest: Save_disk(2))

lemma confirmedBytes_target:
  "confirmedBytes S domain p s = (Done c, t) \<Longrightarrow> domain \<noteq> domainFirewall \<Longrightarrow> c = Target p"
  by (simp add: confirmedBytes_def)

lemma Now_Done: "Now s = (Done n, t) \<longleftrightarrow> n = clock s (tick s) \<and> t = s\<lparr>tick := Suc (tick s)\<rparr>"
  by (auto simp: Now_def)

lemma confirmDomain_done:
  assumes "confirmDomain S addr i domain d p s = (Done b, t)"
  shows "clock s (tick s) < Deadline p" "Peer p \<noteq> addr" "Applied p" "b"
    and "\<exists>c. disk t (recordFile domain) = Some (Json (encDomain \<lparr>Confirmed = c, Pending = None\<rparr>)) \<and>
           (domain \<noteq> domainFirewall \<longrightarrow> c = Target p)"
proof -
  obtain c s1 s2 s3 s4 u where g: "clock s (tick s) < Deadline p" "Peer p \<noteq> addr" "Applied p"
    and c: "confirmedBytes S domain p s1 = (Done c, s2)"
    and sv: "SaveDomain domain \<lparr>Confirmed = c, Pending = None\<rparr> s3 = (Done u, s4)"
    and cl: "bindM (attempt (Cancel (sysdRunner S) i)) (\<lambda>_. ret True) s4 = (Done b, t)"
    using assms
    by (auto simp: confirmDomain_def bindM_Done Now_Done internal_def split: if_splits)
  show "clock s (tick s) < Deadline p" "Peer p \<noteq> addr" "Applied p" by (fact g)+
  obtain x where x: "attempt (Cancel (sysdRunner S) i) s4 = (Done x, t)" and "b"
    using cl by (auto simp: bindM_Done)
  then show "b" by simp
  show "\<exists>c. disk t (recordFile domain) = Some (Json (encDomain \<lparr>Confirmed = c, Pending = None\<rparr>)) \<and>
      (domain \<noteq> domainFirewall \<longrightarrow> c = Target p)"
    using SaveDomain_disk [OF sv] Cancel_disk [OF x] confirmedBytes_target [OF c] by auto
qed

lemma confirmIn_done:
  assumes "confirmIn S addr i ds s = (Done b, t)"
  shows "\<exists>domain d p c. domain \<in> set ds \<and> viewOf domain (legacyName S domain) s = Some d \<and>
    Pending d = Some p \<and> PendingID p = i \<and> Applied p \<and> Peer p \<noteq> addr \<and>
    clock s (tick s) < Deadline p \<and>
    disk t (recordFile domain) = Some (Json (encDomain \<lparr>Confirmed = c, Pending = None\<rparr>)) \<and>
    (domain \<noteq> domainFirewall \<longrightarrow> c = Target p)"
  using assms
proof (induction ds arbitrary: s)
  case (Cons dm ds)
  obtain d s1 where dom: "Domain dm (legacyName S dm) s = (Done d, s1)"
    and rest: "(case Pending d of None \<Rightarrow> confirmIn S addr i ds
       | Some p \<Rightarrow> if PendingID p \<noteq> i then confirmIn S addr i ds
                   else confirmDomain S addr i dm d p) s1 = (Done b, t)"
    using Cons.prems by (auto simp: bindM_Done internal_def)
  have frame: "disk s1 = disk s" "clock s1 = clock s" "tick s1 = tick s"
    using Domain_reads(1) [OF dom] Domain_clock [OF dom] by auto
  have view: "viewOf x y s1 = viewOf x y s" for x y
    by (rule viewOf_cong) (simp_all add: frame)
  show ?case
  proof (cases "\<exists>p. Pending d = Some p \<and> PendingID p = i")
    case True
    then obtain p where p: "Pending d = Some p" "PendingID p = i" by blast
    then have run: "confirmDomain S addr i dm d p s1 = (Done b, t)"
      using rest by simp
    show ?thesis
      using confirmDomain_done [OF run] p Domain_reads(3) [OF dom refl] frame
      by (metis list.set_intros(1))
  next
    case False
    then have "confirmIn S addr i ds s1 = (Done b, t)"
      using rest by (auto split: option.splits if_splits)
    from Cons.IH [OF this] show ?thesis
      unfolding view frame by (metis list.set_intros(2))
  qed
qed simp

end
