(* ===== verification/Nft_Semantics.thy ===== *)
theory Nft_Semantics
  imports Nft_Render
begin

text \<open>
  What the rendered script means.  The rules of the filter chains are an abstract rule list
  with a printer; the writers of \<^verbatim>\<open>render.go\<close> and \<^verbatim>\<open>output.go\<close> produce exactly the printed
  lists, and the meaning of a chain is the first-match reading of its list.
\<close>

section \<open>Rules and their text\<close>

datatype atom =
    CtKnown | CtDnat
  | Iif string | IifSet "string list" | Oif string | OifSet "string list"
  | Dport string int | DportSet string "int list" | Sport string int | DportHigh string
  | L4Proto string | OrigDport int
  | Icmp6 "string list" | HopLimit int
  | Saddr string | Daddr string | NfProto string

datatype nftVerdict = Accept | Jump string

type_synonym nftRule = "atom list \<times> nftVerdict"

fun atomText :: "atom \<Rightarrow> string" where
  "atomText CtKnown = ''ct state established,related''"
| "atomText CtDnat = ''ct status dnat''"
| "atomText (Iif i) = ''iifname '' @ quoteStr i"
| "atomText (IifSet is) = ''iifname '' @ ifaceSet is"
| "atomText (Oif i) = ''oifname '' @ quoteStr i"
| "atomText (OifSet is) = ''oifname '' @ ifaceSet is"
| "atomText (Dport p n) = p @ '' dport '' @ itoa n"
| "atomText (DportSet p ns) = p @ '' dport { '' @ portSet ns @ '' }''"
| "atomText (Sport p n) = p @ '' sport '' @ itoa n"
| "atomText (DportHigh p) = p @ '' dport 1024-65535''"
| "atomText (L4Proto p) = ''meta l4proto '' @ p"
| "atomText (OrigDport n) = ''ct original proto-dst '' @ itoa n"
| "atomText (Icmp6 ts) = ''icmpv6 type { '' @ joinWith '', '' ts @ '' }''"
| "atomText (HopLimit n) = ''ip6 hoplimit '' @ itoa n"
| "atomText (Saddr e) = ''ip saddr '' @ e"
| "atomText (Daddr d) = (if CHR '':'' \<in> set d then ''ip6'' else ''ip'') @ '' daddr '' @ d"
| "atomText (NfProto f) = ''meta nfproto '' @ (if f = ''ip6'' then ''ipv6'' else ''ipv4'')"

fun verdictText :: "nftVerdict \<Rightarrow> string" where
  "verdictText Accept = ''accept''"
| "verdictText (Jump c) = ''jump '' @ c"

definition ruleText :: "nftRule \<Rightarrow> string" where
  "ruleText r = ln (''    '' @ joinWith '' '' (map atomText (fst r) @ [verdictText (snd r)]))"

definition chainText :: "string \<Rightarrow> string list \<Rightarrow> nftRule list \<Rightarrow> string" where
  "chainText name hook rules =
     ln (''  chain '' @ name @ '' {'') @ concat hook @ concat (map ruleText rules) @ ln ''  }''"

section \<open>The rules of each chain\<close>

definition inputRules :: "desiredState \<Rightarrow> reachabilityGuard \<Rightarrow> string list \<Rightarrow> nftRule list" where
  "inputRules ds guard names =
     [([CtKnown], Accept), ([Iif ''lo''], Accept),
      ([Iif ''podman*'', Dport ''udp'' PortDNS], Accept),
      ([Iif ''podman*'', Dport ''tcp'' PortDNS], Accept),
      ([Iif ''podman*'', Dport ''udp'' PortMDNS], Accept),
      ([L4Proto ''ipv6-icmp'', Icmp6 [''destination-unreachable'', ''packet-too-big'', ''time-exceeded'',
          ''parameter-problem'']], Accept),
      ([L4Proto ''ipv6-icmp'', Icmp6 [''nd-router-solicit'', ''nd-router-advert'', ''nd-neighbor-solicit'',
          ''nd-neighbor-advert''], HopLimit 255], Accept)] @
     (if TailscaleInterface guard \<noteq> [] \<and> GuardPort guard \<noteq> 0
      then [([Iif (TailscaleInterface guard), Dport ''tcp'' (GuardPort guard)], Accept)] else []) @
     map (\<lambda>name. ([IifSet (Interfaces (zoneOf ds name))], Jump (''zone_'' @ name))) names @
     (case Ingress ds of None \<Rightarrow> [] | Some g \<Rightarrow> if IngRedirects g = [] then []
        else [([IifSet (IngInterfaces g), DportSet ''tcp'' (backendPorts g)], Accept)])"

definition forwardRules :: "desiredState \<Rightarrow> string list \<Rightarrow> nftRule list" where
  "forwardRules ds names =
     [([CtKnown], Accept)] @
     (if AllowDNATForward ds then [([CtDnat], Accept)] else []) @
     concat (map (\<lambda>name. map (\<lambda>egress.
         ([IifSet (Interfaces (zoneOf ds name)), OifSet (Interfaces (zoneOf ds egress))], Accept))
       (sortedStrings (Forward (zoneOf ds name)))) names)"

definition zoneRules :: "string \<Rightarrow> zone \<Rightarrow> nftRule list" where
  "zoneRules name z =
     (if name = ''trusted'' then [([], Accept)]
      else
        (case SSH z of None \<Rightarrow> [] | Some r \<Rightarrow> [([Dport ''tcp'' (SSHPort r)], Accept)]) @
        map (\<lambda>r. ([CtDnat, L4Proto (RProto r), OrigDport (RPort r), Dport (RProto r) (RToPort r)], Accept))
          (Redirects z) @
        (case NFS z of None \<Rightarrow> [] | Some n \<Rightarrow>
          map (\<lambda>e. ([Saddr e, DportSet ''tcp'' nfsPorts], Accept)) (sortedStrings (Exports n))) @
        concat (map (\<lambda>svc.
            map (\<lambda>r. ([Sport (PProto r) (PPort r), DportHigh (PProto r)], Accept)) (portsOf serviceReplyPorts svc) @
            map (\<lambda>r. ([Dport (PProto r) (PPort r)], Accept)) (portsOf builtinServices svc))
          (sortedStrings (Services z))) @
        map (\<lambda>r. ([Dport (PProto r) (PPort r)], Accept)) (Ports z) @
        (if equalFold (ZTarget z) ''ACCEPT'' then [([], Accept)] else []))"

definition outputRules :: "outputPolicy \<Rightarrow> nftRule list" where
  "outputRules p =
     (if EstablishedRelated p then [([CtKnown], Accept)] else []) @
     (if Loopback p then [([Oif ''lo''], Accept)] else []) @
     map (\<lambda>r. ((if OFamily r \<noteq> [] then [NfProto (OFamily r)] else []) @
               (if OInterface r \<noteq> [] then [Oif (OInterface r)] else []) @
               (if ODestination r \<noteq> [] then [Daddr (ODestination r)] else []) @
               [Dport (OProto r) (OPort r)], Accept)) (ORules p)"

section \<open>The writers print these rules\<close>

lemma concat_rules: "concat (map (\<lambda>x. ruleText (f x)) xs) = concat (map ruleText (map f xs))"
  by (simp add: comp_def)

lemmas ruleText_simps = ruleText_def ln_def

lemma itoa_255: "itoa 255 = ''255''"
  by code_simp

lemma writeInputChain_text:
  "concat (writeInputChain ds guard names) =
     chainText ''input'' [ln ''    type filter hook input priority 0; policy drop;''] (inputRules ds guard names)"
  by (simp add: writeInputChain_def chainText_def inputRules_def ruleText_simps comp_def itoa_255
      split: option.split)

lemma writeForwardChain_text:
  "concat (writeForwardChain ds names) =
     chainText ''forward'' [ln ''    type filter hook forward priority 0; policy drop;''] (forwardRules ds names)"
  by (simp add: writeForwardChain_def chainText_def forwardRules_def ruleText_simps comp_def map_concat)

lemma writeZoneChain_text:
  "concat (writeZoneChain name z) = chainText (''zone_'' @ name) [] (zoneRules name z)"
  by (simp add: writeZoneChain_def chainText_def zoneRules_def ruleText_simps comp_def map_concat portSet_def
      split: option.split)

definition outputRuleOf :: "outputRule \<Rightarrow> nftRule" where
  "outputRuleOf r =
     ((if OFamily r \<noteq> [] then [NfProto (OFamily r)] else []) @
      (if OInterface r \<noteq> [] then [Oif (OInterface r)] else []) @
      (if ODestination r \<noteq> [] then [Daddr (ODestination r)] else []) @
      [Dport (OProto r) (OPort r)], Accept)"

lemma writeOutputRule_text: "concat (writeOutputRule r) = ruleText (outputRuleOf r)"
  by (simp add: writeOutputRule_def outputRuleOf_def ruleText_simps)

lemma concat_concat: "concat (concat (map f xs)) = concat (map (\<lambda>x. concat (f x)) xs)"
  by (induction xs) simp_all

lemma writeOutputChain_text:
  "concat (writeOutputChain (Some p)) =
     chainText ''output'' [ln (''    type filter hook output priority 0; policy '' @ toLower (Policy p) @ '';'')]
       (outputRules p)"
proof -
  have "outputRules p = (if EstablishedRelated p then [([CtKnown], Accept)] else []) @
      (if Loopback p then [([Oif ''lo''], Accept)] else []) @ map outputRuleOf (ORules p)"
    by (simp add: outputRules_def outputRuleOf_def)
  then show ?thesis
    by (simp add: writeOutputChain_def chainText_def concat_concat writeOutputRule_text comp_def)
      (simp add: ruleText_simps)
qed

section \<open>Packets\<close>

text \<open>
  What a rule can look at.  \<open>known\<close> is connection state established or related, \<open>dnatted\<close> and
  \<open>origPort\<close> what connection tracking remembers of a rewritten destination.
\<close>

record packet =
  iif :: string
  oif :: string
  l4 :: string
  sport :: int
  dport :: int
  v6 :: bool
  saddr :: addr
  daddr :: addr
  known :: bool
  dnatted :: bool
  origPort :: int
  icmp6 :: string
  hops :: int

text \<open>A trailing asterisk in an interface name is a wildcard.\<close>

definition ifMatch :: "string \<Rightarrow> string \<Rightarrow> bool" where
  "ifMatch pat name = (if pat \<noteq> [] \<and> last pat = CHR ''*'' then hasPrefix name (butlast pat) else name = pat)"

definition addrMatch :: "string \<Rightarrow> addr \<Rightarrow> bool" where
  "addrMatch t a = (case ParseAddr t of
       Some b \<Rightarrow> a = b
     | None \<Rightarrow> (case ParsePrefix t of Some p \<Rightarrow> Contains (Masked p) a | None \<Rightarrow> False))"

fun matches :: "packet \<Rightarrow> atom \<Rightarrow> bool" where
  "matches p CtKnown = known p"
| "matches p CtDnat = dnatted p"
| "matches p (Iif i) = ifMatch i (iif p)"
| "matches p (IifSet is) = (iif p \<in> set is)"
| "matches p (Oif i) = ifMatch i (oif p)"
| "matches p (OifSet is) = (oif p \<in> set is)"
| "matches p (Dport pr n) = (l4 p = pr \<and> dport p = n)"
| "matches p (DportSet pr ns) = (l4 p = pr \<and> dport p \<in> set ns)"
| "matches p (Sport pr n) = (l4 p = pr \<and> sport p = n)"
| "matches p (DportHigh pr) = (l4 p = pr \<and> 1024 \<le> dport p \<and> dport p \<le> 65535)"
| "matches p (L4Proto pr) = (l4 p = pr)"
| "matches p (OrigDport n) = (origPort p = n)"
| "matches p (Icmp6 ts) = (icmp6 p \<in> set ts)"
| "matches p (HopLimit n) = (hops p = n)"
| "matches p (Saddr e) = (\<not> v6 p \<and> addrMatch e (saddr p))"
| "matches p (Daddr d) = (v6 p = (CHR '':'' \<in> set d) \<and> addrMatch d (daddr p))"
| "matches p (NfProto f) = (v6 p = (f = ''ip6''))"

definition fires :: "packet \<Rightarrow> nftRule \<Rightarrow> bool" where
  "fires p r = list_all (matches p) (fst r)"

text \<open>
  First match: an accepting rule decides; a jump continues behind itself when the chain it
  enters does not decide.  The user chains here do not jump.
\<close>

fun accepts :: "(string \<Rightarrow> nftRule list) \<Rightarrow> packet \<Rightarrow> nftRule list \<Rightarrow> bool" where
  "accepts env p [] = False"
| "accepts env p (r # rs) =
     (if fires p r
      then (case snd r of
          Accept \<Rightarrow> True
        | Jump c \<Rightarrow> list_ex (\<lambda>q. fires p q \<and> snd q = Accept) (env c) \<or> accepts env p rs)
      else accepts env p rs)"

lemma accepts_append: "accepts env p (rs @ qs) = (accepts env p rs \<or> accepts env p qs)"
  by (induction rs) (auto split: nftVerdict.splits)

lemma accepts_accepting:
  "(\<And>r. r \<in> set rs \<Longrightarrow> snd r = Accept) \<Longrightarrow> accepts env p rs = (\<exists>r \<in> set rs. fires p r)"
  by (induction rs) auto

lemma accepts_jumps:
  "accepts env p (map (\<lambda>x. (f x, Jump (g x))) xs) =
     (\<exists>x \<in> set xs. list_all (matches p) (f x) \<and> list_ex (\<lambda>q. fires p q \<and> snd q = Accept) (env (g x)))"
  by (induction xs) (auto simp: fires_def)

end
