(* ===== verification/Nft_Policy_Facts.thy ===== *)
theory Nft_Policy_Facts
  imports Nft_Semantics
begin

text \<open>
  What validation guarantees, as a declarative predicate that does not depend on the order in
  which a Go map is iterated, and what the chains of a validated request accept.
\<close>

section \<open>Validation, declaratively\<close>

definition redirectOk :: "redirectRule \<Rightarrow> bool" where
  "redirectOk r = (validPort (RPort r) \<and> validPort (RToPort r) \<and> RPort r \<noteq> RToPort r)"

definition ingressOk :: "ingress \<Rightarrow> bool" where
  "ingressOk g = (IngInterfaces g \<noteq> [] \<and> IngRedirects g \<noteq> [] \<and>
     (\<forall>i \<in> set (IngInterfaces g). validInterface i) \<and>
     (\<forall>r \<in> set (IngRedirects g). redirectOk r \<and> RProto r = ''tcp'') \<and>
     distinct (map RPort (IngRedirects g)))"

definition outputOk :: "outputPolicy \<Rightarrow> bool" where
  "outputOk p = ((Policy p = ''DROP'' \<or> Policy p = ''ACCEPT'') \<and>
     (\<forall>r \<in> set (ORules p). validateOutputRule r = Inr ()))"

definition zoneOk :: "desiredState \<Rightarrow> string \<Rightarrow> zone \<Rightarrow> bool" where
  "zoneOk ds name z =
     ((RedirectOnly ds \<longrightarrow> redirectOnlyZone z) \<and> zoneNameOk name \<and>
      (ZTarget z = [] \<or> equalFold (ZTarget z) ''DROP'' \<or> equalFold (ZTarget z) ''ACCEPT'') \<and>
      Interfaces z \<noteq> [] \<and> (\<forall>i \<in> set (Interfaces z). validInterface i) \<and>
      (\<forall>r. SSH z = Some r \<longrightarrow> validPort (SSHPort r)) \<and>
      (\<forall>r \<in> set (Ports z). validPort (PPort r) \<and> tcpOrUdp (PProto r)) \<and>
      (\<forall>r \<in> set (Redirects z). redirectOk r \<and> tcpOrUdp (RProto r)) \<and>
      distinct (map (\<lambda>r. (RProto r, RPort r)) (Redirects z)) \<and>
      (\<forall>n. NFS z = Some n \<longrightarrow> (\<forall>e \<in> set (Exports n). validNFSSource e)) \<and>
      (\<forall>e \<in> set (Forward z). e \<in> fst ` set (Zones ds)) \<and>
      (\<forall>s \<in> set (Services z). s \<in> fst ` set builtinServices))"

definition policyOk :: "desiredState \<Rightarrow> bool" where
  "policyOk ds =
     ((RedirectOnly ds \<longrightarrow> Output ds = None \<and> Ingress ds = None \<and> \<not> AllowDNATForward ds) \<and>
      (\<forall>p. Output ds = Some p \<longrightarrow> outputOk p) \<and>
      (\<forall>g. Ingress ds = Some g \<longrightarrow> ingressOk g) \<and>
      Zones ds \<noteq> [] \<and> (\<forall>(n, z) \<in> set (Zones ds). zoneOk ds n z) \<and>
      distinct (concat (map (\<lambda>(n, z). Interfaces z) (Zones ds))) \<and>
      (RedirectOnly ds \<or> (\<exists>(n, z) \<in> set (Zones ds). n = ''trusted'' \<or> SSH z \<noteq> None)))"

lemma claim_fold:
  "(\<exists>a'. foldR (claimInterface n) a is = Inr a') \<longleftrightarrow>
     (\<forall>i \<in> set is. validInterface i) \<and> distinct is \<and> set is \<inter> fst ` set a = {}"
  "foldR (claimInterface n) a is = Inr a' \<Longrightarrow> fst ` set a' = set is \<union> fst ` set a"
  by (induction "is" arbitrary: a a') (auto simp: claimInterface_def bindR_Inr map_of_eq_None_iff split: if_splits)

lemma redirect_fold:
  "(\<exists>s'. foldR validateRedirect s rs = Inr s') \<longleftrightarrow>
     (\<forall>r \<in> set rs. redirectOk r \<and> tcpOrUdp (RProto r)) \<and>
     distinct (map (\<lambda>r. (RProto r, RPort r)) rs) \<and> set (map (\<lambda>r. (RProto r, RPort r)) rs) \<inter> set s = {}"
  by (induction rs arbitrary: s) (auto simp: validateRedirect_def redirectOk_def bindR_Inr split: if_splits)

lemma ingress_fold:
  "(\<exists>s'. foldR (\<lambda>seen r.
       if \<not> validPort (RPort r) \<or> \<not> validPort (RToPort r) \<or> RPort r = RToPort r \<or>
          RProto r \<noteq> ''tcp'' \<or> RPort r \<in> set seen
       then Fail ''nft: invalid or duplicate ingress redirect''
       else Inr (RPort r # seen)) s rs = Inr s') \<longleftrightarrow>
     (\<forall>r \<in> set rs. redirectOk r \<and> RProto r = ''tcp'') \<and> distinct (map RPort rs) \<and>
     set (map RPort rs) \<inter> set s = {}"
  by (induction rs arbitrary: s) (auto simp: redirectOk_def bindR_Inr split: if_splits)

lemma validateIngress_ok: "validateIngress i = Inr () \<longleftrightarrow> (\<forall>g. i = Some g \<longrightarrow> ingressOk g)"
  using ingress_fold [of "[]"]
  by (cases i) (auto simp: validateIngress_def ingressOk_def bindR_Inr eachR_Inr)

lemma validateOutput_ok: "validateOutput out = Inr () \<longleftrightarrow> (\<forall>p. out = Some p \<longrightarrow> outputOk p)"
  by (cases out) (auto simp: validateOutput_def outputOk_def bindR_Inr eachR_Inr)

lemma validateZone_ok:
  "(\<exists>st'. validateZone ds (a, r) (n, z) = Inr st') \<longleftrightarrow>
     zoneOk ds n z \<and> distinct (Interfaces z) \<and> set (Interfaces z) \<inter> fst ` set a = {}"
  using claim_fold(1) [of n a "Interfaces z"] redirect_fold [of "[]" "Redirects z"]
  by (auto simp: validateZone_def zoneOk_def bindR_Inr eachR_Inr map_of_eq_None_iff split: option.splits)

lemma validateZone_state:
  "validateZone ds (a, r) (n, z) = Inr (a', r') \<Longrightarrow>
     fst ` set a' = set (Interfaces z) \<union> fst ` set a \<and> r' = (r \<or> n = ''trusted'' \<or> SSH z \<noteq> None)"
  by (auto simp: validateZone_def bindR_Inr dest: claim_fold(2))

lemma validateZone_then:
  "(\<exists>a' r'. validateZone ds (a, r) (n, z) = Inr (a', r') \<and> P (fst ` set a')) \<longleftrightarrow>
     (zoneOk ds n z \<and> distinct (Interfaces z) \<and> set (Interfaces z) \<inter> fst ` set a = {}) \<and>
     P (set (Interfaces z) \<union> fst ` set a)"
  (is "?L \<longleftrightarrow> ?R")
proof -
  have "?L \<longleftrightarrow> (\<exists>st. validateZone ds (a, r) (n, z) = Inr st) \<and> P (set (Interfaces z) \<union> fst ` set a)"
    using validateZone_state [of ds a r n z] by (metis surj_pair)
  then show ?thesis unfolding validateZone_ok .
qed

lemma zones_fold_ok:
  "(\<exists>st'. foldR (validateZone ds) (a, r) zs = Inr st') \<longleftrightarrow>
     (\<forall>(n, z) \<in> set zs. zoneOk ds n z) \<and> distinct (concat (map (\<lambda>(n, z). Interfaces z) zs)) \<and>
     set (concat (map (\<lambda>(n, z). Interfaces z) zs)) \<inter> fst ` set a = {}"
proof (induction zs arbitrary: a r)
  case (Cons nz zs)
  obtain n z where nz: "nz = (n, z)" by force
  let ?is = "set (concat (map (\<lambda>(n, z). Interfaces z) zs))"
  have "(\<exists>st'. foldR (validateZone ds) (a, r) (nz # zs) = Inr st') \<longleftrightarrow>
      (\<exists>a' r'. validateZone ds (a, r) (n, z) = Inr (a', r') \<and>
        (\<exists>st'. foldR (validateZone ds) (a', r') zs = Inr st'))"
    by (auto simp: nz bindR_Inr)
  also have "\<dots> \<longleftrightarrow> (\<exists>a' r'. validateZone ds (a, r) (n, z) = Inr (a', r') \<and>
        ((\<forall>(n, z) \<in> set zs. zoneOk ds n z) \<and> distinct (concat (map (\<lambda>(n, z). Interfaces z) zs)) \<and>
         ?is \<inter> fst ` set a' = {}))"
    by (simp only: Cons.IH)
  also have "\<dots> \<longleftrightarrow> (zoneOk ds n z \<and> distinct (Interfaces z) \<and> set (Interfaces z) \<inter> fst ` set a = {}) \<and>
        ((\<forall>(n, z) \<in> set zs. zoneOk ds n z) \<and> distinct (concat (map (\<lambda>(n, z). Interfaces z) zs)) \<and>
         ?is \<inter> (set (Interfaces z) \<union> fst ` set a) = {})"
    by (rule validateZone_then)
  also have "\<dots> \<longleftrightarrow> (\<forall>(n, z) \<in> set (nz # zs). zoneOk ds n z) \<and>
        distinct (concat (map (\<lambda>(n, z). Interfaces z) (nz # zs))) \<and>
        set (concat (map (\<lambda>(n, z). Interfaces z) (nz # zs))) \<inter> fst ` set a = {}"
    unfolding nz by (simp only: list.map concat.simps distinct_append set_append list.set prod.case ball_simps) blast
  finally show ?case .
qed simp

lemma zones_fold_reach:
  "foldR (validateZone ds) (a, r) zs = Inr (a', r') \<Longrightarrow>
     r' = (r \<or> (\<exists>(n, z) \<in> set zs. n = ''trusted'' \<or> SSH z \<noteq> None))"
proof (induction zs arbitrary: a r)
  case (Cons nz zs)
  obtain n z where nz: "nz = (n, z)" by force
  obtain a1 r1 where one: "validateZone ds (a, r) (n, z) = Inr (a1, r1)"
    and rest: "foldR (validateZone ds) (a1, r1) zs = Inr (a', r')"
    using Cons.prems by (auto simp: nz bindR_Inr)
  show ?case
    using Cons.IH [OF rest] validateZone_state [OF one] by (simp add: nz)
qed simp

lemma validate_iff_policyOk: "validate ds = Inr () \<longleftrightarrow> policyOk ds"
proof -
  have fold: "(\<exists>st. foldR (validateZone ds) ([], False) (Zones ds) = Inr st \<and> (snd st \<or> RedirectOnly ds)) \<longleftrightarrow>
      (\<exists>st. foldR (validateZone ds) ([], False) (Zones ds) = Inr st) \<and>
      (RedirectOnly ds \<or> (\<exists>(n, z) \<in> set (Zones ds). n = ''trusted'' \<or> SSH z \<noteq> None))"
  proof (cases "foldR (validateZone ds) ([], False) (Zones ds)")
    case (Inr st)
    then have "snd st = (\<exists>(n, z) \<in> set (Zones ds). n = ''trusted'' \<or> SSH z \<noteq> None)"
      using zones_fold_reach [of ds "[]" False "Zones ds" "fst st" "snd st"] by simp
    then show ?thesis
      using Inr by (simp only: sum.inject) blast
  qed simp
  have "validate ds = Inr () \<longleftrightarrow>
      (RedirectOnly ds \<longrightarrow> Output ds = None \<and> Ingress ds = None \<and> \<not> AllowDNATForward ds) \<and>
      validateOutput (Output ds) = Inr () \<and> Zones ds \<noteq> [] \<and> validateIngress (Ingress ds) = Inr () \<and>
      (\<exists>st. foldR (validateZone ds) ([], False) (Zones ds) = Inr st \<and> (snd st \<or> RedirectOnly ds))"
    by (auto simp: validate_def bindR_Inr split_beta)
  then show ?thesis
    unfolding fold zones_fold_ok validateOutput_ok validateIngress_ok policyOk_def
    by (simp only: list.set image_empty inf_bot_right simp_thms) blast
qed

section \<open>The iteration order of the zones does not matter\<close>

lemma mset_concat_map: "mset xs = mset ys \<Longrightarrow> mset (concat (map f xs)) = mset (concat (map f ys))"
  by (simp add: mset_concat comp_def) (metis mset_map sum_mset_sum_list)

lemma policyOk_perm:
  assumes "mset zs = mset (Zones ds)"
  shows "policyOk (ds\<lparr>Zones := zs\<rparr>) = policyOk ds"
proof -
  have s: "set zs = set (Zones ds)"
    using assms by (rule mset_eq_setD)
  moreover have "(zs = []) = (Zones ds = [])"
    using assms by (metis mset_zero_iff)
  moreover have "distinct (concat (map (\<lambda>(n, z). Interfaces z) zs)) =
      distinct (concat (map (\<lambda>(n, z). Interfaces z) (Zones ds)))"
    by (rule mset_eq_imp_distinct_iff) (rule mset_concat_map [OF assms])
  moreover have "zoneOk (ds\<lparr>Zones := zs\<rparr>) n z = zoneOk ds n z" for n z
    by (simp add: zoneOk_def s)
  ultimately show ?thesis
    by (simp add: policyOk_def)
qed

lemma sort_perm: "mset xs = mset ys \<Longrightarrow> sort xs = sort ys" for xs ys :: "'a :: linorder list"
  by (rule properties_for_sort) simp_all

lemma zoneOf_perm:
  assumes "mset zs = mset (Zones ds)" "distinct (map fst (Zones ds))"
  shows "zoneOf (ds\<lparr>Zones := zs\<rparr>) = zoneOf ds" "sortedZoneNames zs = sortedZoneNames (Zones ds)"
proof -
  have "distinct (map fst zs)"
    using assms by (metis mset_eq_imp_distinct_iff mset_map)
  then have "map_of zs = map_of (Zones ds)"
    using assms mset_eq_setD [OF assms(1)] by (simp add: map_of_inject_set)
  then show "zoneOf (ds\<lparr>Zones := zs\<rparr>) = zoneOf ds"
    by (simp add: zoneOf_def fun_eq_iff)
  show "sortedZoneNames zs = sortedZoneNames (Zones ds)"
    unfolding sortedZoneNames_def by (rule sort_perm) (metis assms(1) mset_map)
qed

lemma render_perm:
  assumes "mset zs = mset (Zones ds)" "distinct (map fst (Zones ds))"
  shows "renderBody (ds\<lparr>Zones := zs\<rparr>) guard = renderBody ds guard"
  using zoneOf_perm [OF assms]
  by (simp add: renderBody_def Let_def writePreroutingChain_def writeTFTPHelper_def tftpInterfaces_def
      writeInputChain_def writeForwardChain_def writeIngressOutputChain_def writePostroutingChain_def
      cong: option.case_cong if_cong)

section \<open>What the input chain accepts\<close>

text \<open>The chains a jump can enter: one per zone.\<close>

definition zoneChains :: "desiredState \<Rightarrow> string \<Rightarrow> nftRule list" where
  "zoneChains ds c = (if hasPrefix c ''zone_'' then zoneRules (drop 5 c) (zoneOf ds (drop 5 c)) else [])"

definition inputAccepts :: "desiredState \<Rightarrow> reachabilityGuard \<Rightarrow> packet \<Rightarrow> bool" where
  "inputAccepts ds guard p =
     accepts (zoneChains ds) p (inputRules ds guard (sortedZoneNames (Zones ds)))"

text \<open>The policy as the schema documents it: what a zone opens to its interfaces.\<close>

definition zoneOpens :: "string \<Rightarrow> zone \<Rightarrow> packet \<Rightarrow> bool" where
  "zoneOpens name z p =
     (name = ''trusted'' \<or>
      (\<exists>r. SSH z = Some r \<and> l4 p = ''tcp'' \<and> dport p = SSHPort r) \<or>
      (\<exists>r \<in> set (Redirects z). dnatted p \<and> l4 p = RProto r \<and> origPort p = RPort r \<and> dport p = RToPort r) \<or>
      (\<exists>n. NFS z = Some n \<and> (\<exists>e \<in> set (Exports n). \<not> v6 p \<and> addrMatch e (saddr p)) \<and>
        l4 p = ''tcp'' \<and> dport p \<in> {111, 2049, 20048}) \<or>
      (\<exists>s \<in> set (Services z).
        s = ''mdns'' \<and> l4 p = ''udp'' \<and> sport p = 5353 \<and> 1024 \<le> dport p \<and> dport p \<le> 65535 \<or>
        (\<exists>r \<in> set (portsOf builtinServices s). l4 p = PProto r \<and> dport p = PPort r)) \<or>
      (\<exists>r \<in> set (Ports z). l4 p = PProto r \<and> dport p = PPort r) \<or>
      equalFold (ZTarget z) ''ACCEPT'')"

definition hostOpens :: "reachabilityGuard \<Rightarrow> packet \<Rightarrow> bool" where
  "hostOpens guard p =
     (known p \<or> iif p = ''lo'' \<or>
      (hasPrefix (iif p) ''podman'' \<and>
        ((l4 p = ''udp'' \<or> l4 p = ''tcp'') \<and> dport p = 53 \<or> l4 p = ''udp'' \<and> dport p = 5353)) \<or>
      (l4 p = ''ipv6-icmp'' \<and>
        (icmp6 p \<in> {''destination-unreachable'', ''packet-too-big'', ''time-exceeded'', ''parameter-problem''} \<or>
         icmp6 p \<in> {''nd-router-solicit'', ''nd-router-advert'', ''nd-neighbor-solicit'', ''nd-neighbor-advert''} \<and>
         hops p = 255)) \<or>
      (iif p = TailscaleInterface guard \<and> l4 p = ''tcp'' \<and> dport p = GuardPort guard))"

lemma ifMatch_simps: "ifMatch ''lo'' i \<longleftrightarrow> i = ''lo''" "ifMatch ''podman*'' i \<longleftrightarrow> hasPrefix i ''podman''"
  by (simp_all add: ifMatch_def)

lemma ifMatch_valid: "validInterface t \<Longrightarrow> ifMatch t i \<longleftrightarrow> i = t"
proof -
  assume v: "validInterface t"
  have "\<not> interfaceChar CHR ''*''" by code_simp
  then have "t = [] \<or> last t \<noteq> CHR ''*''"
    using v by (cases t rule: rev_cases) (auto simp: validInterface_def)
  then show ?thesis by (auto simp: ifMatch_def)
qed

lemma zoneRules_accept: "r \<in> set (zoneRules name z) \<Longrightarrow> snd r = Accept"
  by (auto simp: zoneRules_def split: if_splits option.splits)

lemma reply_ports: "portsOf serviceReplyPorts s = (if s = ''mdns'' then [\<lparr>PPort = 5353, PProto = ''udp''\<rparr>] else [])"
  by (simp add: portsOf_def serviceReplyPorts_def PortMDNS_def)

abbreviation decided :: "packet \<Rightarrow> nftRule list \<Rightarrow> bool" where
  "decided p \<equiv> list_ex (\<lambda>q. fires p q \<and> snd q = Accept)"

lemma decided_concat: "list_ex P (concat xss) = (\<exists>xs \<in> set xss. list_ex P xs)"
  by (induction xss) simp_all

lemma decided_map: "decided p (map (\<lambda>x. (f x, Accept)) xs) = (\<exists>x \<in> set xs. list_all (matches p) (f x))"
  by (induction xs) (simp_all add: fires_def)

lemma decided_ssh:
  "decided p (case SSH z of None \<Rightarrow> [] | Some r \<Rightarrow> [([Dport ''tcp'' (SSHPort r)], Accept)]) =
     (\<exists>r. SSH z = Some r \<and> l4 p = ''tcp'' \<and> dport p = SSHPort r)"
  by (cases "SSH z") (simp_all add: fires_def)

lemma decided_nfs:
  "decided p (case NFS z of None \<Rightarrow> [] | Some n \<Rightarrow>
       map (\<lambda>e. ([Saddr e, DportSet ''tcp'' nfsPorts], Accept)) (sortedStrings (Exports n))) =
     (\<exists>n. NFS z = Some n \<and> (\<exists>e \<in> set (Exports n). \<not> v6 p \<and> addrMatch e (saddr p)) \<and>
       l4 p = ''tcp'' \<and> dport p \<in> {111, 2049, 20048})"
  by (cases "NFS z") (auto simp: decided_map nfsPorts_def wellknown_defs)

lemma decided_services:
  "decided p (concat (map (\<lambda>svc.
       map (\<lambda>r. ([Sport (PProto r) (PPort r), DportHigh (PProto r)], Accept)) (portsOf serviceReplyPorts svc) @
       map (\<lambda>r. ([Dport (PProto r) (PPort r)], Accept)) (portsOf builtinServices svc)) (sortedStrings ss))) =
     (\<exists>s \<in> set ss.
       s = ''mdns'' \<and> l4 p = ''udp'' \<and> sport p = 5353 \<and> 1024 \<le> dport p \<and> dport p \<le> 65535 \<or>
       (\<exists>r \<in> set (portsOf builtinServices s). l4 p = PProto r \<and> dport p = PPort r))"
proof -
  have "decided p (map (\<lambda>r. ([Sport (PProto r) (PPort r), DportHigh (PProto r)], Accept)) (portsOf serviceReplyPorts s) @
       map (\<lambda>r. ([Dport (PProto r) (PPort r)], Accept)) (portsOf builtinServices s)) =
     (s = ''mdns'' \<and> l4 p = ''udp'' \<and> sport p = 5353 \<and> 1024 \<le> dport p \<and> dport p \<le> 65535 \<or>
       (\<exists>r \<in> set (portsOf builtinServices s). l4 p = PProto r \<and> dport p = PPort r))" for s
    unfolding list_ex_append decided_map reply_ports by auto
  then show ?thesis
    by (simp only: decided_concat set_map bex_simps set_sortedStrings)
qed

lemma decided_redirects:
  "decided p (map (\<lambda>r. ([CtDnat, L4Proto (RProto r), OrigDport (RPort r), Dport (RProto r) (RToPort r)], Accept)) rs) =
     (\<exists>r \<in> set rs. dnatted p \<and> l4 p = RProto r \<and> origPort p = RPort r \<and> dport p = RToPort r)"
  unfolding decided_map by auto

lemma zoneRules_fire: "decided p (zoneRules name z) = zoneOpens name z p"
proof (cases "name = ''trusted''")
  case True
  then show ?thesis by (simp add: zoneRules_def zoneOpens_def fires_def)
next
  case False
  have "decided p (if c then [([], Accept)] else []) = c" for c
    by (simp add: fires_def)
  then show ?thesis
    using False
    unfolding zoneRules_def zoneOpens_def if_not_P [OF False] list_ex_append decided_ssh decided_nfs decided_services
      decided_redirects decided_map
    by simp
qed

lemma hostRules_fire:
  assumes "validInterface (TailscaleInterface guard)" "validPort (GuardPort guard)"
  shows "accepts env p (inputRules ds guard names) =
    (hostOpens guard p \<or>
     (\<exists>n \<in> set names. iif p \<in> set (Interfaces (zoneOf ds n)) \<and> decided p (env (''zone_'' @ n))) \<or>
     (\<exists>g. Ingress ds = Some g \<and> IngRedirects g \<noteq> [] \<and> iif p \<in> set (IngInterfaces g) \<and> l4 p = ''tcp'' \<and>
        dport p \<in> set (backendPorts g)))"
proof -
  have g: "TailscaleInterface guard \<noteq> [] \<and> GuardPort guard \<noteq> 0"
    using assms by (auto simp: validInterface_def validPort_def)
  have i: "accepts env p (case Ingress ds of None \<Rightarrow> [] | Some g \<Rightarrow> if IngRedirects g = [] then []
        else [([IifSet (IngInterfaces g), DportSet ''tcp'' (backendPorts g)], Accept)]) =
      (\<exists>g. Ingress ds = Some g \<and> IngRedirects g \<noteq> [] \<and> iif p \<in> set (IngInterfaces g) \<and> l4 p = ''tcp'' \<and>
        dport p \<in> set (backendPorts g))"
    by (cases "Ingress ds") (simp_all add: fires_def)
  show ?thesis
    unfolding inputRules_def accepts_append i if_P [OF g] accepts_jumps hostOpens_def
    by (simp add: fires_def ifMatch_simps ifMatch_valid [OF assms(1)] wellknown_defs) blast
qed

lemma backendPorts_set: "set (backendPorts g) = RToPort ` set (IngRedirects g)"
proof -
  have "set (fold (\<lambda>r ports. if RToPort r \<in> set ports then ports else ports @ [RToPort r]) rs acc) =
      set acc \<union> RToPort ` set rs" for rs :: "redirectRule list" and acc
    by (induction rs arbitrary: acc) auto
  then show ?thesis
    by (simp add: backendPorts_def sortedIngressRedirects_def)
qed

lemma zoneOf_in:
  assumes "distinct (map fst (Zones ds))" "(n, z) \<in> set (Zones ds)"
  shows "zoneOf ds n = z"
  using assms by (simp add: zoneOf_def)

lemma bex_zones:
  assumes "distinct (map fst (Zones ds))"
  shows "(\<exists>n \<in> fst ` set (Zones ds). P n (zoneOf ds n)) = (\<exists>(n, z) \<in> set (Zones ds). P n z)"
  by (simp only: bex_simps) (rule bex_cong [OF refl], auto simp: zoneOf_in [OF assms])

lemma set_zoneNames: "set (sortedZoneNames zs) = fst ` set zs"
  by (simp add: sortedZoneNames_def)

lemma inputAccepts_iff:
  assumes "validInterface (TailscaleInterface guard)" "validPort (GuardPort guard)" "distinct (map fst (Zones ds))"
  shows "inputAccepts ds guard p =
    (hostOpens guard p \<or>
     (\<exists>(n, z) \<in> set (Zones ds). iif p \<in> set (Interfaces z) \<and> zoneOpens n z p) \<or>
     (\<exists>g. Ingress ds = Some g \<and> iif p \<in> set (IngInterfaces g) \<and> l4 p = ''tcp'' \<and>
        dport p \<in> RToPort ` set (IngRedirects g)))"
proof -
  have "zoneChains ds (''zone_'' @ n) = zoneRules n (zoneOf ds n)" for n
    by (simp add: zoneChains_def)
  then have "(\<exists>n \<in> set (sortedZoneNames (Zones ds)). iif p \<in> set (Interfaces (zoneOf ds n)) \<and>
        decided p (zoneChains ds (''zone_'' @ n))) =
      (\<exists>(n, z) \<in> set (Zones ds). iif p \<in> set (Interfaces z) \<and> zoneOpens n z p)"
    unfolding set_zoneNames
    using bex_zones [OF assms(3), of "\<lambda>n z. iif p \<in> set (Interfaces z) \<and> zoneOpens n z p"]
    by (simp add: zoneRules_fire)
  then show ?thesis
    unfolding inputAccepts_def hostRules_fire [OF assms(1,2)] backendPorts_set by auto
qed

section \<open>Forwarding\<close>

definition forwardAccepts :: "desiredState \<Rightarrow> packet \<Rightarrow> bool" where
  "forwardAccepts ds p = accepts (\<lambda>_. []) p (forwardRules ds (sortedZoneNames (Zones ds)))"

lemma forwardAccepts_iff:
  assumes "distinct (map fst (Zones ds))"
  shows "forwardAccepts ds p =
    (known p \<or> (AllowDNATForward ds \<and> dnatted p) \<or>
     (\<exists>(n, z) \<in> set (Zones ds). iif p \<in> set (Interfaces z) \<and>
        (\<exists>e \<in> set (Forward z). oif p \<in> set (Interfaces (zoneOf ds e)))))"
proof -
  have "forwardAccepts ds p =
      (\<exists>r \<in> set (forwardRules ds (sortedZoneNames (Zones ds))). fires p r)"
    unfolding forwardAccepts_def by (rule accepts_accepting) (auto simp: forwardRules_def split: if_splits)
  also have "\<dots> = (known p \<or> (AllowDNATForward ds \<and> dnatted p) \<or>
      (\<exists>n \<in> fst ` set (Zones ds). iif p \<in> set (Interfaces (zoneOf ds n)) \<and>
        (\<exists>e \<in> set (Forward (zoneOf ds n)). oif p \<in> set (Interfaces (zoneOf ds e)))))"
    unfolding forwardRules_def set_append bex_Un set_concat set_map set_zoneNames
    by (simp add: fires_def)
  also have "\<dots> = (known p \<or> (AllowDNATForward ds \<and> dnatted p) \<or>
      (\<exists>(n, z) \<in> set (Zones ds). iif p \<in> set (Interfaces z) \<and>
        (\<exists>e \<in> set (Forward z). oif p \<in> set (Interfaces (zoneOf ds e)))))"
    unfolding bex_zones [OF assms, of "\<lambda>n z. iif p \<in> set (Interfaces z) \<and>
        (\<exists>e \<in> set (Forward z). oif p \<in> set (Interfaces (zoneOf ds e)))"] ..
  finally show ?thesis .
qed

end
