(* ===== verification/Firewall_Properties.thy ===== *)
theory Firewall_Properties
  imports Nft_Policy_Facts "HOL-Library.Sublist"
begin

text \<open>
  The properties of the firewall domain: what a rendered script consists of, what its filter
  chains accept, and what validation requires.
\<close>

definition demoPolicy :: desiredState where
  "demoPolicy = zeroState\<lparr>Zones :=
     [(''lan'', zeroZone\<lparr>Interfaces := [''eth0''], SSH := Some \<lparr>SSHPort = 22\<rparr>, Services := [''dns''],
         Forward := [''wan'']\<rparr>),
      (''wan'', zeroZone\<lparr>Interfaces := [''eth1''], Ports := [\<lparr>PPort = 443, PProto = ''tcp''\<rparr>]\<rparr>)]\<rparr>"

definition demoGuard :: reachabilityGuard where
  "demoGuard = \<lparr>TailscaleInterface = ''tailscale0'', GuardPort = 7443\<rparr>"

definition demoPacket :: packet where
  "demoPacket = \<lparr>iif = ''tailscale0'', oif = [], l4 = ''tcp'', sport = 40000, dport = 7443, v6 = False,
     saddr = NoAddr, daddr = NoAddr, known = False, dnatted = False, origPort = 0, icmp6 = [], hops = 64\<rparr>"

lemma demo_valid: "validate demoPolicy = Inr ()"
  by code_simp

lemma demo_guard: "validInterface (TailscaleInterface demoGuard)" "validPort (GuardPort demoGuard)"
  by code_simp+

lemma demo_rendered:
  "Render demoPolicy demoGuard = Inr (concat (renderHead @ renderBody demoPolicy demoGuard @ [ln ''}'']))"
  by (simp add: Render_def demo_valid demo_guard)

lemma demo_full: "\<not> RedirectOnly demoPolicy" "distinct (map fst (Zones demoPolicy))"
  by (simp_all add: demoPolicy_def zeroState_def)

lemma Render_Inr:
  assumes "Render ds guard = Inr script"
  shows "validInterface (TailscaleInterface guard)" "validPort (GuardPort guard)" "policyOk ds"
    "script = concat (renderHead @ renderBody ds guard @ [ln ''}''])"
  using assms by (auto simp: Render_def bindR_Inr validate_iff_policyOk [symmetric] split: if_splits)

lemma render_text:
  assumes "Render ds guard = Inr script" "\<not> RedirectOnly ds"
  shows "script = concat renderHead @ concat (writeTFTPHelper ds (sortedZoneNames (Zones ds))) @
    chainText ''input'' [ln ''    type filter hook input priority 0; policy drop;'']
      (inputRules ds guard (sortedZoneNames (Zones ds))) @
    chainText ''forward'' [ln ''    type filter hook forward priority 0; policy drop;'']
      (forwardRules ds (sortedZoneNames (Zones ds))) @
    (case Output ds of None \<Rightarrow> [] | Some p \<Rightarrow>
       chainText ''output'' [ln (''    type filter hook output priority 0; policy '' @ toLower (Policy p) @ '';'')]
         (outputRules p)) @
    concat (writePreroutingChain ds) @ concat (writeIngressOutputChain ds) @
    concat (writePostroutingChain ds (sortedZoneNames (Zones ds))) @
    concat (map (\<lambda>n. chainText (''zone_'' @ n) [] (zoneRules n (zoneOf ds n))) (sortedZoneNames (Zones ds))) @
    ln ''}''"
proof -
  have out: "concat (writeOutputChain (Output ds)) = (case Output ds of None \<Rightarrow> [] | Some p \<Rightarrow>
       chainText ''output'' [ln (''    type filter hook output priority 0; policy '' @ toLower (Policy p) @ '';'')]
         (outputRules p))"
    by (cases "Output ds") (simp_all add: writeOutputChain_text, simp add: writeOutputChain_def)
  have "script = concat (renderHead @ renderBody ds guard @ [ln ''}''])"
    by (rule Render_Inr(4) [OF assms(1)])
  then show ?thesis
    unfolding renderBody_def Let_def if_not_P [OF assms(2)] concat_append writeInputChain_text
      writeForwardChain_text out concat_concat writeZoneChain_text by simp
qed

lemma sublist_after: "sublist b c \<Longrightarrow> sublist b (a @ c)"
  by (auto simp: sublist_def) (metis append_assoc)

definition inputText :: "desiredState \<Rightarrow> reachabilityGuard \<Rightarrow> string" where
  "inputText ds guard = chainText ''input'' [ln ''    type filter hook input priority 0; policy drop;'']
     (inputRules ds guard (sortedZoneNames (Zones ds)))"

definition forwardText :: "desiredState \<Rightarrow> string" where
  "forwardText ds = chainText ''forward'' [ln ''    type filter hook forward priority 0; policy drop;'']
     (forwardRules ds (sortedZoneNames (Zones ds)))"

lemma render_chains:
  assumes "Render ds guard = Inr script" "\<not> RedirectOnly ds"
  shows "sublist (inputText ds guard) script" "sublist (forwardText ds) script"
proof -
  note script = render_text [OF assms, folded inputText_def forwardText_def]
  show "sublist (inputText ds guard) script"
    unfolding script by (rule sublist_append_rightI sublist_after)+
  show "sublist (forwardText ds) script"
    unfolding script by (rule sublist_append_rightI sublist_after)+
qed



text \<open>
  C10. The reachability guard cannot be lost: whatever the request says, the script of a full
  policy has the printed input chain, and that chain accepts every packet that arrives on the
  overlay interface for the daemon's port.
\<close>

theorem guard_always_reachable:
  assumes "Render ds guard = Inr script" "\<not> RedirectOnly ds"
    "iif p = TailscaleInterface guard" "l4 p = ''tcp''" "dport p = GuardPort guard"
  shows "sublist (inputText ds guard) script \<and> inputAccepts ds guard p"
proof -
  have "inputAccepts ds guard p"
    unfolding inputAccepts_def hostRules_fire [OF Render_Inr(1,2) [OF assms(1)]] hostOpens_def
    by (simp add: assms)
  then show ?thesis using render_chains(1) [OF assms(1,2)] by simp
qed

theorem guard_always_reachable_witness: "inputAccepts demoPolicy demoGuard demoPacket"
  by (rule guard_always_reachable [OF demo_rendered demo_full(1), THEN conjunct2])
    (simp_all add: demoGuard_def demoPacket_def)



text \<open>
  C12. Forwarding is closed by default: the script has the printed forward chain, and that chain
  lets a packet through exactly when its connection is known, when another table rewrote its
  destination and the request allows that, or when the zone of its incoming interface names a
  zone of its outgoing interface as egress.
\<close>

theorem forward_chain_is_the_policy:
  assumes "Render ds guard = Inr script" "\<not> RedirectOnly ds" "distinct (map fst (Zones ds))"
  shows "sublist (forwardText ds) script \<and> forwardAccepts ds p =
    (known p \<or> (AllowDNATForward ds \<and> dnatted p) \<or>
     (\<exists>(n, z) \<in> set (Zones ds). iif p \<in> set (Interfaces z) \<and>
        (\<exists>e \<in> set (Forward z). oif p \<in> set (Interfaces (zoneOf ds e)))))"
  using render_chains(2) [OF assms(1,2)] forwardAccepts_iff [OF assms(3)] by simp

theorem forward_chain_is_the_policy_witness:
  "forwardAccepts demoPolicy (demoPacket\<lparr>iif := ''eth0'', oif := ''eth1''\<rparr>) \<and>
   \<not> forwardAccepts demoPolicy (demoPacket\<lparr>iif := ''eth1'', oif := ''eth0''\<rparr>)"
  unfolding forward_chain_is_the_policy [OF demo_rendered demo_full, THEN conjunct2]
  by (simp add: demoPolicy_def demoPacket_def zeroState_def zeroZone_def zoneOf_def)

text \<open>
  C13. Validation accepts exactly the requests of the declarative rules: each zone well formed,
  no interface in two zones or twice in one, every egress zone declared, every service known,
  and at least one zone that keeps the host reachable.
\<close>

theorem validate_is_the_schema: "validate ds = Inr () \<longleftrightarrow> policyOk ds"
  by (rule validate_iff_policyOk)

text \<open>
  C14. The same policy renders the same script: the order in which the map of zones is iterated
  decides neither whether a request is accepted nor the text it renders to.
\<close>

theorem render_ignores_map_order:
  assumes "mset zs = mset (Zones ds)" "distinct (map fst (Zones ds))"
  shows "Render (ds\<lparr>Zones := zs\<rparr>) guard = Inr script \<longleftrightarrow> Render ds guard = Inr script"
  using policyOk_perm [OF assms(1)] render_perm [OF assms]
  by (simp add: Render_def bindR_Inr validate_iff_policyOk)

theorem render_ignores_map_order_witness:
  "Render (demoPolicy\<lparr>Zones := rev (Zones demoPolicy)\<rparr>) demoGuard =
   Inr (concat (renderHead @ renderBody demoPolicy demoGuard @ [ln ''}'']))"
  by (rule render_ignores_map_order [THEN iffD2, OF _ demo_full(2) demo_rendered]) simp

end
