(* ===== verification/Bolt.thy ===== *)
theory Bolt
  imports Go_Json
begin

text \<open>
  The embedded key-value store the address book keeps its ledger in (\<^verbatim>\<open>go.etcd.io/bbolt\<close>).  It
  is not part of the repository: its operations are a parameter \<open>'t bolt\<close> over an abstract
  state \<open>'t\<close> of the database, and the locale \<open>bolt_laws\<close> states the documented behaviour the
  code relies on.  An operation may fail at any time; the laws only say what holds when it
  succeeds.  \<open>reliable_bolt\<close> adds that a valid operation succeeds.  The end of the theory
  interprets both on an in-memory store with sorted buckets.
\<close>

section \<open>Operations\<close>

text \<open>
  \<open>bktEntries\<close> is what \<^verbatim>\<open>ForEach\<close> and a cursor walk: the pairs of a bucket in key order.
  \<open>txBegin\<close> is the error with which a transaction cannot start, and \<open>txCommit old new\<close> the
  attempt to make the state \<open>new\<close> durable over \<open>old\<close>.
\<close>

record 't bolt =
  bktHas :: "string \<Rightarrow> 't \<Rightarrow> bool"
  bktCreate :: "string \<Rightarrow> ('t, unit) prog"
  bktGet :: "string \<Rightarrow> string \<Rightarrow> 't \<Rightarrow> bytes option"
  bktPut :: "string \<Rightarrow> string \<Rightarrow> bytes \<Rightarrow> ('t, unit) prog"
  bktDelete :: "string \<Rightarrow> string \<Rightarrow> ('t, unit) prog"
  bktEntries :: "string \<Rightarrow> 't \<Rightarrow> (string \<times> bytes) list"
  bktNext :: "string \<Rightarrow> ('t, nat) prog"
  bktSeq :: "string \<Rightarrow> 't \<Rightarrow> nat"
  txBegin :: "'t \<Rightarrow> error option"
  txCommit :: "'t \<Rightarrow> ('t, unit) prog"

text \<open>
  The state of an open address book: the database, and the clock, which may show any instant
  at each reading.
\<close>

record 't book =
  db :: 't
  wall :: "nat \<Rightarrow> int"
  reads :: nat

definition bookNow :: "('t book, int) prog" where
  "bookNow s = (Done (wall s (reads s)), s\<lparr>reads := Suc (reads s)\<rparr>)"

text \<open>A database operation inside a transaction of the book.\<close>

definition inTx :: "('t, 'a) prog \<Rightarrow> ('t book, 'a) prog" where
  "inTx m s = (case m (db s) of (r, t) \<Rightarrow> (r, s\<lparr>db := t\<rparr>))"

text \<open>
  \<^verbatim>\<open>db.Update\<close>: the body runs on a private copy that is made durable when the body returns
  no error, and dropped otherwise.  Death at the commit leaves what \<open>txCommit\<close> left.
\<close>

definition Update :: "'t bolt \<Rightarrow> ('t book, 'a) prog \<Rightarrow> ('t book, 'a) prog" where
  "Update B body s = (case txBegin B (db s) of
       Some e \<Rightarrow> (Err e, s)
     | None \<Rightarrow> (case body s of
         (Done a, t) \<Rightarrow> (case txCommit B (db s) (db t) of
             (Done _, d) \<Rightarrow> (Done a, t\<lparr>db := d\<rparr>)
           | (Err e, d) \<Rightarrow> (Err e, t\<lparr>db := db s\<rparr>)
           | (Died, d) \<Rightarrow> (Died, t\<lparr>db := d\<rparr>))
       | (Err e, t) \<Rightarrow> (Err e, t\<lparr>db := db s\<rparr>)
       | (Died, t) \<Rightarrow> (Died, t\<lparr>db := db s\<rparr>)))"

text \<open>\<^verbatim>\<open>db.View\<close>: a read-only transaction.\<close>

definition View :: "'t bolt \<Rightarrow> ('t book, 'a) prog \<Rightarrow> ('t book, 'a) prog" where
  "View B body s = (case txBegin B (db s) of
       Some e \<Rightarrow> (Err e, s)
     | None \<Rightarrow> (case body s of (r, t) \<Rightarrow> (r, t\<lparr>db := db s\<rparr>)))"

text \<open>A cursor set with \<^verbatim>\<open>Seek(p)\<close> and walked to the end, or while the keys start with \<open>p\<close>.\<close>

definition seekFrom :: "'t bolt \<Rightarrow> string \<Rightarrow> string \<Rightarrow> 't \<Rightarrow> (string \<times> bytes) list" where
  "seekFrom B b p t = dropWhile (\<lambda>(k, _). k < p) (bktEntries B b t)"

definition scanPrefix :: "'t bolt \<Rightarrow> string \<Rightarrow> string \<Rightarrow> 't \<Rightarrow> (string \<times> bytes) list" where
  "scanPrefix B b p t = takeWhile (\<lambda>(k, _). hasPrefix k p) (seekFrom B b p t)"

section \<open>Documented behaviour\<close>

locale bolt_laws =
  fixes B :: "'t bolt"
  assumes put_get: "bktPut B b k v t = (Done u, t') \<Longrightarrow>
      bktGet B c j t' = (if c = b \<and> j = k then Some v else bktGet B c j t)"
    and put_seq: "bktPut B b k v t = (Done u, t') \<Longrightarrow> bktSeq B c t' = bktSeq B c t"
    and put_has: "bktPut B b k v t = (Done u, t') \<Longrightarrow> bktHas B c t' = bktHas B c t"
    and del_get: "bktDelete B b k t = (Done u, t') \<Longrightarrow>
      bktGet B c j t' = (if c = b \<and> j = k then None else bktGet B c j t)"
    and del_seq: "bktDelete B b k t = (Done u, t') \<Longrightarrow> bktSeq B c t' = bktSeq B c t"
    and del_has: "bktDelete B b k t = (Done u, t') \<Longrightarrow> bktHas B c t' = bktHas B c t"
    and next_val: "bktNext B b t = (Done n, t') \<Longrightarrow> n = Suc (bktSeq B b t)"
    and next_seq: "bktNext B b t = (Done n, t') \<Longrightarrow>
      bktSeq B c t' = (if c = b then Suc (bktSeq B b t) else bktSeq B c t)"
    and next_get: "bktNext B b t = (Done n, t') \<Longrightarrow> bktGet B c j t' = bktGet B c j t"
    and next_has: "bktNext B b t = (Done n, t') \<Longrightarrow> bktHas B c t' = bktHas B c t"
    and create_get: "bktCreate B b t = (Done u, t') \<Longrightarrow> bktGet B c j t' = bktGet B c j t"
    and create_seq: "bktCreate B b t = (Done u, t') \<Longrightarrow> bktSeq B c t' = bktSeq B c t"
    and create_has: "bktCreate B b t = (Done u, t') \<Longrightarrow> bktHas B c t' = (c = b \<or> bktHas B c t)"
    and entries_sorted: "sorted_wrt (<) (map fst (bktEntries B b t))"
    and entries_get: "(k, v) \<in> set (bktEntries B b t) \<longleftrightarrow> bktGet B b k t = Some v"
    and commit_done: "txCommit B old new = (Done u, t') \<Longrightarrow> t' = new"
    and commit_died: "txCommit B old new = (Died, t') \<Longrightarrow> t' = old \<or> t' = new"

text \<open>A store that works: every valid operation succeeds.\<close>

locale reliable_bolt = bolt_laws B for B :: "'t bolt" +
  assumes put_ok: "bktHas B b t \<Longrightarrow> k \<noteq> [] \<Longrightarrow> length k \<le> 32768 \<Longrightarrow> fst (bktPut B b k v t) = Done ()"
    and del_ok: "bktHas B b t \<Longrightarrow> fst (bktDelete B b k t) = Done ()"
    and next_ok: "bktHas B b t \<Longrightarrow> \<exists>n. fst (bktNext B b t) = Done n"
    and begin_ok: "txBegin B t = None"
    and commit_ok: "fst (txCommit B old new) = Done ()"

subsection \<open>Prefix scans\<close>

lemma prefix_range:
  "p \<le> k \<Longrightarrow> k < p @ r \<Longrightarrow> hasPrefix k (p :: string)"
proof (induction p arbitrary: k)
  case (Cons a p)
  then show ?case by (cases k) auto
qed simp

lemma prefix_least: "(p :: string) \<le> p @ r"
  by (induction p) auto

lemma scan_sorted:
  assumes "sorted_wrt (<) (map fst xs)"
  shows "takeWhile (\<lambda>(k, _). hasPrefix k p) (dropWhile (\<lambda>(k, _). k < p) xs) =
    filter (\<lambda>(k, _). hasPrefix k p) (xs :: (string \<times> 'v) list)"
  using assms
proof (induction xs)
  case (Cons x xs)
  obtain k v where x: "x = (k, v)" by force
  have later: "\<forall>y \<in> set xs. k < fst y" using Cons.prems by (auto simp: x)
  show ?case
  proof (cases "k < p")
    case True
    then have "\<not> hasPrefix k p" using prefix_least [of p] by (auto simp: hasPrefix_iff dest: leD)
    then show ?thesis using Cons True by (simp add: x)
  next
    case False
    then have geq: "p \<le> k" by simp
    have tail: "dropWhile (\<lambda>(k, _). k < p) xs = xs"
      using later geq by (cases xs) (auto dest: order.strict_trans1)
    have none: "filter (\<lambda>(k, _). hasPrefix k p) xs = []" if "\<not> hasPrefix k p"
      using that later prefix_range [OF geq] by (fastforce simp: filter_empty_conv hasPrefix_iff)
    show ?thesis
      using Cons False tail none by (auto simp: x)
  qed
qed simp

context bolt_laws
begin

lemma scan_filter: "scanPrefix B b p t = filter (\<lambda>(k, _). hasPrefix k p) (bktEntries B b t)"
  unfolding scanPrefix_def seekFrom_def by (rule scan_sorted [OF entries_sorted])

lemma scan_mem: "(k, v) \<in> set (scanPrefix B b p t) \<longleftrightarrow> hasPrefix k p \<and> bktGet B b k t = Some v"
  by (auto simp: scan_filter entries_get)

lemma seek_mem: "(k, v) \<in> set (seekFrom B b p t) \<longleftrightarrow> p \<le> k \<and> bktGet B b k t = Some v"
proof -
  have "sorted_wrt (<) (map fst xs) \<Longrightarrow>
      set (dropWhile (\<lambda>(k, _). k < p) xs) = {kv \<in> set xs. p \<le> fst kv}" for xs :: "(string \<times> bytes) list"
    by (induction xs) (auto simp: not_less intro: order.trans less_imp_le)
  from this [OF entries_sorted] show ?thesis
    by (auto simp: seekFrom_def entries_get)
qed

lemma entries_distinct: "distinct (map fst (bktEntries B b t))"
  using entries_sorted [of b t] by (simp add: strict_sorted_iff)

text \<open>A transaction that succeeds leaves what its body left; one that fails leaves nothing.\<close>

lemma Update_Done:
  assumes "Update B body s = (Done a, s')"
  shows "body s = (Done a, s')"
  using assms by (auto simp: Update_def split: option.splits prod.splits outcome.splits dest: commit_done)

lemma Update_Err:
  assumes "Update B body s = (Err e, s')"
  shows "db s' = db s"
  using assms by (auto simp: Update_def split: option.splits prod.splits outcome.splits)

lemma Update_Died:
  assumes "Update B body s = (Died, s')"
  shows "db s' = db s \<or> (\<exists>a t. body s = (Done a, t) \<and> db s' = db t)"
  using assms by (auto simp: Update_def split: option.splits prod.splits outcome.splits dest: commit_died)

lemma Update_inv:
  assumes "\<And>a t. body s = (Done a, t) \<Longrightarrow> I (db t)" "I (db s)" "Update B body s = (r, s')"
  shows "I (db s')"
proof (cases r)
  case (Done a)
  then show ?thesis using assms(1) [of a s'] Update_Done [of body s a s'] assms(3) by simp
next
  case (Err e)
  then show ?thesis using Update_Err [of body s e s'] assms(2,3) by simp
next
  case Died
  then consider "db s' = db s" | a t where "body s = (Done a, t)" "db s' = db t"
    using Update_Died [of body s s'] assms(3) by blast
  then show ?thesis using assms(1,2) by cases simp_all
qed

end

context reliable_bolt
begin

lemma put_total:
  "bktHas B b t \<Longrightarrow> k \<noteq> [] \<Longrightarrow> length k \<le> 32768 \<Longrightarrow> \<exists>t'. bktPut B b k v t = (Done (), t')"
  using put_ok [of b t k v] by (cases "bktPut B b k v t") simp

lemma del_total: "bktHas B b t \<Longrightarrow> \<exists>t'. bktDelete B b k t = (Done (), t')"
  using del_ok [of b t k] by (cases "bktDelete B b k t") simp

lemma next_total: "bktHas B b t \<Longrightarrow> \<exists>t'. bktNext B b t = (Done (Suc (bktSeq B b t)), t')"
  using next_ok [of b t] next_val [of b t] by (cases "bktNext B b t") auto

lemma Update_total:
  assumes "body s = (Done a, t)"
  shows "Update B body s = (Done a, t)"
proof -
  obtain t' where "txCommit B (db s) (db t) = (Done (), t')" using commit_ok [of "db s" "db t"]
    by (cases "txCommit B (db s) (db t)") auto
  moreover from this have "t' = db t" by (rule commit_done)
  ultimately show ?thesis using assms by (simp add: Update_def begin_ok)
qed

end

section \<open>An in-memory store\<close>

text \<open>Each bucket that exists has its sequence number and its pairs in key order.\<close>

type_synonym mem = "(string \<times> nat \<times> (string \<times> bytes) list) list"

fun sortedPut :: "string \<Rightarrow> 'v \<Rightarrow> (string \<times> 'v) list \<Rightarrow> (string \<times> 'v) list" where
  "sortedPut k v [] = [(k, v)]"
| "sortedPut k v ((j, w) # m) =
     (if k = j then (k, v) # m else if k < j then (k, v) # (j, w) # m else (j, w) # sortedPut k v m)"

definition memBucket :: "string \<Rightarrow> mem \<Rightarrow> nat \<times> (string \<times> bytes) list" where
  "memBucket b t = (case map_of t b of None \<Rightarrow> (0, []) | Some x \<Rightarrow> x)"

definition memChange ::
  "string \<Rightarrow> (nat \<times> (string \<times> bytes) list \<Rightarrow> nat \<times> (string \<times> bytes) list) \<Rightarrow> (mem, unit) prog" where
  "memChange b f t = (if map_of t b = None then (Died, t) else (Done (), assocPut b (f (memBucket b t)) t))"

text \<open>Buckets are read back in key order whatever the order of their pairs in memory.\<close>

definition memPairs :: "string \<Rightarrow> mem \<Rightarrow> (string \<times> bytes) list" where
  "memPairs b t = foldr (\<lambda>(k, v). sortedPut k v) (snd (memBucket b t)) []"

definition memBolt :: "mem bolt" where
  "memBolt = \<lparr>
     bktHas = (\<lambda>b t. map_of t b \<noteq> None),
     bktCreate = (\<lambda>b t. (Done (), if map_of t b = None then assocPut b (0, []) t else t)),
     bktGet = (\<lambda>b k t. map_of (memPairs b t) k),
     bktPut = (\<lambda>b k v. if k = [] \<or> 32768 < length k then raise (Error ''key required'')
                 else memChange b (\<lambda>(n, m). (n, (k, v) # m))),
     bktDelete = (\<lambda>b k. memChange b (\<lambda>(n, m). (n, filter (\<lambda>(j, _). j \<noteq> k) m))),
     bktEntries = memPairs,
     bktNext = (\<lambda>b t. (case memChange b (\<lambda>(n, m). (Suc n, m)) t of
         (Done _, t') \<Rightarrow> (Done (Suc (fst (memBucket b t))), t') | (_, t') \<Rightarrow> (Died, t'))),
     bktSeq = (\<lambda>b t. fst (memBucket b t)),
     txBegin = (\<lambda>_. None),
     txCommit = (\<lambda>_ t. (Done (), t))\<rparr>"

lemma sortedPut_keys: "fst ` set (sortedPut k v m) = insert k (fst ` set m)"
  by (induction k v m rule: sortedPut.induct) auto

lemma sortedPut_sorted: "sorted_wrt (<) (map fst m) \<Longrightarrow> sorted_wrt (<) (map fst (sortedPut k v m))"
proof (induction k v m rule: sortedPut.induct)
  case (2 k v j w m)
  have "\<forall>x \<in> fst ` set (sortedPut k v m). j < x" if "j < k"
    using 2 that by (auto simp: sortedPut_keys)
  then show ?case using 2 by (auto dest: less_trans)
qed simp

lemma sortedPut_get:
  "sorted_wrt (<) (map fst m) \<Longrightarrow> map_of (sortedPut k v m) j = (if j = k then Some v else map_of m j)"
  by (induction k v m rule: sortedPut.induct) auto

lemma memPairs_sorted: "sorted_wrt (<) (map fst (memPairs b t))"
proof -
  have "sorted_wrt (<) (map fst (foldr (\<lambda>(k, v). sortedPut k v) m []))" for m :: "(string \<times> bytes) list"
    by (induction m) (auto intro: sortedPut_sorted)
  then show ?thesis by (simp add: memPairs_def)
qed

lemma memPairs_get: "map_of (memPairs b t) k = map_of (snd (memBucket b t)) k"
proof -
  have "sorted_wrt (<) (map fst (foldr (\<lambda>(k, v). sortedPut k v) m [])) \<and>
      map_of (foldr (\<lambda>(k, v). sortedPut k v) m []) k = map_of m k" for m :: "(string \<times> bytes) list"
    by (induction m) (auto simp: sortedPut_get intro: sortedPut_sorted)
  then show ?thesis by (simp add: memPairs_def)
qed

lemma assocPut_get: "map_of (assocPut k v m) j = (if j = k then Some v else map_of m j)"
  by (induction k v m rule: assocPut.induct) auto

lemma memChange_Done:
  "memChange b f t = (Done u, t') \<Longrightarrow>
     memBucket c t' = (if c = b then f (memBucket b t) else memBucket c t) \<and>
     (map_of t' c \<noteq> None) = (map_of t c \<noteq> None)"
  by (auto simp: memChange_def memBucket_def assocPut_get split: if_splits option.splits)

lemma map_of_others: "map_of (filter (\<lambda>(j, _). j \<noteq> k) m) j = (if j = k then None else map_of m j)"
  by (induction m) auto

lemma memBolt_change:
  "bktPut memBolt b k v t = (Done u, t') \<Longrightarrow> memChange b (\<lambda>(n, m). (n, (k, v) # m)) t = (Done u, t')"
  "bktDelete memBolt b k t = (Done u, t') \<Longrightarrow>
     memChange b (\<lambda>(n, m). (n, filter (\<lambda>(j, _). j \<noteq> k) m)) t = (Done u, t')"
  "bktNext memBolt b t = (Done n, t') \<Longrightarrow>
     n = Suc (fst (memBucket b t)) \<and> memChange b (\<lambda>(n, m). (Suc n, m)) t = (Done (), t')"
  by (auto simp: memBolt_def raise_def split: if_splits prod.splits outcome.splits)

lemma memBolt_read:
  "bktGet memBolt b k t = map_of (snd (memBucket b t)) k" "bktSeq memBolt b t = fst (memBucket b t)"
  "bktHas memBolt b t = (map_of t b \<noteq> None)"
  by (simp_all add: memBolt_def memPairs_get)

lemma memBolt_create:
  "bktCreate memBolt b t = (Done u, t') \<Longrightarrow>
     memBucket c t' = memBucket c t \<and> (map_of t' c \<noteq> None) = (c = b \<or> map_of t c \<noteq> None)"
  by (auto simp: memBolt_def memBucket_def assocPut_get split: if_splits option.splits)

interpretation mem: reliable_bolt memBolt
proof unfold_locales
  fix b c k j v t t' u n
  show "bktPut memBolt b k v t = (Done u, t') \<Longrightarrow>
      bktGet memBolt c j t' = (if c = b \<and> j = k then Some v else bktGet memBolt c j t)"
    by (drule memBolt_change, drule memChange_Done [where c = c]) (auto simp: memBolt_read split: prod.splits)
  show "bktPut memBolt b k v t = (Done u, t') \<Longrightarrow> bktSeq memBolt c t' = bktSeq memBolt c t"
    by (drule memBolt_change, drule memChange_Done [where c = c]) (auto simp: memBolt_read split: prod.splits)
  show "bktPut memBolt b k v t = (Done u, t') \<Longrightarrow> bktHas memBolt c t' = bktHas memBolt c t"
    by (drule memBolt_change, drule memChange_Done [where c = c]) (auto simp: memBolt_read)
  show "bktDelete memBolt b k t = (Done u, t') \<Longrightarrow>
      bktGet memBolt c j t' = (if c = b \<and> j = k then None else bktGet memBolt c j t)"
    by (drule memBolt_change, drule memChange_Done [where c = c])
      (auto simp: memBolt_read map_of_others split: prod.splits)
  show "bktDelete memBolt b k t = (Done u, t') \<Longrightarrow> bktSeq memBolt c t' = bktSeq memBolt c t"
    by (drule memBolt_change, drule memChange_Done [where c = c]) (auto simp: memBolt_read split: prod.splits)
  show "bktDelete memBolt b k t = (Done u, t') \<Longrightarrow> bktHas memBolt c t' = bktHas memBolt c t"
    by (drule memBolt_change, drule memChange_Done [where c = c]) (auto simp: memBolt_read)
  show "bktNext memBolt b t = (Done n, t') \<Longrightarrow> n = Suc (bktSeq memBolt b t)"
    by (drule memBolt_change) (simp add: memBolt_read)
  show "bktNext memBolt b t = (Done n, t') \<Longrightarrow>
      bktSeq memBolt c t' = (if c = b then Suc (bktSeq memBolt b t) else bktSeq memBolt c t)"
    by (drule memBolt_change, erule conjE, drule memChange_Done [where c = c])
      (auto simp: memBolt_read split: prod.splits)
  show "bktNext memBolt b t = (Done n, t') \<Longrightarrow> bktGet memBolt c j t' = bktGet memBolt c j t"
    by (drule memBolt_change, erule conjE, drule memChange_Done [where c = c])
      (auto simp: memBolt_read split: prod.splits)
  show "bktNext memBolt b t = (Done n, t') \<Longrightarrow> bktHas memBolt c t' = bktHas memBolt c t"
    by (drule memBolt_change, erule conjE, drule memChange_Done [where c = c]) (auto simp: memBolt_read)
  show "bktCreate memBolt b t = (Done u, t') \<Longrightarrow> bktGet memBolt c j t' = bktGet memBolt c j t"
    by (drule memBolt_create [where c = c]) (simp add: memBolt_read)
  show "bktCreate memBolt b t = (Done u, t') \<Longrightarrow> bktSeq memBolt c t' = bktSeq memBolt c t"
    by (drule memBolt_create [where c = c]) (simp add: memBolt_read)
  show "bktCreate memBolt b t = (Done u, t') \<Longrightarrow> bktHas memBolt c t' = (c = b \<or> bktHas memBolt c t)"
    by (drule memBolt_create [where c = c]) (auto simp: memBolt_read)
  show "sorted_wrt (<) (map fst (bktEntries memBolt b t))"
    by (simp add: memBolt_def memPairs_sorted)
  show "(k, v) \<in> set (bktEntries memBolt b t) \<longleftrightarrow> bktGet memBolt b k t = Some v"
    using memPairs_sorted [of b t] by (simp add: memBolt_def strict_sorted_iff)
  show "txCommit memBolt old new = (Done u, t') \<Longrightarrow> t' = new" for old new
    by (simp add: memBolt_def)
  show "txCommit memBolt old new = (Died, t') \<Longrightarrow> t' = old \<or> t' = new" for old new
    by (simp add: memBolt_def)
  show "bktHas memBolt b t \<Longrightarrow> k \<noteq> [] \<Longrightarrow> length k \<le> 32768 \<Longrightarrow> fst (bktPut memBolt b k v t) = Done ()"
    by (simp add: memBolt_def memChange_def)
  show "bktHas memBolt b t \<Longrightarrow> fst (bktDelete memBolt b k t) = Done ()"
    by (simp add: memBolt_def memChange_def)
  show "bktHas memBolt b t \<Longrightarrow> \<exists>n. fst (bktNext memBolt b t) = Done n"
    by (simp add: memBolt_def memChange_def)
  show "txBegin memBolt t = None"
    by (simp add: memBolt_def)
  show "fst (txCommit memBolt old new) = Done ()" for old new
    by (simp add: memBolt_def)
qed

end
