(* ===== verification/Book_Config.thy ===== *)
theory Book_Config
  imports Go_Sha256 Go_Path Go_Json
begin

text \<open>
  The configuration of the address book (\<^verbatim>\<open>internal/addressbook/config.go\<close>): scopes, devices,
  reservations and options, the strict decoder, validation, and the look-ups the operations use.
\<close>

section \<open>Types\<close>

record dhcpOption =
  oCode :: int
  oType :: string
  oValue :: "string list"

record bootConfig =
  bootAlways :: bool
  bootFile :: string
  bootNextServer :: string

record tftpConfig =
  tftpRoot :: string
  tftpIfaces :: "string list"

record pdConfig =
  pdPrefix :: string
  pdLength :: int
  pdRoute :: bool

record reservation =
  rClient :: string
  rAddress :: string
  rDevice :: string

record deviceConfig =
  dAliases :: "string list"
  dNodeIDs :: "string list"
  dID :: string
  dName :: string
  dNodeID :: string

record relayConfig =
  relayPeer :: string
  relayLink :: string

record raConfig =
  raSLAAC :: bool
  raRouterLifetime :: int
  raInterval :: int

record scope =
  sID :: string
  sInterface :: string
  sSubnet :: string
  sServer :: string
  sStart :: string
  sEnd :: string
  sRouter :: string
  sZone :: string
  sLeaseSeconds :: int
  sEnabled :: bool
  sReservations :: "reservation list"
  sPreferredSeconds :: int
  sRelay :: "relayConfig option"
  sRA :: "raConfig option"
  sBoot :: "bootConfig option"
  sDNSServers :: "string list"
  sOptions :: "dhcpOption list"
  sPD :: "pdConfig option"

record config =
  cScopes :: "scope list"
  cDevices :: "deviceConfig list"
  cTFTP :: "tftpConfig option"

definition zeroOption :: dhcpOption where
  "zeroOption = \<lparr>oCode = 0, oType = [], oValue = []\<rparr>"

definition zeroBoot :: bootConfig where
  "zeroBoot = \<lparr>bootAlways = False, bootFile = [], bootNextServer = []\<rparr>"

definition zeroTFTP :: tftpConfig where
  "zeroTFTP = \<lparr>tftpRoot = [], tftpIfaces = []\<rparr>"

definition zeroPD :: pdConfig where
  "zeroPD = \<lparr>pdPrefix = [], pdLength = 0, pdRoute = False\<rparr>"

definition zeroReservation :: reservation where
  "zeroReservation = \<lparr>rClient = [], rAddress = [], rDevice = []\<rparr>"

definition zeroDevice :: deviceConfig where
  "zeroDevice = \<lparr>dAliases = [], dNodeIDs = [], dID = [], dName = [], dNodeID = []\<rparr>"

definition zeroRelay :: relayConfig where
  "zeroRelay = \<lparr>relayPeer = [], relayLink = []\<rparr>"

definition zeroRA :: raConfig where
  "zeroRA = \<lparr>raSLAAC = False, raRouterLifetime = 0, raInterval = 0\<rparr>"

definition zeroScope :: scope where
  "zeroScope = \<lparr>sID = [], sInterface = [], sSubnet = [], sServer = [], sStart = [], sEnd = [],
     sRouter = [], sZone = [], sLeaseSeconds = 0, sEnabled = False, sReservations = [],
     sPreferredSeconds = 0, sRelay = None, sRA = None, sBoot = None, sDNSServers = [],
     sOptions = [], sPD = None\<rparr>"

definition zeroConfig :: config where
  "zeroConfig = \<lparr>cScopes = [], cDevices = [], cTFTP = None\<rparr>"

section \<open>Decoding\<close>

text \<open>One field of a struct, decoded into the record through its update; a struct as the list of
  its fields, with its key names for the strict decoder.\<close>

type_synonym 'r fieldDec = "(string \<times> json) list \<Rightarrow> 'r \<Rightarrow> 'r result"

definition decInto :: "'a decoder \<Rightarrow> string \<Rightarrow> ('r \<Rightarrow> 'a) \<Rightarrow> (('a \<Rightarrow> 'a) \<Rightarrow> 'r \<Rightarrow> 'r) \<Rightarrow> string \<times> 'r fieldDec" where
  "decInto d name get upd = (name, \<lambda>kvs r. bindR (decField d name kvs (get r)) (\<lambda>x. Inr (upd (\<lambda>_. x) r)))"

definition decStruct :: "(string \<times> 'r fieldDec) list \<Rightarrow> 'r decoder" where
  "decStruct fs = decObj (\<lambda>kvs r. foldR (\<lambda>r (_, f). f kvs r) r fs)"

definition decStrict :: "(string \<times> 'r fieldDec) list \<Rightarrow> 'r decoder" where
  "decStrict fs = strictObj (map fst fs) (\<lambda>kvs r. foldR (\<lambda>r (_, f). f kvs r) r fs)"

definition decStrings :: "string list decoder" where
  "decStrings = decList decString []"

definition decOption :: "dhcpOption decoder" where
  "decOption = decStrict [decInto decInt ''code'' oCode oCode_update,
     decInto decString ''type'' oType oType_update, decInto decStrings ''value'' oValue oValue_update]"

definition decBoot :: "bootConfig decoder" where
  "decBoot = decStrict [decInto decBool ''always'' bootAlways bootAlways_update,
     decInto decString ''file'' bootFile bootFile_update,
     decInto decString ''next_server'' bootNextServer bootNextServer_update]"

definition decTFTP :: "tftpConfig decoder" where
  "decTFTP = decStrict [decInto decString ''root'' tftpRoot tftpRoot_update,
     decInto decStrings ''interfaces'' tftpIfaces tftpIfaces_update]"

definition decPD :: "pdConfig decoder" where
  "decPD = decStrict [decInto decString ''prefix'' pdPrefix pdPrefix_update,
     decInto decInt ''length'' pdLength pdLength_update, decInto decBool ''route'' pdRoute pdRoute_update]"

definition decReservation :: "reservation decoder" where
  "decReservation = decStrict [decInto decString ''client'' rClient rClient_update,
     decInto decString ''address'' rAddress rAddress_update, decInto decString ''device'' rDevice rDevice_update]"

definition decDevice :: "deviceConfig decoder" where
  "decDevice = decStrict [decInto decStrings ''aliases'' dAliases dAliases_update,
     decInto decStrings ''tailnet_node_ids'' dNodeIDs dNodeIDs_update,
     decInto decString ''id'' dID dID_update, decInto decString ''name'' dName dName_update,
     decInto decString ''tailnet_node_id'' dNodeID dNodeID_update]"

definition decRelay :: "relayConfig decoder" where
  "decRelay = decStrict [decInto decString ''peer'' relayPeer relayPeer_update,
     decInto decString ''link'' relayLink relayLink_update]"

definition decRA :: "raConfig decoder" where
  "decRA = decStrict [decInto decBool ''slaac'' raSLAAC raSLAAC_update,
     decInto decInt ''router_lifetime'' raRouterLifetime raRouterLifetime_update,
     decInto decInt ''interval'' raInterval raInterval_update]"

definition decScope :: "scope decoder" where
  "decScope = decStrict [decInto decString ''id'' sID sID_update,
     decInto decString ''interface'' sInterface sInterface_update,
     decInto decString ''subnet'' sSubnet sSubnet_update,
     decInto decString ''server'' sServer sServer_update,
     decInto decString ''start'' sStart sStart_update,
     decInto decString ''end'' sEnd sEnd_update,
     decInto decString ''router'' sRouter sRouter_update,
     decInto decString ''zone'' sZone sZone_update,
     decInto decInt ''lease_seconds'' sLeaseSeconds sLeaseSeconds_update,
     decInto decBool ''enabled'' sEnabled sEnabled_update,
     decInto (decList decReservation zeroReservation) ''reservations'' sReservations sReservations_update,
     decInto decInt ''preferred_seconds'' sPreferredSeconds sPreferredSeconds_update,
     decInto (decPtr decRelay zeroRelay) ''relay'' sRelay sRelay_update,
     decInto (decPtr decRA zeroRA) ''ra'' sRA sRA_update,
     decInto (decPtr decBoot zeroBoot) ''boot'' sBoot sBoot_update,
     decInto decStrings ''dns_servers'' sDNSServers sDNSServers_update,
     decInto (decList decOption zeroOption) ''options'' sOptions sOptions_update,
     decInto (decPtr decPD zeroPD) ''pd'' sPD sPD_update]"

definition decConfig :: "config decoder" where
  "decConfig = decStrict [decInto (decList decScope zeroScope) ''scopes'' cScopes cScopes_update,
     decInto (decList decDevice zeroDevice) ''devices'' cDevices cDevices_update,
     decInto (decPtr decTFTP zeroTFTP) ''tftp'' cTFTP cTFTP_update]"

section \<open>Lexical checks\<close>

definition isAlnumLower :: "char \<Rightarrow> bool" where
  "isAlnumLower c = (isLowerLetter c \<or> isDigit c)"

text \<open>\<^verbatim>\<open>labelPattern\<close> and \<^verbatim>\<open>interfacePattern\<close>.\<close>

definition labelPattern :: "string \<Rightarrow> bool" where
  "labelPattern s = (s \<noteq> [] \<and> length s \<le> 63 \<and> isAlnumLower (hd s) \<and> isAlnumLower (last s) \<and>
     list_all (\<lambda>c. isAlnumLower c \<or> c = CHR ''-'') s)"

definition interfacePattern :: "string \<Rightarrow> bool" where
  "interfacePattern s = (s \<noteq> [] \<and> length s \<le> 15 \<and>
     list_all (\<lambda>c. isAlnumLower c \<or> isUpperLetter c \<or> c \<in> set ''_.:-'') s)"

definition validZone :: "string \<Rightarrow> bool" where
  "validZone s =
     (\<not> (\<not> containsStr s ''.'' \<or> hasSuffix s ''.local'' \<or> hasSuffix s ''.ts.net'' \<or> 200 < length s) \<and>
      list_all labelPattern (splitOn CHR ''.'' s))"

text \<open>\<^verbatim>\<open>hex.DecodeString\<close> succeeds.\<close>

definition hexDecodes :: "string \<Rightarrow> bool" where
  "hexDecodes s = (even (length s) \<and> list_all (\<lambda>c. hexVal c \<noteq> None) s)"

definition validClient :: "string \<Rightarrow> bool" where
  "validClient s =
     (if hasPrefix s ''duid:'' then
        (case splitSep (trimPrefix s ''duid:'') ''/iaid:'' of
           [d, i] \<Rightarrow> \<not> (length i \<noteq> 8 \<or> length d < 4 \<or> 256 < length d) \<and>
             hexDecodes d \<and> hexDecodes i \<and> toLower s = s
         | _ \<Rightarrow> False)
      else if hasPrefix s ''mac:'' then
        (case ParseMAC (trimPrefix s ''mac:'') of
           None \<Rightarrow> False
         | Some mac \<Rightarrow> length mac = 6 \<and> ''mac:'' @ macString mac = s)
      else if hasPrefix s ''id:'' then
        (let v = trimPrefix s ''id:''
         in 2 \<le> length v \<and> length v \<le> 510 \<and> even (length v) \<and> v \<noteq> [] \<and> list_all isHexLower v)
      else False)"

text \<open>The broadcast address of an IPv4 prefix, in 32-bit arithmetic.\<close>

unbundle bit_operations_syntax

definition lastAddr :: "prefix \<Rightarrow> addr" where
  "lastAddr p = (case pfxAddr p of
       V4 w \<Rightarrow> V4 (w OR drop_bit (pfxBits p) 0xFFFFFFFF)
     | _ \<Rightarrow> NoAddr)"

section \<open>Options\<close>

definition reservedOptionCodes :: "int list" where
  "reservedOptionCodes =
     [0, 1, 3, 6, 12, 15, 28, 50, 51, 52, 53, 54, 55, 58, 59, 60, 61, 66, 67, 119, 255]"

text \<open>\<^verbatim>\<open>strconv.ParseUint\<close> in base 10: \<open>None\<close> is a syntax error, a value out of range is kept.\<close>

definition uintSyntax :: "string \<Rightarrow> nat option" where
  "uintSyntax s = (if s \<noteq> [] \<and> list_all isDigit s then Some (decVal 0 s) else None)"

definition parseUintOk :: "string \<Rightarrow> nat \<Rightarrow> bool" where
  "parseUintOk s bits = (case uintSyntax s of None \<Rightarrow> False | Some n \<Rightarrow> n < 2 ^ bits)"

definition optionBits :: "string \<Rightarrow> nat" where
  "optionBits ty = (if ty = ''u8'' then 8 else if ty = ''u16'' then 16 else 32)"

definition validateOption :: "dhcpOption \<Rightarrow> unit result" where
  "validateOption opt =
     (if oCode opt < 1 \<or> 254 < oCode opt \<or> oCode opt \<in> set reservedOptionCodes
      then Fail ''option is reserved or out of range''
      else if oValue opt = [] \<or> 16 < length (oValue opt) then Fail ''option needs 1..16 values''
      else if oType opt = ''ips'' then
        eachR (\<lambda>v. case ParseAddr v of
            Some a \<Rightarrow> refuse (\<not> Is4 a) ''not an IPv4 address''
          | None \<Rightarrow> Fail ''not an IPv4 address'') (oValue opt)
      else if oType opt = ''text'' then
        refuse (length (oValue opt) \<noteq> 1 \<or> hd (oValue opt) = [] \<or> 255 < length (hd (oValue opt)) \<or>
            containsAny (hd (oValue opt)) [CHR 0x00, CHR 0x0D, CHR 0x0A])
          ''text must be one string of 1..255 printable characters''
      else if oType opt = ''u8'' \<or> oType opt = ''u16'' \<or> oType opt = ''u32'' then
        refuse (length (oValue opt) \<noteq> 1 \<or> \<not> parseUintOk (hd (oValue opt)) (optionBits (oType opt)))
          ''needs one number that fits''
      else Fail ''unknown type'')"

text \<open>
  \<^verbatim>\<open>wire\<close>: the bytes of the option, \<open>None\<close> where the code would panic.  A number is what
  \<^verbatim>\<open>ParseUint\<close> returns beside its error: 0, or the largest value when out of range.
\<close>

definition As4 :: "addr \<Rightarrow> nat list option" where
  "As4 a = (if Is4 a \<or> Is4In6 a then Some (beBytes 4 (addrVal a mod 2 ^ 32)) else None)"

definition parseUintValue :: "string \<Rightarrow> nat \<Rightarrow> nat" where
  "parseUintValue s bits = (case uintSyntax s of None \<Rightarrow> 0 | Some n \<Rightarrow> min n (2 ^ bits - 1))"

definition wire :: "dhcpOption \<Rightarrow> nat list option" where
  "wire opt =
     (if oType opt = ''ips'' then
        map_option concat (allSome (map (\<lambda>v. Option.bind (ParseAddr v) As4) (oValue opt)))
      else if oType opt \<in> {''text'', ''u8'', ''u16'', ''u32''} then
        (case oValue opt of
           [] \<Rightarrow> None
         | v # _ \<Rightarrow> if oType opt = ''text'' then Some (map of_char v)
             else Some (beBytes (optionBits (oType opt) div 8) (parseUintValue v (optionBits (oType opt)))))
      else Some [])"

section \<open>Look-ups\<close>

definition sIs6 :: "scope \<Rightarrow> bool" where
  "sIs6 s = (case ParsePrefix (sSubnet s) of Some p \<Rightarrow> Is6 (pfxAddr p) | None \<Rightarrow> False)"

definition socketKey :: "scope \<Rightarrow> string" where
  "socketKey s = (if sIs6 s then ''6'' else ''4'') @ ''/'' @ sInterface s"

definition cScope :: "config \<Rightarrow> string \<Rightarrow> scope option" where
  "cScope c i = List.find (\<lambda>s. sID s = i) (cScopes c)"

definition cDevice :: "config \<Rightarrow> string \<Rightarrow> deviceConfig option" where
  "cDevice c i = List.find (\<lambda>d. dID d = i) (cDevices c)"

definition HasNode :: "deviceConfig \<Rightarrow> string \<Rightarrow> bool" where
  "HasNode d i = (i \<noteq> [] \<and> (dNodeID d = i \<or> i \<in> set (dNodeIDs d)))"

definition DeclaresNodes :: "deviceConfig \<Rightarrow> bool" where
  "DeclaresNodes d = (dNodeID d \<noteq> [] \<or> dNodeIDs d \<noteq> [])"

definition HasAlias :: "deviceConfig \<Rightarrow> string \<Rightarrow> bool" where
  "HasAlias d name = (name \<in> set (dAliases d))"

definition disabled :: "config \<Rightarrow> config" where
  "disabled c = c\<lparr>cScopes := map (\<lambda>s. s\<lparr>sEnabled := False\<rparr>) (cScopes c)\<rparr>"

section \<open>Validation\<close>

text \<open>Devices: the IDs, tailnet nodes and names seen so far.\<close>

definition addAlias :: "string list \<Rightarrow> string \<Rightarrow> string list result" where
  "addAlias names alias =
     (if \<not> labelPattern alias \<or> alias = ''ns'' \<or> alias \<in> set names
      then Fail ''invalid/duplicate DNS alias'' else Inr (alias # names))"

definition addNode :: "string list \<Rightarrow> string \<Rightarrow> string list result" where
  "addNode nodes i =
     (if i = [] then Inr nodes
      else if i \<in> set nodes then Fail ''duplicate tailnet node'' else Inr (i # nodes))"

definition validateDevice ::
  "string list \<times> string list \<times> string list \<Rightarrow> deviceConfig \<Rightarrow>
   (string list \<times> string list \<times> string list) result" where
  "validateDevice st d = (case st of (devices, nodes, names) \<Rightarrow>
     if \<not> labelPattern (dID d) \<or> \<not> labelPattern (dName d) \<or> dName d = ''ns'' \<or>
        dID d \<in> set devices \<or> dName d \<in> set names
     then Fail ''invalid/duplicate device ID or name''
     else bindR (foldR addAlias (dName d # names) (dAliases d)) (\<lambda>names'.
          bindR (foldR addNode nodes (dNodeIDs d @ [dNodeID d])) (\<lambda>nodes'.
            Inr (dID d # devices, nodes', names'))))"

definition validateTFTP :: "tftpConfig option \<Rightarrow> unit result" where
  "validateTFTP tf = (case tf of
       None \<Rightarrow> Inr ()
     | Some x \<Rightarrow>
         bindR (eachR (\<lambda>i. refuse (\<not> interfacePattern i) ''tftp: bad interface'') (tftpIfaces x)) (\<lambda>_.
           refuse (\<not> isAbs (tftpRoot x) \<or> cleanPath (tftpRoot x) \<noteq> tftpRoot x \<or>
               4096 < length (tftpRoot x) \<or> tftpRoot x = ''/'')
             ''tftp root must be an absolute, clean directory other than /''))"

text \<open>An address a scope may use: in the subnet, neither its network nor its broadcast address.\<close>

definition hostAddr :: "prefix \<Rightarrow> string \<Rightarrow> bool" where
  "hostAddr p v = (case ParseAddr v of
       None \<Rightarrow> False
     | Some a \<Rightarrow> Contains p a \<and> a \<noteq> pfxAddr p \<and> (\<not> Is4 a \<or> a \<noteq> lastAddr p))"

text \<open>The count of the pool: the loop of the source, with its own bound.\<close>

function poolFits :: "int \<Rightarrow> addr \<Rightarrow> addr \<Rightarrow> bool" where
  "poolFits n a e =
     (if addrLe a e then (if 65536 \<le> n then False else poolFits (n + 1) (Next a) e) else True)"
  by pat_completeness auto
termination by (relation "measure (\<lambda>(n, a, e). nat (65536 - n))") auto

declare poolFits.simps [simp del]

definition unicast4 :: "string \<Rightarrow> bool" where
  "unicast4 v = (case ParseAddr v of
       None \<Rightarrow> False
     | Some a \<Rightarrow> \<not> (\<not> Is4 a \<or> IsUnspecified a \<or> IsMulticast a))"

text \<open>The selector of a scope: how a request finds it.\<close>

definition scopeSelector :: "scope \<Rightarrow> prefix \<Rightarrow> addr \<Rightarrow> string result" where
  "scopeSelector s p server = (case sRelay s of
       Some rl \<Rightarrow> (case (ParseAddr (relayPeer rl), ParseAddr (relayLink rl)) of
           (Some peer, Some link) \<Rightarrow>
             if IsUnspecified peer \<or> IsMulticast peer \<or> Is4 peer \<noteq> Is4 server \<or>
                \<not> Contains p link \<or> IsUnspecified link
             then Fail ''invalid relay peer/link''
             else Inr (socketKey s @ ''/'' @ addrString peer @ ''/'' @ addrString link)
         | _ \<Rightarrow> Fail ''invalid relay peer/link'')
     | None \<Rightarrow> if \<not> hostAddr p (sServer s) then Fail ''server must be on direct scope''
               else Inr (socketKey s @ ''/direct''))"

definition validateRA :: "scope \<Rightarrow> prefix \<Rightarrow> unit result" where
  "validateRA s p = (case sRA s of
       None \<Rightarrow> Inr ()
     | Some ra \<Rightarrow> refuse (sRelay s \<noteq> None \<or> pfxBits p \<noteq> 64 \<or> raInterval ra < 4 \<or> 600 < raInterval ra \<or>
           raRouterLifetime ra < 0 \<or> 9000 < raRouterLifetime ra \<or>
           (0 < raRouterLifetime ra \<and> raRouterLifetime ra < raInterval ra * 3))
         ''RA needs a direct /64, interval 4..600 and router_lifetime 0 or 3*interval..9000'')"

definition addOption :: "int list \<Rightarrow> dhcpOption \<Rightarrow> int list result" where
  "addOption seen opt = bindR (validateOption opt) (\<lambda>_.
     if oCode opt \<in> set seen then Fail ''option given twice'' else Inr (oCode opt # seen))"

definition validateOptions :: "scope \<Rightarrow> unit result" where
  "validateOptions s =
     (if sDNSServers s \<noteq> [] \<or> sOptions s \<noteq> [] then
        (if sIs6 s then Fail ''DNS servers and options are IPv4 settings''
         else if 8 < length (sDNSServers s) \<or> 32 < length (sOptions s)
         then Fail ''too many DNS servers or options''
         else bindR (eachR (\<lambda>d. refuse (\<not> unicast4 d) ''dns_servers must be unicast IPv4 addresses'')
                (sDNSServers s)) (\<lambda>_.
              bindR (foldR addOption [] (sOptions s)) (\<lambda>_. Inr ())))
      else Inr ())"

text \<open>Prefix delegation; the pools declared so far come back with this one added.\<close>

definition validatePD :: "scope \<Rightarrow> prefix \<Rightarrow> prefix list \<Rightarrow> prefix list \<Rightarrow> prefix list result" where
  "validatePD s p others pools = (case sPD s of
       None \<Rightarrow> Inr pools
     | Some pd \<Rightarrow>
         if \<not> sIs6 s then Fail ''prefix delegation needs an IPv6 scope''
         else (case ParsePrefix (pdPrefix pd) of
             None \<Rightarrow> Fail ''pd prefix must be a canonical IPv6 prefix''
           | Some pool \<Rightarrow>
               if pool \<noteq> Masked pool \<or> \<not> Is6 (pfxAddr pool) \<or> Is4In6 (pfxAddr pool)
               then Fail ''pd prefix must be a canonical IPv6 prefix''
               else if pdLength pd \<le> int (pfxBits pool) \<or> 64 < pdLength pd \<or>
                       16 < pdLength pd - int (pfxBits pool) \<or> pdLength pd < 32
               then Fail ''pd length must be 32..64, longer than the pool prefix''
               else if Overlaps pool p then Fail ''the pd pool overlaps the scope's own subnet''
               else if list_ex (Overlaps pool) others then Fail ''the pd pool overlaps another scope''
               else if list_ex (Overlaps pool) pools then Fail ''the pd pool overlaps another pool''
               else Inr (pool # pools)))"

definition validateBoot :: "scope \<Rightarrow> unit result" where
  "validateBoot s = (case sBoot s of
       None \<Rightarrow> Inr ()
     | Some boot \<Rightarrow>
         if sIs6 s then Fail ''network boot is IPv4 only''
         else if bootFile boot = [] \<or> 128 < length (bootFile boot) \<or>
                 containsAny (bootFile boot) [CHR 0x00, CHR 0x0D, CHR 0x0A]
         then Fail ''boot file must be 1..128 printable characters''
         else refuse (bootNextServer boot \<noteq> [] \<and> \<not> unicast4 (bootNextServer boot))
           ''next_server must be a unicast IPv4 address'')"

definition addReservation ::
  "scope \<Rightarrow> prefix \<Rightarrow> string list \<Rightarrow> string list \<times> string list \<Rightarrow> reservation \<Rightarrow>
   (string list \<times> string list) result" where
  "addReservation s p devices st r = (case st of (clients, addresses) \<Rightarrow>
     if \<not> validClient (rClient r) \<or> \<not> hostAddr p (rAddress r) \<or> rAddress r = sServer s \<or>
        rAddress r = sRouter s \<or> rDevice r \<notin> set devices \<or> rClient r \<in> set clients \<or>
        rAddress r \<in> set addresses
     then Fail ''invalid/duplicate reservation''
     else if sIs6 s \<noteq> hasPrefix (rClient r) ''duid:''
     then Fail ''reservation client family does not match scope''
     else Inr (rClient r # clients, rAddress r # addresses))"

text \<open>What the scopes before this one declared.\<close>

record scopesSeen =
  seenIDs :: "string list"
  seenPrefixes :: "prefix list"
  seenSelectors :: "string list"
  seenPools :: "prefix list"
  seenZones :: "string list"

definition subnetOk :: "prefix \<Rightarrow> bool" where
  "subnetOk p = (\<not> (p \<noteq> Masked p \<or> Is4In6 (pfxAddr p) \<or> IsMulticast (pfxAddr p) \<or>
     (Is4 (pfxAddr p) \<and> 30 < pfxBits p) \<or> (Is6 (pfxAddr p) \<and> 126 < pfxBits p)))"

definition serverOk :: "prefix \<Rightarrow> addr \<Rightarrow> bool" where
  "serverOk p server = (\<not> (IsUnspecified server \<or> IsMulticast server \<or>
     Is4 server \<noteq> Is4 (pfxAddr p) \<or> addrZone server \<noteq> []))"

text \<open>The pool: its bounds are usable addresses in order, and there are at most 65536.\<close>

definition validatePool :: "scope \<Rightarrow> prefix \<Rightarrow> unit result" where
  "validatePool s p =
     (if \<not> hostAddr p (sStart s) \<or> \<not> hostAddr p (sEnd s) \<or> (\<not> sIs6 s \<and> \<not> hostAddr p (sRouter s))
      then Fail ''invalid addresses in scope''
      else (case (ParseAddr (sStart s), ParseAddr (sEnd s)) of
          (Some a, Some e) \<Rightarrow>
            if addrLess e a then Fail ''invalid addresses in scope''
            else refuse (\<not> poolFits 0 a e) ''pool limited to 65536 addresses''
        | _ \<Rightarrow> Fail ''invalid addresses in scope''))"

definition validateTimes :: "scope \<Rightarrow> unit result" where
  "validateTimes s =
     bindR (refuse (sLeaseSeconds s < 60 \<or> 604800 < sLeaseSeconds s) ''lease_seconds must be 60..604800'') (\<lambda>_.
     bindR (refuse (sIs6 s \<and> (sPreferredSeconds s < 1 \<or> sLeaseSeconds s < sPreferredSeconds s))
       ''preferred_seconds must be positive and <= lease_seconds'') (\<lambda>_.
     refuse (\<not> sIs6 s \<and> (sPreferredSeconds s \<noteq> 0 \<or> sRA s \<noteq> None)) ''IPv6 settings on IPv4 scope''))"

definition validateScope :: "string list \<Rightarrow> scopesSeen \<Rightarrow> scope \<Rightarrow> scopesSeen result" where
  "validateScope devices st s =
     bindR (refuse (\<not> labelPattern (sID s) \<or> sID s \<in> set (seenIDs st) \<or> \<not> interfacePattern (sInterface s))
       ''invalid/duplicate scope or interface'') (\<lambda>_.
     case ParsePrefix (sSubnet s) of
       None \<Rightarrow> Fail ''scope requires a canonical subnet with host addresses''
     | Some p \<Rightarrow>
     bindR (refuse (\<not> subnetOk p) ''scope requires a canonical subnet with host addresses'') (\<lambda>_.
     bindR (refuse (list_ex (Overlaps p) (seenPrefixes st))
       ''overlapping scopes on one authority are not supported'') (\<lambda>_.
     case ParseAddr (sServer s) of
       None \<Rightarrow> Fail ''invalid server address''
     | Some server \<Rightarrow>
     bindR (refuse (\<not> serverOk p server) ''invalid server address'') (\<lambda>_.
     bindR (scopeSelector s p server) (\<lambda>selector.
     bindR (refuse (selector \<in> set (seenSelectors st)) ''ambiguous scope selector'') (\<lambda>_.
     bindR (validatePool s p) (\<lambda>_.
     bindR (validateTimes s) (\<lambda>_.
     bindR (validateRA s p) (\<lambda>_.
     bindR (validateOptions s) (\<lambda>_.
     bindR (validatePD s p (seenPrefixes st) (seenPools st)) (\<lambda>pools.
     bindR (validateBoot s) (\<lambda>_.
     bindR (refuse (\<not> validZone (sZone s)) ''scope needs a local DNS zone (not .local or .ts.net)'') (\<lambda>_.
     bindR (refuse (list_ex (\<lambda>z. hasSuffix z (''.'' @ sZone s) \<or> hasSuffix (sZone s) (''.'' @ z)) (seenZones st))
       ''nested authoritative zones are not supported'') (\<lambda>_.
     bindR (foldR (addReservation s p devices) ([], []) (sReservations s)) (\<lambda>_.
       Inr \<lparr>seenIDs = sID s # seenIDs st, seenPrefixes = p # seenPrefixes st,
         seenSelectors = selector # seenSelectors st, seenPools = pools,
         seenZones = sZone s # seenZones st\<rparr>)))))))))))))))"

definition noScopes :: scopesSeen where
  "noScopes = \<lparr>seenIDs = [], seenPrefixes = [], seenSelectors = [], seenPools = [], seenZones = []\<rparr>"

definition Validate :: "config \<Rightarrow> unit result" where
  "Validate c =
     bindR (foldR validateDevice ([], [], []) (cDevices c)) (\<lambda>(devices, nodes, names).
     bindR (validateTFTP (cTFTP c)) (\<lambda>_.
     bindR (foldR (validateScope devices) noScopes (cScopes c)) (\<lambda>_. Inr ())))"

definition ParseConfig :: "bytes \<Rightarrow> config result" where
  "ParseConfig raw =
     bindR (unmarshal (if raw = NoBytes then Json (JObj [(''scopes'', JArr [])]) else raw)) (\<lambda>j.
     bindR (decConfig zeroConfig j) (\<lambda>c.
     bindR (Validate c) (\<lambda>_. Inr c)))"

end
