(* ===== verification/Book_Types.thy ===== *)
theory Book_Types
  imports Book_Config
begin

text \<open>
  The records the address book keeps in its ledger, with the JSON they are stored as: bindings,
  events, neighbour observations, tailnet nodes and operator associations (the types of
  \<^verbatim>\<open>store.go\<close> and \<^verbatim>\<open>observations.go\<close>).  A document is written from a table of optional fields
  (\<^verbatim>\<open>omitempty\<close>) and read back field by field.
\<close>

section \<open>Documents as tables\<close>

fun written :: "(string \<times> json option) list \<Rightarrow> (string \<times> json) list" where
  "written [] = []"
| "written ((k, None) # t) = written t"
| "written ((k, Some j) # t) = (k, j) # written t"

definition encTable :: "(string \<times> json option) list \<Rightarrow> json" where
  "encTable t = JObj (written t)"

definition always :: "json \<Rightarrow> json option" where
  "always j = Some j"

definition omitStr :: "string \<Rightarrow> json option" where
  "omitStr s = (if s = [] then None else Some (jstr s))"

definition omitInt :: "int \<Rightarrow> json option" where
  "omitInt n = (if n = 0 then None else Some (JNum n))"

definition omitBool :: "bool \<Rightarrow> json option" where
  "omitBool b = (if b then Some (JBool b) else None)"

definition encStrings :: "string list \<Rightarrow> json" where
  "encStrings xs = JArr (map jstr xs)"

fun decUint64 :: "nat decoder" where
  "decUint64 cur JNull = Inr cur"
| "decUint64 cur (JNum n) = (if 0 \<le> n \<and> n < 2 ^ 64 then Inr (nat n) else mismatch)"
| "decUint64 cur _ = mismatch"

fun tableField :: "string \<Rightarrow> (string \<times> json option) list \<Rightarrow> json option" where
  "tableField n [] = None"
| "tableField n ((k, j) # t) = (if toLower k = toLower n then j else tableField n t)"

text \<open>Reading one field of a written table finds exactly that field.\<close>

lemma decField_absent:
  "toLower n \<notin> toLower ` fst ` set kvs \<Longrightarrow> decField d n kvs cur = Inr cur"
  by (induction d n kvs cur rule: decField.induct) (auto simp: equalFold_def)

lemma written_keys: "toLower ` fst ` set (written t) \<subseteq> set (map (toLower \<circ> fst) t)"
  by (induction t rule: written.induct) auto

lemma tableField_absent: "toLower n \<notin> set (map (toLower \<circ> fst) t) \<Longrightarrow> tableField n t = None"
  by (induction n t rule: tableField.induct) auto

lemma decField_table:
  assumes "distinct (map (toLower \<circ> fst) t)"
  shows "decField d n (written t) cur =
    (case tableField n t of None \<Rightarrow> Inr cur | Some j \<Rightarrow> d cur j)"
  using assms
proof (induction t rule: written.induct)
  case (3 k j t)
  show ?case
  proof (cases "toLower k = toLower n")
    case True
    then have "toLower n \<notin> toLower ` fst ` set (written t)"
      using "3.prems" written_keys [of t] by auto
    then show ?thesis
      using True by (simp add: equalFold_def decField_absent split: sum.splits)
  next
    case False
    then show ?thesis using 3 by (simp add: equalFold_def)
  qed
next
  case (2 k t)
  then show ?case using tableField_absent [of n t] by auto
qed simp

lemma foldR_fields:
  "foldR (\<lambda>r (n, f). f kvs r) r [] = Inr r"
  "foldR (\<lambda>r (n, f). f kvs r) r (decInto d n get upd # fs) =
     bindR (decField d n kvs (get r)) (\<lambda>x. foldR (\<lambda>r (n, f). f kvs r) (upd (\<lambda>_. x) r) fs)"
  by (simp_all add: decInto_def) (simp add: bindR_def split: sum.splits)

lemma decStruct_table:
  "decStruct fs r (encTable t) =
     foldR (\<lambda>r (_, f). f (written t) r) r fs"
  by (simp add: decStruct_def encTable_def decObj_def)

definition int64 :: "int \<Rightarrow> bool" where
  "int64 n = (- (2 ^ 63) \<le> n \<and> n < 2 ^ 63)"

lemma read_omit:
  "(case omitStr s of None \<Rightarrow> Inr [] | Some j \<Rightarrow> decString [] j) = Inr (toValidUTF8 s)"
  "int64 i \<Longrightarrow> (case omitInt i of None \<Rightarrow> Inr 0 | Some j \<Rightarrow> decInt 0 j) = Inr i"
  "(case omitBool b of None \<Rightarrow> Inr False | Some j \<Rightarrow> decBool False j) = Inr b"
  by (auto simp: int64_def omitStr_def omitInt_def omitBool_def jstr_def toValidUTF8.simps [of "[]"])

lemma read_always:
  "(case always j of None \<Rightarrow> r | Some x \<Rightarrow> f x) = f j" "decString c (jstr s) = Inr (toValidUTF8 s)"
  "int64 i \<Longrightarrow> decInt ci (JNum i) = Inr i"
  "n < 2 ^ 64 \<Longrightarrow> decUint64 cn (JNum (int n)) = Inr n"
  "decStrings ys (encStrings xs) = Inr (map toValidUTF8 xs)"
proof -
  show "decStrings ys (encStrings xs) = Inr (map toValidUTF8 xs)"
    unfolding decStrings_def encStrings_def by (induction xs) (auto simp: jstr_def)
qed (auto simp: int64_def always_def jstr_def)

text \<open>A table whose keys are in lower case, as all tables of the ledger are.\<close>

definition lowerTable :: "(string \<times> json option) list \<Rightarrow> bool" where
  "lowerTable t = (list_all (\<lambda>(k, _). toLower k = k) t \<and> distinct (map fst t))"

lemma lowerTable_distinct: "lowerTable t \<Longrightarrow> distinct (map (toLower \<circ> fst) t)"
proof -
  assume t: "lowerTable t"
  then have same: "map (toLower \<circ> fst) t = map fst t" by (auto simp: lowerTable_def list_all_iff)
  show ?thesis unfolding same using t by (simp add: lowerTable_def)
qed

lemma tableField_lower:
  "lowerTable t \<Longrightarrow> toLower n = n \<Longrightarrow> tableField n t = (case map_of t n of None \<Rightarrow> None | Some j \<Rightarrow> j)"
  by (induction n t rule: tableField.induct) (auto simp: lowerTable_def)

lemma lowerTable_keys: "lowerTable t \<Longrightarrow> map fst u = map fst t \<Longrightarrow> lowerTable u"
proof -
  have "list_all (\<lambda>(k, _). toLower k = k) u = list_all (\<lambda>k. toLower k = k) (map fst u)" for u :: "(string \<times> json option) list"
    by (auto simp: list_all_iff)
  then show "lowerTable t \<Longrightarrow> map fst u = map fst t \<Longrightarrow> lowerTable u" by (simp add: lowerTable_def)
qed

lemma decField_lower:
  assumes "lowerTable t" "map_of t n = Some j"
  shows "decField d n (written t) cur =
    (case j of None \<Rightarrow> Inr cur | Some j \<Rightarrow> d cur j)"
proof -
  have "toLower n = n"
    using assms map_of_SomeD [OF assms(2)] by (auto simp: lowerTable_def list_all_iff)
  then show ?thesis
    by (simp add: decField_table [OF lowerTable_distinct [OF assms(1)]] tableField_lower [OF assms(1)] assms(2))
qed

section \<open>Bindings\<close>

record binding =
  bDUID :: string
  bIAID :: string
  bPreferredEnd :: int
  bScope :: string
  bAddress :: string
  bClient :: string
  bMAC :: string
  bDevice :: string
  bName :: string
  bClaimedName :: string
  bState :: string
  bOrigin :: string
  bStart :: int
  bEnd :: int
  bNodeID :: string
  bEvidence :: string
  bVia :: string

definition zeroBinding :: binding where
  "zeroBinding = \<lparr>bDUID = [], bIAID = [], bPreferredEnd = 0, bScope = [], bAddress = [], bClient = [],
     bMAC = [], bDevice = [], bName = [], bClaimedName = [], bState = [], bOrigin = [], bStart = 0,
     bEnd = 0, bNodeID = [], bEvidence = [], bVia = []\<rparr>"

definition bindingTable :: "binding \<Rightarrow> (string \<times> json option) list" where
  "bindingTable b = [(''duid'', omitStr (bDUID b)), (''iaid'', omitStr (bIAID b)),
     (''preferred_end'', omitInt (bPreferredEnd b)), (''scope'', always (jstr (bScope b))),
     (''address'', always (jstr (bAddress b))), (''client'', always (jstr (bClient b))),
     (''mac'', always (jstr (bMAC b))), (''device'', always (jstr (bDevice b))),
     (''name'', always (jstr (bName b))), (''claimed_name'', omitStr (bClaimedName b)),
     (''state'', always (jstr (bState b))), (''origin'', always (jstr (bOrigin b))),
     (''start'', always (JNum (bStart b))), (''end'', always (JNum (bEnd b))),
     (''tailnet_node_id'', omitStr (bNodeID b)), (''evidence'', omitStr (bEvidence b)),
     (''via'', omitStr (bVia b))]"

definition encBinding :: "binding \<Rightarrow> json" where
  "encBinding b = encTable (bindingTable b)"

definition decBinding :: "binding decoder" where
  "decBinding = decStruct [decInto decString ''duid'' bDUID bDUID_update,
     decInto decString ''iaid'' bIAID bIAID_update,
     decInto decInt ''preferred_end'' bPreferredEnd bPreferredEnd_update,
     decInto decString ''scope'' bScope bScope_update,
     decInto decString ''address'' bAddress bAddress_update,
     decInto decString ''client'' bClient bClient_update,
     decInto decString ''mac'' bMAC bMAC_update,
     decInto decString ''device'' bDevice bDevice_update,
     decInto decString ''name'' bName bName_update,
     decInto decString ''claimed_name'' bClaimedName bClaimedName_update,
     decInto decString ''state'' bState bState_update,
     decInto decString ''origin'' bOrigin bOrigin_update,
     decInto decInt ''start'' bStart bStart_update,
     decInto decInt ''end'' bEnd bEnd_update,
     decInto decString ''tailnet_node_id'' bNodeID bNodeID_update,
     decInto decString ''evidence'' bEvidence bEvidence_update,
     decInto decString ''via'' bVia bVia_update]"

text \<open>What a binding is after a trip through the ledger: its strings made valid UTF-8.\<close>

definition stored :: "binding \<Rightarrow> binding" where
  "stored b = \<lparr>bDUID = toValidUTF8 (bDUID b), bIAID = toValidUTF8 (bIAID b),
     bPreferredEnd = bPreferredEnd b, bScope = toValidUTF8 (bScope b), bAddress = toValidUTF8 (bAddress b),
     bClient = toValidUTF8 (bClient b), bMAC = toValidUTF8 (bMAC b), bDevice = toValidUTF8 (bDevice b),
     bName = toValidUTF8 (bName b), bClaimedName = toValidUTF8 (bClaimedName b),
     bState = toValidUTF8 (bState b), bOrigin = toValidUTF8 (bOrigin b), bStart = bStart b, bEnd = bEnd b,
     bNodeID = toValidUTF8 (bNodeID b), bEvidence = toValidUTF8 (bEvidence b), bVia = toValidUTF8 (bVia b)\<rparr>"

lemma bindingTable_lower: "lowerTable (bindingTable b)"
proof -
  have "lowerTable (bindingTable zeroBinding)" by code_simp
  then show ?thesis by (rule lowerTable_keys) (simp add: bindingTable_def)
qed

lemma decBinding_encBinding:
  assumes "int64 (bPreferredEnd b)" "int64 (bStart b)" "int64 (bEnd b)"
  shows "decBinding zeroBinding (encBinding b) = Inr (stored b)"
proof -
  have look: "map_of (bindingTable b) n = Some j \<Longrightarrow>
      decField d n (written (bindingTable b)) cur =
      (case j of None \<Rightarrow> Inr cur | Some j \<Rightarrow> d cur j)" for n j and d :: "string decoder" and cur
    by (rule decField_lower [OF bindingTable_lower])
  have num: "map_of (bindingTable b) n = Some j \<Longrightarrow>
      decField d n (written (bindingTable b)) cur =
      (case j of None \<Rightarrow> Inr cur | Some j \<Rightarrow> d cur j)" for n j and d :: "int decoder" and cur
    by (rule decField_lower [OF bindingTable_lower])
  have row: "map_of (bindingTable b) ''duid'' = Some (omitStr (bDUID b))"
    "map_of (bindingTable b) ''iaid'' = Some (omitStr (bIAID b))"
    "map_of (bindingTable b) ''preferred_end'' = Some (omitInt (bPreferredEnd b))"
    "map_of (bindingTable b) ''scope'' = Some (always (jstr (bScope b)))"
    "map_of (bindingTable b) ''address'' = Some (always (jstr (bAddress b)))"
    "map_of (bindingTable b) ''client'' = Some (always (jstr (bClient b)))"
    "map_of (bindingTable b) ''mac'' = Some (always (jstr (bMAC b)))"
    "map_of (bindingTable b) ''device'' = Some (always (jstr (bDevice b)))"
    "map_of (bindingTable b) ''name'' = Some (always (jstr (bName b)))"
    "map_of (bindingTable b) ''claimed_name'' = Some (omitStr (bClaimedName b))"
    "map_of (bindingTable b) ''state'' = Some (always (jstr (bState b)))"
    "map_of (bindingTable b) ''origin'' = Some (always (jstr (bOrigin b)))"
    "map_of (bindingTable b) ''start'' = Some (always (JNum (bStart b)))"
    "map_of (bindingTable b) ''end'' = Some (always (JNum (bEnd b)))"
    "map_of (bindingTable b) ''tailnet_node_id'' = Some (omitStr (bNodeID b))"
    "map_of (bindingTable b) ''evidence'' = Some (omitStr (bEvidence b))"
    "map_of (bindingTable b) ''via'' = Some (omitStr (bVia b))"
    by (simp_all add: bindingTable_def)
  show ?thesis
    unfolding encBinding_def decBinding_def decStruct_table foldR_fields
    by (simp add: row [THEN look] row [THEN num] read_omit read_always assms zeroBinding_def stored_def
        del: decString.simps decInt.simps)
qed

section \<open>Observations, events, nodes, associations\<close>

record observation =
  obScope :: string
  obAddress :: string
  obMAC :: string
  obOrigin :: string
  obDetail :: string
  obSeen :: int
  obUntil :: int
  obHistorical :: bool

definition zeroObservation :: observation where
  "zeroObservation = \<lparr>obScope = [], obAddress = [], obMAC = [], obOrigin = [], obDetail = [],
     obSeen = 0, obUntil = 0, obHistorical = False\<rparr>"

definition encObservation :: "observation \<Rightarrow> json" where
  "encObservation x = encTable [(''scope'', always (jstr (obScope x))),
     (''address'', always (jstr (obAddress x))), (''mac'', always (jstr (obMAC x))),
     (''origin'', always (jstr (obOrigin x))), (''detail'', omitStr (obDetail x)),
     (''seen'', always (JNum (obSeen x))), (''until'', always (JNum (obUntil x))),
     (''historical'', omitBool (obHistorical x))]"

definition decObservation :: "observation decoder" where
  "decObservation = decStruct [decInto decString ''scope'' obScope obScope_update,
     decInto decString ''address'' obAddress obAddress_update,
     decInto decString ''mac'' obMAC obMAC_update,
     decInto decString ''origin'' obOrigin obOrigin_update,
     decInto decString ''detail'' obDetail obDetail_update,
     decInto decInt ''seen'' obSeen obSeen_update,
     decInto decInt ''until'' obUntil obUntil_update,
     decInto decBool ''historical'' obHistorical obHistorical_update]"

record event =
  evMessage :: string
  evID :: nat
  evTime :: int
  evKind :: string
  evBinding :: binding
  evObservation :: "observation option"

definition zeroEvent :: event where
  "zeroEvent = \<lparr>evMessage = [], evID = 0, evTime = 0, evKind = [], evBinding = zeroBinding, evObservation = None\<rparr>"

definition encEvent :: "event \<Rightarrow> json" where
  "encEvent x = encTable [(''message'', omitStr (evMessage x)), (''id'', always (JNum (int (evID x)))),
     (''time'', always (JNum (evTime x))), (''kind'', always (jstr (evKind x))),
     (''binding'', always (encBinding (evBinding x))),
     (''observation'', map_option encObservation (evObservation x))]"

definition decEvent :: "event decoder" where
  "decEvent = decStruct [decInto decString ''message'' evMessage evMessage_update,
     decInto decUint64 ''id'' evID evID_update,
     decInto decInt ''time'' evTime evTime_update,
     decInto decString ''kind'' evKind evKind_update,
     decInto decBinding ''binding'' evBinding evBinding_update,
     decInto (decPtr decObservation zeroObservation) ''observation'' evObservation evObservation_update]"

record interfaceReport =
  irMAC :: string
  irAddresses :: "string list"

record node =
  nID :: string
  nDNSName :: string
  nAddresses :: "string list"
  nInterfaces :: "interfaceReport list"
  nSeen :: int

definition zeroReport :: interfaceReport where
  "zeroReport = \<lparr>irMAC = [], irAddresses = []\<rparr>"

definition zeroNode :: node where
  "zeroNode = \<lparr>nID = [], nDNSName = [], nAddresses = [], nInterfaces = [], nSeen = 0\<rparr>"

definition encReport :: "interfaceReport \<Rightarrow> json" where
  "encReport x = encTable [(''mac'', always (jstr (irMAC x))), (''addresses'', always (encStrings (irAddresses x)))]"

definition decReport :: "interfaceReport decoder" where
  "decReport = decStruct [decInto decString ''mac'' irMAC irMAC_update,
     decInto decStrings ''addresses'' irAddresses irAddresses_update]"

definition encNode :: "node \<Rightarrow> json" where
  "encNode x = encTable [(''id'', always (jstr (nID x))), (''dns_name'', always (jstr (nDNSName x))),
     (''addresses'', always (encStrings (nAddresses x))),
     (''interfaces'', always (JArr (map encReport (nInterfaces x)))), (''seen'', always (JNum (nSeen x)))]"

definition decNode :: "node decoder" where
  "decNode = decStruct [decInto decString ''id'' nID nID_update,
     decInto decString ''dns_name'' nDNSName nDNSName_update,
     decInto decStrings ''addresses'' nAddresses nAddresses_update,
     decInto (decList decReport zeroReport) ''interfaces'' nInterfaces nInterfaces_update,
     decInto decInt ''seen'' nSeen nSeen_update]"

record associationVersion =
  avDevice :: string
  avName :: string
  avNodeID :: string
  avReason :: string
  avUpdated :: int
  avEnded :: int

record association =
  asClient :: string
  asDevice :: string
  asName :: string
  asNodeID :: string
  asReason :: string
  asUpdated :: int
  asHistory :: "associationVersion list"

definition zeroVersion :: associationVersion where
  "zeroVersion = \<lparr>avDevice = [], avName = [], avNodeID = [], avReason = [], avUpdated = 0, avEnded = 0\<rparr>"

definition zeroAssociation :: association where
  "zeroAssociation = \<lparr>asClient = [], asDevice = [], asName = [], asNodeID = [], asReason = [],
     asUpdated = 0, asHistory = []\<rparr>"

definition encVersion :: "associationVersion \<Rightarrow> json" where
  "encVersion x = encTable [(''device'', always (jstr (avDevice x))), (''name'', always (jstr (avName x))),
     (''tailnet_node_id'', omitStr (avNodeID x)), (''reason'', always (jstr (avReason x))),
     (''updated'', always (JNum (avUpdated x))), (''ended'', always (JNum (avEnded x)))]"

definition decVersion :: "associationVersion decoder" where
  "decVersion = decStruct [decInto decString ''device'' avDevice avDevice_update,
     decInto decString ''name'' avName avName_update,
     decInto decString ''tailnet_node_id'' avNodeID avNodeID_update,
     decInto decString ''reason'' avReason avReason_update,
     decInto decInt ''updated'' avUpdated avUpdated_update,
     decInto decInt ''ended'' avEnded avEnded_update]"

definition encAssociation :: "association \<Rightarrow> json" where
  "encAssociation x = encTable [(''client'', always (jstr (asClient x))), (''device'', always (jstr (asDevice x))),
     (''name'', always (jstr (asName x))), (''tailnet_node_id'', omitStr (asNodeID x)),
     (''reason'', always (jstr (asReason x))), (''updated'', always (JNum (asUpdated x))),
     (''history'', if asHistory x = [] then None else Some (JArr (map encVersion (asHistory x))))]"

definition decAssociation :: "association decoder" where
  "decAssociation = decStruct [decInto decString ''client'' asClient asClient_update,
     decInto decString ''device'' asDevice asDevice_update,
     decInto decString ''name'' asName asName_update,
     decInto decString ''tailnet_node_id'' asNodeID asNodeID_update,
     decInto decString ''reason'' asReason asReason_update,
     decInto decInt ''updated'' asUpdated asUpdated_update,
     decInto (decList decVersion zeroVersion) ''history'' asHistory asHistory_update]"

record snapshot =
  snObservations :: "observation list"
  snServerDUID :: string
  snBindings :: "binding list"
  snNodes :: "node list"
  snAssociations :: "association list"

end
