(* ===== verification/Book_Ledger.thy ===== *)
theory Book_Ledger
  imports Bolt Book_Types
begin

text \<open>
  The durable ledger of the address book (\<^verbatim>\<open>store.go\<close>, \<^verbatim>\<open>index.go\<close>): bindings with their
  secondary indexes, the event log, and the queries on them.  The key-value store is the
  parameter \<open>B\<close>; everything the code does inside one transaction is one program over the book.
\<close>

section \<open>Buckets and keys\<close>

definition leaseBucket :: string where "leaseBucket = ''bindings-v1''"
definition eventBucket :: string where "eventBucket = ''events-v1''"
definition nodeBucket :: string where "nodeBucket = ''nodes-v1''"
definition dnsBucket :: string where "dnsBucket = ''dns-v1''"
definition expiryBucket :: string where "expiryBucket = ''expiry-v1''"
definition associationBucket :: string where "associationBucket = ''associations-v1''"
definition observationBucket :: string where "observationBucket = ''observations-v1''"
definition metaBucket :: string where "metaBucket = ''metadata-v1''"
definition clientIdxBucket :: string where "clientIdxBucket = ''idx-client-v1''"
definition macIdxBucket :: string where "macIdxBucket = ''idx-mac-v1''"
definition nameIdxBucket :: string where "nameIdxBucket = ''idx-name-v1''"
definition addrIdxBucket :: string where "addrIdxBucket = ''idx-addr-v1''"

definition indexBuckets :: "string list" where
  "indexBuckets = [clientIdxBucket, macIdxBucket, nameIdxBucket, addrIdxBucket]"

lemmas bucket_defs =
  leaseBucket_def eventBucket_def nodeBucket_def dnsBucket_def expiryBucket_def associationBucket_def
  observationBucket_def metaBucket_def clientIdxBucket_def macIdxBucket_def nameIdxBucket_def
  addrIdxBucket_def

definition originPD :: string where
  "originPD = ''dhcpv6-pd''"

definition bindingKey :: "string \<Rightarrow> string \<Rightarrow> string" where
  "bindingKey sc ad = sc @ ''/'' @ ad"

text \<open>\<^verbatim>\<open>binary.BigEndian\<close>: a 64-bit value as eight bytes, and back.\<close>

definition putUint64 :: "nat \<Rightarrow> string" where
  "putUint64 n = map char_of (beBytes 8 (n mod 2 ^ 64))"

definition getUint64 :: "string \<Rightarrow> nat" where
  "getUint64 k = foldl (\<lambda>a c. a * 256 + of_char c) 0 (take 8 k)"

definition asUint64 :: "int \<Rightarrow> nat" where
  "asUint64 i = nat (i mod 2 ^ 64)"

definition asInt64 :: "nat \<Rightarrow> int" where
  "asInt64 n = (if n < 2 ^ 63 then int n else int n - 2 ^ 64)"

definition liveState :: "string \<Rightarrow> bool" where
  "liveState st = (st = ''active'' \<or> st = ''offered'' \<or> st = ''declined'')"

definition expiryKey :: "binding \<Rightarrow> string" where
  "expiryKey b = putUint64 (asUint64 (bEnd b)) @ bindingKey (bScope b) (bAddress b)"

definition dnsKey :: "binding \<Rightarrow> string" where
  "dnsKey b = bScope b @ ''/'' @ bName b @ ''/'' @ bAddress b"

definition mark :: bytes where
  "mark = Text [CHR 0x01]"

definition rawBytes :: "bytes \<Rightarrow> string" where
  "rawBytes b = (case b of Text s \<Rightarrow> s | _ \<Rightarrow> [])"

section \<open>Reading bindings and the indexes\<close>

definition readTx :: "('t \<Rightarrow> 'a result) \<Rightarrow> ('t book, 'a) prog" where
  "readTx f s = liftR (f (db s)) s"

definition unmarshalBinding :: "bytes \<Rightarrow> binding result" where
  "unmarshalBinding raw = bindR (unmarshal raw) (decBinding zeroBinding)"

definition readBinding :: "'t bolt \<Rightarrow> string \<Rightarrow> string \<Rightarrow> 't \<Rightarrow> binding result" where
  "readBinding B sc ad t = (case bktGet B leaseBucket (bindingKey sc ad) t of
       None \<Rightarrow> Inr zeroBinding
     | Some raw \<Rightarrow> unmarshalBinding raw)"

definition nulJoin :: "string list \<Rightarrow> string" where
  "nulJoin parts = joinWith [CHR 0x00] parts"

definition indexEntries :: "binding \<Rightarrow> (string \<times> string) list" where
  "indexEntries b =
     (if \<not> liveState (bState b) then []
      else [(clientIdxBucket, nulJoin [bClient b, bScope b, bAddress b])] @
        (if bMAC b \<noteq> [] then [(macIdxBucket, nulJoin [bMAC b, bScope b, bAddress b])] else []) @
        (if bState b = ''active'' \<and> bName b \<noteq> []
         then [(nameIdxBucket, nulJoin [bName b, bScope b, bAddress b])] else []) @
        [(addrIdxBucket, nulJoin [bAddress b, bScope b])])"

definition reindex :: "'t bolt \<Rightarrow> binding \<Rightarrow> binding \<Rightarrow> ('t, unit) prog" where
  "reindex B old b =
     bindM (eachM (\<lambda>(bk, k). bktDelete B bk k) (indexEntries old)) (\<lambda>_.
       eachM (\<lambda>(bk, k). bktPut B bk k mark) (indexEntries b))"

definition backfillIndexes :: "'t bolt \<Rightarrow> ('t, unit) prog" where
  "backfillIndexes B t =
     eachM (\<lambda>(_, raw). bindM (liftR (unmarshalBinding raw)) (\<lambda>b. reindex B zeroBinding b))
       (bktEntries B leaseBucket t) t"

text \<open>One index key: the scope and address it names, if it has the shape of its bucket.\<close>

definition indexTarget :: "string \<Rightarrow> string \<Rightarrow> (string \<times> string) option" where
  "indexTarget bk k = (case splitOn CHR 0x00 k of
       [a, sc] \<Rightarrow> if bk = addrIdxBucket then Some (sc, a) else None
     | [_, sc, a] \<Rightarrow> Some (sc, a)
     | _ \<Rightarrow> None)"

definition addLive :: "'t bolt \<Rightarrow> 't \<Rightarrow> binding list \<Rightarrow> string \<times> string \<Rightarrow> binding list result" where
  "addLive B t out = (\<lambda>(sc, ad).
     bindR (readBinding B sc ad t) (\<lambda>b.
       if bScope b = [] \<or> \<not> liveState (bState b) then Inr out else Inr (out @ [b])))"

definition liveFromIndex :: "'t bolt \<Rightarrow> string \<Rightarrow> string \<Rightarrow> 't \<Rightarrow> binding list result" where
  "liveFromIndex B bk p t =
     foldR (\<lambda>out (k, _). case indexTarget bk k of None \<Rightarrow> Inr out | Some x \<Rightarrow> addLive B t out x)
       [] (scanPrefix B bk p t)"

definition idxPrefix :: "string list \<Rightarrow> string" where
  "idxPrefix parts = concat (map (\<lambda>p. p @ [CHR 0x00]) parts)"

definition liveByClient :: "'t bolt \<Rightarrow> string \<Rightarrow> string \<Rightarrow> 't \<Rightarrow> binding list result" where
  "liveByClient B sc client = liveFromIndex B clientIdxBucket (idxPrefix [client, sc])"

definition liveByClientPrefix :: "'t bolt \<Rightarrow> string \<Rightarrow> 't \<Rightarrow> binding list result" where
  "liveByClientPrefix B p t =
     foldR (\<lambda>out (k, _). case splitOn CHR 0x00 k of [_, sc, ad] \<Rightarrow> addLive B t out (sc, ad) | _ \<Rightarrow> Inr out)
       [] (scanPrefix B clientIdxBucket p t)"

definition liveByAddress :: "'t bolt \<Rightarrow> string \<Rightarrow> 't \<Rightarrow> binding list result" where
  "liveByAddress B ad = liveFromIndex B addrIdxBucket (idxPrefix [ad])"

definition liveByMAC :: "'t bolt \<Rightarrow> string \<Rightarrow> 't \<Rightarrow> binding list result" where
  "liveByMAC B mac = liveFromIndex B macIdxBucket (idxPrefix [mac])"

definition activeByName :: "'t bolt \<Rightarrow> string \<Rightarrow> 't \<Rightarrow> binding list result" where
  "activeByName B name t = bindR (liveFromIndex B nameIdxBucket (idxPrefix [name]) t) (\<lambda>all.
     Inr (filter (\<lambda>b. bState b = ''active'' \<and> bName b = name) all))"

text \<open>Folds of a callback over all bindings, and over the live ones in expiry order.\<close>

definition forEachBinding :: "'t bolt \<Rightarrow> ('a \<Rightarrow> binding \<Rightarrow> 'a result) \<Rightarrow> 'a \<Rightarrow> 't \<Rightarrow> 'a result" where
  "forEachBinding B f acc t =
     foldR (\<lambda>acc (_, raw). bindR (unmarshalBinding raw) (f acc)) acc (bktEntries B leaseBucket t)"

definition forEachLive :: "'t bolt \<Rightarrow> ('a \<Rightarrow> binding \<Rightarrow> 'a result) \<Rightarrow> 'a \<Rightarrow> 't \<Rightarrow> 'a result" where
  "forEachLive B f acc t =
     foldR (\<lambda>acc (k, _). case bktGet B leaseBucket (drop 8 k) t of
         None \<Rightarrow> Inr acc
       | Some raw \<Rightarrow> bindR (unmarshalBinding raw) (\<lambda>b. if liveState (bState b) then f acc b else Inr acc))
       acc (bktEntries B expiryBucket t)"

section \<open>Writing\<close>

definition appendEvent :: "'t bolt \<Rightarrow> event \<Rightarrow> ('t, unit) prog" where
  "appendEvent B e = bindM (bktNext B eventBucket) (\<lambda>i.
     bktPut B eventBucket (putUint64 i) (Json (encEvent (e\<lparr>evID := i\<rparr>))))"

definition bindingEvent :: "int \<Rightarrow> string \<Rightarrow> binding \<Rightarrow> event" where
  "bindingEvent tm kind b = zeroEvent\<lparr>evTime := tm, evKind := kind, evBinding := b\<rparr>"

text \<open>The part of \<^verbatim>\<open>save\<close> before the event: indexes, expiry, names, the binding itself.\<close>

definition saveBinding :: "'t bolt \<Rightarrow> binding \<Rightarrow> ('t, unit) prog" where
  "saveBinding B b t =
     bindM (liftR (readBinding B (bScope b) (bAddress b) t)) (\<lambda>old.
     bindM (if bName old \<noteq> [] then bktDelete B dnsBucket (dnsKey old) else ret ()) (\<lambda>_.
     bindM (reindex B old b) (\<lambda>_.
     bindM (if liveState (bState old) then bktDelete B expiryBucket (expiryKey old) else ret ()) (\<lambda>_.
     bindM (if liveState (bState b) then bktPut B expiryBucket (expiryKey b) mark else ret ()) (\<lambda>_.
     bindM (if bState b = ''active'' \<and> bOrigin b \<noteq> originPD
            then bktPut B dnsBucket (dnsKey b) (Text (bindingKey (bScope b) (bAddress b))) else ret ()) (\<lambda>_.
       bktPut B leaseBucket (bindingKey (bScope b) (bAddress b)) (Json (encBinding b)))))))) t"

definition save :: "'t bolt \<Rightarrow> binding \<Rightarrow> string \<Rightarrow> ('t book, unit) prog" where
  "save B b kind =
     bindM (inTx (saveBinding B b)) (\<lambda>_.
     bindM (inTx (bktNext B eventBucket)) (\<lambda>i.
     bindM bookNow (\<lambda>tm.
       inTx (bktPut B eventBucket (putUint64 i) (Json (encEvent ((bindingEvent tm kind b)\<lparr>evID := i\<rparr>)))))))"

definition audit :: "'t bolt \<Rightarrow> string \<Rightarrow> string \<Rightarrow> ('t book, unit) prog" where
  "audit B kind message = Update B (
     bindM (inTx (bktNext B eventBucket)) (\<lambda>i.
     bindM bookNow (\<lambda>tm.
       inTx (bktPut B eventBucket (putUint64 i)
         (Json (encEvent (zeroEvent\<lparr>evID := i, evTime := tm, evKind := kind, evMessage := message\<rparr>)))))))"

text \<open>
  The transaction of \<^verbatim>\<open>Open\<close>: the buckets are created, and an index that was missing is built
  from the bindings.
\<close>

definition backfillExpiry :: "'t bolt \<Rightarrow> ('t, unit) prog" where
  "backfillExpiry B t =
     eachM (\<lambda>(_, raw). bindM (liftR (unmarshalBinding raw)) (\<lambda>b.
         if liveState (bState b) then bktPut B expiryBucket (expiryKey b) mark else ret ()))
       (bktEntries B leaseBucket t) t"

definition backfillNames :: "'t bolt \<Rightarrow> ('t, unit) prog" where
  "backfillNames B t =
     eachM (\<lambda>(k, raw). bindM (liftR (unmarshalBinding raw)) (\<lambda>b.
         if bState b = ''active'' then bktPut B dnsBucket (dnsKey b) (Text k) else ret ()))
       (bktEntries B leaseBucket t) t"

definition Open :: "'t bolt \<Rightarrow> ('t book, unit) prog" where
  "Open B = Update B (inTx (\<lambda>t.
     (let backfill = \<not> bktHas B expiryBucket t; reindexAll = \<not> bktHas B clientIdxBucket t in
     bindM (eachM (bktCreate B) ([leaseBucket, eventBucket, nodeBucket, observationBucket,
         associationBucket, expiryBucket] @ indexBuckets)) (\<lambda>_.
     bindM (if reindexAll then backfillIndexes B else ret ()) (\<lambda>_.
     bindM (if backfill then backfillExpiry B else ret ()) (\<lambda>_ u.
       if \<not> bktHas B dnsBucket u
       then bindM (bktCreate B dnsBucket) (\<lambda>_. backfillNames B) u
       else ret () u)))) t))"

section \<open>Queries\<close>

fun collectEvents :: "nat \<Rightarrow> int \<Rightarrow> event list \<Rightarrow> (string \<times> bytes) list \<Rightarrow> event list result" where
  "collectEvents after limit out [] = Inr out"
| "collectEvents after limit out ((k, v) # kvs) =
     (if \<not> int (length out) < limit then Inr out
      else if getUint64 k \<le> after then collectEvents after limit out kvs
      else bindR (bindR (unmarshal v) (decEvent zeroEvent)) (\<lambda>e. collectEvents after limit (out @ [e]) kvs))"

definition Events :: "'t bolt \<Rightarrow> nat \<Rightarrow> int \<Rightarrow> ('t book, event list) prog" where
  "Events B after limit =
     (if limit < 1 \<or> 1000 < limit then raise (Error ''limit must be 1..1000'')
      else View B (readTx (\<lambda>t. collectEvents after limit [] (seekFrom B eventBucket (putUint64 after) t))))"

text \<open>The serial number of the zone: the low 32 bits of the event sequence, 0 if unreadable.\<close>

definition Revision :: "'t bolt \<Rightarrow> 't book \<Rightarrow> nat" where
  "Revision B s = (case View B (getS (\<lambda>s. bktSeq B eventBucket (db s))) s of
       (Done n, _) \<Rightarrow> n mod 2 ^ 32 | _ \<Rightarrow> 0)"

definition currentBinding :: "binding list \<Rightarrow> bytes option \<Rightarrow> ('t book, binding list) prog" where
  "currentBinding out raw = (case raw of
       None \<Rightarrow> ret out
     | Some r \<Rightarrow> bindM (liftR (unmarshalBinding r)) (\<lambda>b.
         if bState b = ''active''
         then bindM bookNow (\<lambda>now. ret (if now < bEnd b then out @ [b] else out)) else ret out))"

definition DNSBindings :: "'t bolt \<Rightarrow> string \<Rightarrow> string \<Rightarrow> string \<Rightarrow> ('t book, binding list) prog" where
  "DNSBindings B sc name ad = View B (
     if ad \<noteq> [] then
       bindM (getS (\<lambda>s. bktGet B leaseBucket (bindingKey sc ad) (db s))) (currentBinding [])
     else
       bindM (getS (\<lambda>s. scanPrefix B dnsBucket (sc @ ''/'' @ name @ ''/'') (db s))) (\<lambda>kvs.
         foldM (\<lambda>out (_, v).
             bindM (getS (\<lambda>s. bktGet B leaseBucket (rawBytes v) (db s))) (currentBinding out)) [] kvs))"

text \<open>
  \<^verbatim>\<open>Snapshot\<close>: the ledger now, or what the event log says of a past instant.  The maps keyed by
  scope and address are association lists.
\<close>

type_synonym sightings = "(string \<times> binding) list \<times> (string \<times> observation) list"

definition scoped :: "string \<Rightarrow> string \<Rightarrow> string \<Rightarrow> string \<Rightarrow> bool" where
  "scoped sc ip s a = ((sc = [] \<or> s = sc) \<and> (ip = [] \<or> a = ip))"

definition collectBinding :: "string \<Rightarrow> string \<Rightarrow> binding \<Rightarrow> (string \<times> binding) list \<Rightarrow> (string \<times> binding) list" where
  "collectBinding sc ip b m =
     (if scoped sc ip (bScope b) (bAddress b) then assocPut (bindingKey (bScope b) (bAddress b)) b m else m)"

definition replayEvent :: "string \<Rightarrow> string \<Rightarrow> int \<Rightarrow> sightings \<Rightarrow> event \<Rightarrow> sightings" where
  "replayEvent sc ip at st e =
     (if evTime e \<le> at then
        (if bScope (evBinding e) \<noteq> [] then collectBinding sc ip (evBinding e) (fst st) else fst st,
         case evObservation e of
           None \<Rightarrow> snd st
         | Some x \<Rightarrow> if scoped sc ip (obScope x) (obAddress x)
                     then assocPut (bindingKey (obScope x) (obAddress x)) x (snd st) else snd st)
      else st)"

definition aged :: "int \<Rightarrow> binding \<Rightarrow> binding" where
  "aged at b = (if bEnd b \<le> at \<and> liveState (bState b) then b\<lparr>bState := ''expired''\<rparr> else b)"

definition decodeAll :: "'a decoder \<Rightarrow> 'a \<Rightarrow> (string \<times> bytes) list \<Rightarrow> 'a list result" where
  "decodeAll d z = foldR (\<lambda>out (_, v). bindR (bindR (unmarshal v) (d z)) (\<lambda>x. Inr (out @ [x]))) []"

definition snapshotDUID :: "'t bolt \<Rightarrow> 't \<Rightarrow> string" where
  "snapshotDUID B t =
     (if bktHas B metaBucket t
      then hexString (strBytes (case bktGet B metaBucket ''duid'' t of None \<Rightarrow> [] | Some v \<Rightarrow> rawBytes v)) else [])"

definition snapshotStates :: "'t bolt \<Rightarrow> string \<Rightarrow> string \<Rightarrow> int \<Rightarrow> bool \<Rightarrow> 't \<Rightarrow> sightings result" where
  "snapshotStates B sc ip at current t =
     (if current
      then bindR (foldR (\<lambda>m (_, v). bindR (unmarshalBinding v) (\<lambda>b. Inr (collectBinding sc ip b m)))
          [] (bktEntries B leaseBucket t)) (\<lambda>m. Inr (m, []))
      else foldR (\<lambda>st (_, v). bindR (bindR (unmarshal v) (decEvent zeroEvent)) (\<lambda>e. Inr (replayEvent sc ip at st e)))
          ([], []) (bktEntries B eventBucket t))"

definition snapshotObservations ::
  "'t bolt \<Rightarrow> string \<Rightarrow> string \<Rightarrow> int \<Rightarrow> bool \<Rightarrow> (string \<times> observation) list \<Rightarrow> 't \<Rightarrow> observation list result" where
  "snapshotObservations B sc ip at current seen t =
     (if current
      then bindR (decodeAll decObservation zeroObservation (bktEntries B observationBucket t)) (\<lambda>xs.
        Inr (filter (\<lambda>x. scoped sc ip (obScope x) (obAddress x)) xs))
      else Inr (sort_key (\<lambda>x. obScope x @ ''/'' @ obAddress x)
        (map (\<lambda>x. x\<lparr>obHistorical := True\<rparr>)
          (filter (\<lambda>x. obSeen x \<le> at \<and> at < obUntil x) (map snd seen)))))"

definition snapshotTx :: "'t bolt \<Rightarrow> string \<Rightarrow> string \<Rightarrow> int \<Rightarrow> bool \<Rightarrow> 't \<Rightarrow> snapshot result" where
  "snapshotTx B sc ip at current t =
     bindR (snapshotStates B sc ip at current t) (\<lambda>(states, seen).
     bindR (snapshotObservations B sc ip at current seen t) (\<lambda>observations.
     bindR (if current then decodeAll decAssociation zeroAssociation (bktEntries B associationBucket t)
            else Inr []) (\<lambda>associations.
     bindR (decodeAll decNode zeroNode (bktEntries B nodeBucket t)) (\<lambda>nodes.
       Inr \<lparr>snObservations = observations, snServerDUID = snapshotDUID B t,
         snBindings = sort_key (\<lambda>b. [bScope b, bAddress b]) (map (aged at \<circ> snd) states),
         snNodes = nodes, snAssociations = associations\<rparr>))))"

definition Snapshot :: "'t bolt \<Rightarrow> string \<Rightarrow> string \<Rightarrow> int \<Rightarrow> ('t book, snapshot) prog" where
  "Snapshot B sc ip at0 = bindM bookNow (\<lambda>now.
     let at = (if at0 = 0 then now else at0) in
     if at < 0 then raise (Error ''at must be a nonnegative Unix timestamp'')
     else if now < at then raise (Error ''future attribution is not available'')
     else View B (readTx (snapshotTx B sc ip at (at = now))))"

end
