(* ===== verification/Book_Allocate.thy ===== *)
theory Book_Allocate
  imports Book_Ledger
begin

text \<open>
  Leases (\<^verbatim>\<open>allocate.go\<close>): offering and granting addresses, releasing and declining them,
  expiry, and the import of the leases of another server.  A panic of the process and a loop
  that never returns both are the outcome \<open>Died\<close>.
\<close>

section \<open>Policy\<close>

definition deviceID :: "string \<Rightarrow> string \<Rightarrow> string" where
  "deviceID sc client = take 23 (''device-'' @ sha256Hex (sc @ ''/'' @ client))"

definition findReservation :: "scope \<Rightarrow> string \<Rightarrow> string \<Rightarrow> reservation option" where
  "findReservation s client mac =
     List.find (\<lambda>r. rClient r = client \<or> rClient r = ''mac:'' @ mac) (sReservations s)"

text \<open>The bounds of a validated pool always parse; the code panics on others.\<close>

definition inRange :: "scope \<Rightarrow> addr \<Rightarrow> bool" where
  "inRange s a = (case (ParseAddr (sStart s), ParseAddr (sEnd s)) of
       (Some lo, Some hi) \<Rightarrow> addrLe lo a \<and> addrLe a hi
     | _ \<Rightarrow> False)"

definition allowed :: "scope \<Rightarrow> string \<Rightarrow> string \<Rightarrow> string \<Rightarrow> bool" where
  "allowed s client mac ip = (case ParseAddr ip of
       None \<Rightarrow> False
     | Some a \<Rightarrow>
         if Is6 a \<noteq> sIs6 s \<or> ip = sServer s \<or> ip = sRouter s then False
         else (case findReservation s client mac of
             Some r \<Rightarrow> rAddress r = ip
           | None \<Rightarrow> if list_ex (\<lambda>r. rAddress r = ip) (sReservations s) then False else inRange s a))"

definition panic :: "('s, 'a) prog" where
  "panic s = (Died, s)"

section \<open>Associations\<close>

definition readAssociation :: "'t bolt \<Rightarrow> string \<Rightarrow> 't \<Rightarrow> association option result" where
  "readAssociation B client t = (case bktGet B associationBucket client t of
       None \<Rightarrow> Inr None
     | Some raw \<Rightarrow> bindR (bindR (unmarshal raw) (decAssociation zeroAssociation)) (\<lambda>a. Inr (Some a)))"

section \<open>Allocation\<close>

definition available :: "'t bolt \<Rightarrow> scope \<Rightarrow> string \<Rightarrow> string \<Rightarrow> int \<Rightarrow> string \<Rightarrow> 't \<Rightarrow> bool result" where
  "available B s client mac now ip t =
     (if \<not> allowed s client mac ip then Inr False
      else bindR (readBinding B (sID s) ip t) (\<lambda>b.
        let busy = now < bEnd b \<and> (bState b = ''active'' \<or> bState b = ''offered'' \<or> bState b = ''declined'')
        in Inr (\<not> busy \<or> (bClient b = client \<and> bState b \<noteq> ''declined''))))"

text \<open>
  The scan of the pool.  A validated pool has at most 65536 addresses, so the count only runs
  out when the loop of the code would never end (\<open>Unbounded\<close>).
\<close>

datatype scanned = Found string | Exhausted | Unbounded

function poolScan :: "'t bolt \<Rightarrow> scope \<Rightarrow> string \<Rightarrow> string \<Rightarrow> int \<Rightarrow> 't \<Rightarrow> int \<Rightarrow> addr \<Rightarrow> addr \<Rightarrow> scanned result" where
  "poolScan B s client mac now t n a e =
     (if \<not> addrLe a e then Inr Exhausted
      else if 65536 \<le> n then Inr Unbounded
      else bindR (available B s client mac now (addrString a) t) (\<lambda>usable.
        if usable then Inr (Found (addrString a)) else poolScan B s client mac now t (n + 1) (Next a) e))"
  by pat_completeness auto
termination by (relation "measure (\<lambda>(B, s, client, mac, now, t, n, a, e). nat (65536 - n))") auto

declare poolScan.simps [simp del]

text \<open>The candidate of a discovery: a live address of the client, overridden by a reservation.\<close>

definition rediscover :: "scope \<Rightarrow> string \<Rightarrow> string \<Rightarrow> int \<Rightarrow> string \<Rightarrow> binding list \<Rightarrow> string" where
  "rediscover s client mac now requested mine =
     (case findReservation s client mac of
        Some r \<Rightarrow> rAddress r
      | None \<Rightarrow> foldl (\<lambda>cand b.
          if bOrigin b \<noteq> originPD \<and> now < bEnd b \<and> (bState b = ''active'' \<or> bState b = ''offered'') \<and>
             allowed s client mac (bAddress b)
          then bAddress b else cand) requested mine)"

definition chooseAddress ::
  "'t bolt \<Rightarrow> scope \<Rightarrow> string \<Rightarrow> string \<Rightarrow> int \<Rightarrow> string \<Rightarrow> bool \<Rightarrow> ('t book, string) prog" where
  "chooseAddress B s client mac now requested commit =
     (if commit \<and> requested = [] then raise (Unavailable ''request must identify its address'')
      else
        bindM (if commit then ret requested
               else bindM (readTx (liveByClient B (sID s) client)) (\<lambda>mine.
                 ret (rediscover s client mac now requested mine))) (\<lambda>candidate.
        bindM (readTx (available B s client mac now candidate)) (\<lambda>usable.
          if usable then ret candidate
          else if commit then raise (Unavailable ''requested address is outside client policy or occupied'')
          else if findReservation s client mac \<noteq> None then raise (Unavailable ''reserved address is occupied'')
          else (case (ParseAddr (sStart s), ParseAddr (sEnd s)) of
              (Some lo, Some hi) \<Rightarrow>
                bindM (readTx (\<lambda>t. poolScan B s client mac now t 0 lo hi)) (\<lambda>r. case r of
                    Found ip \<Rightarrow> ret ip
                  | Exhausted \<Rightarrow> raise (Unavailable ''address pool exhausted'')
                  | Unbounded \<Rightarrow> panic)
            | _ \<Rightarrow> panic))))"

text \<open>\<^verbatim>\<open>strings.ToValidUTF8(claimed, "")\<close>: bytes outside a valid sequence are dropped.\<close>

function dropInvalidUTF8 :: "string \<Rightarrow> string" where
  "dropInvalidUTF8 x =
     (if x = [] then []
      else if runeLen x = 0 then dropInvalidUTF8 (tl x)
      else take (runeLen x) x @ dropInvalidUTF8 (drop (runeLen x) x))"
  by pat_completeness auto
termination by (relation "measure length") auto

declare dropInvalidUTF8.simps [simp del]

definition clientParts :: "string \<Rightarrow> string list" where
  "clientParts client = splitSep (trimPrefix client ''duid:'') ''/iaid:''"

text \<open>The new binding, as the code fills it in step by step.\<close>

definition freshLease :: "scope \<Rightarrow> string \<Rightarrow> string \<Rightarrow> string \<Rightarrow> string \<Rightarrow> int \<Rightarrow> binding" where
  "freshLease s client mac claimed ip now =
     (let b = zeroBinding\<lparr>bScope := sID s, bAddress := ip, bClient := client, bMAC := mac,
            bClaimedName := dropInvalidUTF8 claimed, bState := ''offered'', bOrigin := ''dhcpv4'',
            bStart := now, bEnd := now + 30\<rparr>;
          b = (if sIs6 s then b\<lparr>bOrigin := ''dhcpv6'', bDUID := hd (clientParts client),
                 bIAID := hd (tl (clientParts client))\<rparr> else b)
      in b\<lparr>bDevice := deviceID (sID s) client, bName := deviceID (sID s) client\<rparr>)"

definition inheritLease :: "binding \<Rightarrow> string \<Rightarrow> int \<Rightarrow> binding \<Rightarrow> binding" where
  "inheritLease old client now b =
     (if bClient old = client \<and> now < bEnd old \<and> bState old \<noteq> ''declined''
      then b\<lparr>bDevice := bDevice old, bName := bName old, bStart := bStart old,
             bNodeID := bNodeID old, bEvidence := bEvidence old\<rparr>
      else b)"

definition associateLease :: "association option \<Rightarrow> binding \<Rightarrow> binding" where
  "associateLease a b = (case a of
       None \<Rightarrow> b
     | Some x \<Rightarrow> b\<lparr>bDevice := asDevice x, bName := asName x, bNodeID := asNodeID x,
         bEvidence := ''operator repair: '' @ asReason x\<rparr>)"

definition reserveLease :: "config \<Rightarrow> reservation option \<Rightarrow> binding \<Rightarrow> binding" where
  "reserveLease c r b = (case r of
       None \<Rightarrow> b
     | Some r \<Rightarrow> (let d = (case cDevice c (rDevice r) of None \<Rightarrow> zeroDevice | Some d \<Rightarrow> d)
         in b\<lparr>bDevice := dID d, bName := dName d, bNodeID := dNodeID d, bEvidence := ''inventory reservation''\<rparr>))"

definition commitLease :: "scope \<Rightarrow> int \<Rightarrow> binding \<Rightarrow> binding" where
  "commitLease s now b =
     (let b = b\<lparr>bState := ''active'', bEnd := now + sLeaseSeconds s\<rparr>
      in if sIs6 s then b\<lparr>bPreferredEnd := now + sPreferredSeconds s\<rparr> else b)"

definition heldBy :: "binding \<Rightarrow> string \<Rightarrow> int \<Rightarrow> bool" where
  "heldBy old client now = (bClient old = client \<and> bState old = ''active'' \<and> now < bEnd old)"

definition allocateTx ::
  "'t bolt \<Rightarrow> config \<Rightarrow> scope \<Rightarrow> string \<Rightarrow> string \<Rightarrow> string \<Rightarrow> string \<Rightarrow> bool \<Rightarrow> int \<Rightarrow> ('t book, binding) prog" where
  "allocateTx B c s client mac claimed requested commit now =
     bindM (chooseAddress B s client mac now requested commit) (\<lambda>ip.
     bindM (readTx (readBinding B (sID s) ip)) (\<lambda>old.
       if \<not> commit \<and> heldBy old client now then ret old
       else
         bindM (readTx (readAssociation B client)) (\<lambda>a.
           let b = reserveLease c (findReservation s client mac)
                     (associateLease a (inheritLease old client now (freshLease s client mac claimed ip now)));
               kind = (if \<not> commit then ''offer'' else if heldBy old client now then ''renew'' else ''grant'');
               b = (if commit then commitLease s now b else b)
           in bindM (save B b kind) (\<lambda>_. ret b))))"

text \<open>The checks before the transaction: the scope, the client and the canonical hardware address.\<close>

definition checkRequest :: "config \<Rightarrow> string \<Rightarrow> string \<Rightarrow> string \<Rightarrow> (scope \<times> string) result" where
  "checkRequest c scopeID client mac = (case cScope c scopeID of
       None \<Rightarrow> Fail ''scope is not enabled''
     | Some s \<Rightarrow>
         if \<not> sEnabled s then Fail ''scope is not enabled''
         else if \<not> validClient client then Fail ''invalid client identifier''
         else bindR (if mac \<noteq> [] \<or> \<not> sIs6 s then
                 (case ParseMAC mac of
                    None \<Rightarrow> Fail ''invalid hardware address''
                  | Some hw \<Rightarrow> if length hw \<noteq> 6 then Fail ''invalid hardware address'' else Inr (macString hw))
               else Inr mac) (\<lambda>mac.
           if sIs6 s \<noteq> hasPrefix client ''duid:'' then Fail ''client family does not match scope''
           else Inr (s, mac)))"

definition Allocate ::
  "'t bolt \<Rightarrow> config \<Rightarrow> string \<Rightarrow> string \<Rightarrow> string \<Rightarrow> string \<Rightarrow> string \<Rightarrow> bool \<Rightarrow> ('t book, binding) prog" where
  "Allocate B c scopeID client mac claimed requested commit =
     bindM (liftR (checkRequest c scopeID client mac)) (\<lambda>(s, mac).
     bindM bookNow (\<lambda>now.
       Update B (allocateTx B c s client mac claimed requested commit now)))"

section \<open>Release, decline, expiry\<close>

definition releaseTx :: "'t bolt \<Rightarrow> string \<Rightarrow> string \<Rightarrow> string \<Rightarrow> bool \<Rightarrow> int \<Rightarrow> ('t book, unit) prog" where
  "releaseTx B sc client ip decline now =
     bindM (readTx (readBinding B sc ip)) (\<lambda>b.
       if bClient b \<noteq> client \<or> bEnd b \<le> now \<or> (bState b \<noteq> ''active'' \<and> bState b \<noteq> ''offered'')
       then raise (Error ''no live binding owned by client'')
       else if decline then save B (b\<lparr>bState := ''declined'', bEnd := now + 600\<rparr>) ''decline''
       else save B (b\<lparr>bState := ''released'', bEnd := now\<rparr>) ''release'')"

definition Release :: "'t bolt \<Rightarrow> string \<Rightarrow> string \<Rightarrow> string \<Rightarrow> bool \<Rightarrow> ('t book, unit) prog" where
  "Release B sc client ip decline =
     bindM bookNow (\<lambda>now. Update B (releaseTx B sc client ip decline now))"

definition dueKeys :: "'t bolt \<Rightarrow> int \<Rightarrow> 't \<Rightarrow> string list" where
  "dueKeys B now t =
     take 1000 (takeWhile (\<lambda>k. asInt64 (getUint64 k) \<le> now) (map fst (bktEntries B expiryBucket t)))"

definition expireOne :: "'t bolt \<Rightarrow> string \<Rightarrow> ('t book, unit) prog" where
  "expireOne B k =
     bindM (getS (\<lambda>s. bktGet B leaseBucket (drop 8 k) (db s))) (\<lambda>raw.
       case (case raw of None \<Rightarrow> Fail ''absent'' | Some r \<Rightarrow> unmarshalBinding r) of
         Inl _ \<Rightarrow> inTx (bktDelete B expiryBucket k)
       | Inr b \<Rightarrow>
           if \<not> liveState (bState b) \<or> bEnd b \<noteq> asInt64 (getUint64 k)
           then inTx (bktDelete B expiryBucket k)
           else save B (b\<lparr>bState := ''expired''\<rparr>) ''expire'')"

definition Expire :: "'t bolt \<Rightarrow> ('t book, unit) prog" where
  "Expire B = bindM bookNow (\<lambda>now. Update B (
     bindM (getS (\<lambda>s. dueKeys B now (db s))) (eachM (expireOne B))))"

section \<open>Import\<close>

record importedLease =
  ilDUID :: string
  ilIAID :: string
  ilScope :: string
  ilAddress :: string
  ilMAC :: string
  ilClientID :: string
  ilHostname :: string
  ilExpiry :: int

record importDocument =
  docLeases :: "importedLease list"
  docServerDUID :: string

definition dropColons :: "string \<Rightarrow> string" where
  "dropColons x = filter (\<lambda>c. c \<noteq> CHR '':'') x"

fun hexBytes :: "string \<Rightarrow> string" where
  "hexBytes (a # b # x) = char_of (the (hexVal a) * 16 + the (hexVal b)) # hexBytes x"
| "hexBytes _ = []"

definition decodeHex :: "string \<Rightarrow> string result" where
  "decodeHex x = (if hexDecodes x then Inr (hexBytes x) else Fail ''encoding/hex'')"

text \<open>
  \<^verbatim>\<open>adoptDUID\<close>: \<open>duidOk\<close> says whether the DHCPv6 library accepts the bytes as an identifier.
\<close>

definition adoptDUID :: "'t bolt \<Rightarrow> (string \<Rightarrow> bool) \<Rightarrow> config \<Rightarrow> string \<Rightarrow> ('t, unit) prog" where
  "adoptDUID B duidOk c value =
     bindM (liftR (decodeHex (dropColons value))) (\<lambda>raw.
       if \<not> duidOk raw then raise (Error ''invalid DUID'')
       else if list_ex (\<lambda>s. sIs6 s \<and> sEnabled s) (cScopes c)
       then raise (Error ''disable IPv6 scopes before adopting DUID'')
       else bindM (bktCreate B metaBucket) (\<lambda>_.
            bindM (\<lambda>t. liftR (case bktGet B metaBucket ''duid'' t of
                None \<Rightarrow> Inr ()
              | Some v \<Rightarrow>
                  if rawBytes v \<noteq> [] \<and> rawBytes v \<noteq> raw
                  then forEachBinding B (\<lambda>_ b. refuse (bDUID b \<noteq> []) ''server DUID differs from existing IPv6 ledger'') () t
                  else Inr ()) t) (\<lambda>_.
              bktPut B metaBucket ''duid'' (Text raw))))"

definition isQuarantineMarker :: "scope \<Rightarrow> importedLease \<Rightarrow> string \<Rightarrow> bool" where
  "isQuarantineMarker s l mac =
     (if sIs6 s
      then equalFold (dropColons (ilDUID l)) (''0004'' @ take 32 (sha256Hex (sID s @ ''/'' @ ilAddress l)))
      else mac = ''02:ff:ff:ff:ff:fe'')"

text \<open>The checks of one imported lease: its scope, hardware address and client identity.\<close>

definition importAddressOk :: "scope \<Rightarrow> prefix \<Rightarrow> importedLease \<Rightarrow> bool" where
  "importAddressOk s p l = (case ParseAddr (ilAddress l) of
       None \<Rightarrow> False
     | Some ip \<Rightarrow> \<not> (\<not> Contains p ip \<or> ip = pfxAddr p \<or> (\<not> Is6 (pfxAddr p) \<and> ip = lastAddr p) \<or>
         ilAddress l = sServer s \<or> ilAddress l = sRouter s))"

definition importMAC :: "importedLease \<Rightarrow> string" where
  "importMAC l = (case ParseMAC (ilMAC l) of None \<Rightarrow> [] | Some hw \<Rightarrow> macString hw)"

definition importClient :: "scope \<Rightarrow> importedLease \<Rightarrow> string" where
  "importClient s l =
     (if sIs6 s then ''duid:'' @ toLower (dropColons (ilDUID l)) @ ''/iaid:'' @ toLower (ilIAID l)
      else if ilClientID l \<noteq> [] \<and> ilClientID l \<noteq> ''*'' then ''id:'' @ toLower (dropColons (ilClientID l))
      else ''mac:'' @ importMAC l)"

definition checkImport :: "config \<Rightarrow> importedLease \<Rightarrow> scope \<Rightarrow> prefix \<Rightarrow> unit result" where
  "checkImport c l s p =
     (if sEnabled s then Fail ''disable scope before importing leases''
      else if \<not> importAddressOk s p l then Fail ''invalid imported address''
      else if \<not> sIs6 s \<and> (case ParseMAC (ilMAC l) of None \<Rightarrow> True | Some hw \<Rightarrow> length hw \<noteq> 6)
      then Fail ''invalid imported MAC''
      else refuse (\<not> validClient (importClient s l)) ''invalid imported client ID'')"

definition importBase :: "scope \<Rightarrow> importedLease \<Rightarrow> int \<Rightarrow> int \<Rightarrow> binding" where
  "importBase s l now fin =
     (let client = importClient s l;
          b = zeroBinding\<lparr>bScope := ilScope l, bAddress := ilAddress l, bClient := client,
            bMAC := importMAC l, bOrigin := ''dnsmasq-import'', bStart := now, bEnd := fin,
            bDevice := deviceID (ilScope l) client, bName := deviceID (ilScope l) client\<rparr>
      in if sIs6 s
         then b\<lparr>bDUID := trimPrefix (hd (splitSep client ''/iaid:'')) ''duid:'', bIAID := ilIAID l\<rparr>
         else b)"

definition importLive :: "binding \<Rightarrow> int \<Rightarrow> bool" where
  "importLive old now = (now < bEnd old \<and> (bState old = ''active'' \<or> bState old = ''offered'' \<or> bState old = ''declined''))"

definition importQuarantine :: "'t bolt \<Rightarrow> scope \<Rightarrow> importedLease \<Rightarrow> int \<Rightarrow> int \<Rightarrow> binding \<Rightarrow> ('t book, unit) prog" where
  "importQuarantine B s l now fin old =
     (if now < bEnd old \<and> bState old = ''declined'' then ret ()
      else if now < bEnd old \<and> (bState old = ''active'' \<or> bState old = ''offered'')
      then raise (Error ''import conflicts with live binding'')
      else save B ((importBase s l now fin)\<lparr>bState := ''declined'',
             bEvidence := ''quarantine restored from exported lease file''\<rparr>) ''import'')"

definition importActive ::
  "'t bolt \<Rightarrow> config \<Rightarrow> scope \<Rightarrow> importedLease \<Rightarrow> int \<Rightarrow> int \<Rightarrow> binding \<Rightarrow> ('t book, unit) prog" where
  "importActive B c s l now fin old =
     (let client = importClient s l;
          b = (importBase s l now fin)\<lparr>bClaimedName := ilHostname l, bState := ''active''\<rparr>;
          b = (if sIs6 s then b\<lparr>bPreferredEnd := fin\<rparr> else b);
          b = (if heldBy old client now
               then b\<lparr>bDevice := bDevice old, bName := bName old, bNodeID := bNodeID old,
                      bEvidence := bEvidence old, bStart := bStart old\<rparr> else b);
          b = reserveLease c (findReservation s client (bMAC b)) b
      in if importLive old now \<and> bClient old = client \<and> bState old = ''active'' \<and> fin \<le> bEnd old then ret ()
         else if importLive old now \<and> (bClient old \<noteq> client \<or> bState old = ''declined'')
         then raise (Error ''import conflicts with live binding'')
         else save B b ''import'')"

definition importOne :: "'t bolt \<Rightarrow> config \<Rightarrow> string \<Rightarrow> int \<Rightarrow> importedLease \<Rightarrow> ('t book, unit) prog" where
  "importOne B c serverDUID now l =
     (if ilExpiry l < 0 then raise (Error ''negative imported lease expiry'')
      else bindM (getS (\<lambda>s. \<not> bktHas B metaBucket (db s) \<or>
              (case bktGet B metaBucket ''duid'' (db s) of None \<Rightarrow> True | Some v \<Rightarrow> rawBytes v = []))) (\<lambda>noDUID.
        if ilDUID l \<noteq> [] \<and> serverDUID = [] \<and> noDUID
        then raise (Error ''IPv6 adoption requires the legacy server DUID'')
        else (case cScope c (ilScope l) of
            None \<Rightarrow> raise (Error ''unknown import scope'')
          | Some s \<Rightarrow> (case ParsePrefix (sSubnet s) of
              None \<Rightarrow> if sEnabled s then raise (Error ''disable scope before importing leases'') else panic
            | Some p \<Rightarrow>
                bindM (liftR (checkImport c l s p)) (\<lambda>_.
                  let fin = (if ilExpiry l = 0 then 253402300799 else ilExpiry l)
                  in if fin \<le> now then ret ()
                     else bindM (readTx (readBinding B (ilScope l) (ilAddress l))) (\<lambda>old.
                       if isQuarantineMarker s l (importMAC l) then importQuarantine B s l now fin old
                       else importActive B c s l now fin old))))))"

definition ImportDocument ::
  "'t bolt \<Rightarrow> (string \<Rightarrow> bool) \<Rightarrow> config \<Rightarrow> importDocument \<Rightarrow> ('t book, unit) prog" where
  "ImportDocument B duidOk c doc =
     (if 10000 < length (docLeases doc) then raise (Error ''too many leases'')
      else bindM bookNow (\<lambda>now. Update B (
        bindM (if docServerDUID doc \<noteq> [] then inTx (adoptDUID B duidOk c (docServerDUID doc)) else ret ()) (\<lambda>_.
          eachM (importOne B c (docServerDUID doc) now) (docLeases doc)))))"

definition Import :: "'t bolt \<Rightarrow> (string \<Rightarrow> bool) \<Rightarrow> config \<Rightarrow> importedLease list \<Rightarrow> ('t book, unit) prog" where
  "Import B duidOk c leases =
     (if 10000 < length leases then raise (Error ''import limited to 10000 leases per request'')
      else ImportDocument B duidOk c \<lparr>docLeases = leases, docServerDUID = []\<rparr>)"

section \<open>The active lease of a client\<close>

definition currentClient :: "'t bolt \<Rightarrow> string \<Rightarrow> string \<Rightarrow> ('t book, binding option) prog" where
  "currentClient B sc client = bindM bookNow (\<lambda>now. View B (
     bindM (readTx (liveByClient B sc client)) (\<lambda>bs.
       let found = foldl (\<lambda>f b. if bOrigin b \<noteq> originPD \<and> bState b = ''active'' \<and> now < bEnd b then b else f) zeroBinding bs
       in ret (if bClient found \<noteq> [] then Some found else None))))"

end
