(* ===== verification/Book_Prefix.thy ===== *)
theory Book_Prefix
  imports Book_Allocate
begin

text \<open>
  Prefix delegation (\<^verbatim>\<open>pd.go\<close>): the arithmetic of the pool, granting and releasing delegated
  prefixes, the answer to one IA_PD, and the kernel routes of the delegations.
\<close>

section \<open>Pool arithmetic\<close>

definition as16 :: "addr \<Rightarrow> nat" where
  "as16 a = (case a of NoAddr \<Rightarrow> 0 | V4 w \<Rightarrow> 65535 * 2 ^ 32 + unat w | V6 w _ \<Rightarrow> unat w)"

text \<open>The carry loop on the bytes from \<^verbatim>\<open>byteIdx\<close> down to 0, with its 64-bit carry.\<close>

fun addCarry :: "nat \<Rightarrow> nat list \<Rightarrow> nat list" where
  "addCarry carry [] = []"
| "addCarry carry (b # bs) =
     (if carry = 0 then b # bs
      else let sum = b + carry mod 256
           in sum mod 256 # addCarry ((carry div 256 + sum div 256) mod 2 ^ 64) bs)"

definition ofBytes :: "nat list \<Rightarrow> nat" where
  "ofBytes bs = foldl (\<lambda>a b. a * 256 + b) 0 bs"

definition prefixAt :: "prefix \<Rightarrow> nat \<Rightarrow> nat \<Rightarrow> prefix" where
  "prefixAt pool len i =
     (let raw = beBytes 16 (as16 (pfxAddr pool));
          shift = 128 - len;
          byteIdx = 15 - shift div 8;
          carry = (i * 2 ^ (shift mod 8)) mod 2 ^ 64;
          raw' = rev (addCarry carry (rev (take (Suc byteIdx) raw))) @ drop (Suc byteIdx) raw
      in \<lparr>pfxAddr = V6 (of_nat (ofBytes raw')) [], pfxBits = len\<rparr>)"

definition poolSize :: "prefix \<Rightarrow> nat \<Rightarrow> nat" where
  "poolSize pool len = 2 ^ (len - pfxBits pool)"

definition inPool :: "prefix \<Rightarrow> nat \<Rightarrow> prefix \<Rightarrow> bool" where
  "inPool pool len p = (pfxBits p = len \<and> p = Masked p \<and> Contains pool (pfxAddr p))"

section \<open>Delegation\<close>

definition prefixFree :: "'t bolt \<Rightarrow> string \<Rightarrow> string \<Rightarrow> int \<Rightarrow> prefix \<Rightarrow> 't \<Rightarrow> bool result" where
  "prefixFree B sc client now p t =
     bindR (readBinding B sc (prefixString p) t) (\<lambda>b.
       let busy = now < bEnd b \<and> (bState b = ''active'' \<or> bState b = ''offered'')
       in Inr (\<not> busy \<or> bClient b = client))"

function prefixScan ::
  "'t bolt \<Rightarrow> string \<Rightarrow> string \<Rightarrow> int \<Rightarrow> 't \<Rightarrow> prefix \<Rightarrow> nat \<Rightarrow> nat \<Rightarrow> nat \<Rightarrow> prefix option result" where
  "prefixScan B sc client now t pool len i n =
     (if i < n then
        bindR (prefixFree B sc client now (prefixAt pool len i) t) (\<lambda>ok.
          if ok then Inr (Some (prefixAt pool len i))
          else prefixScan B sc client now t pool len (Suc i) n)
      else Inr None)"
  by pat_completeness auto
termination by (relation "measure (\<lambda>(B, sc, client, now, t, pool, len, i, n). n - i)") auto

declare prefixScan.simps [simp del]

definition delegated :: "int \<Rightarrow> binding \<Rightarrow> bool" where
  "delegated now b = (bOrigin b = originPD \<and> now < bEnd b \<and> (bState b = ''active'' \<or> bState b = ''offered''))"

definition hintedPrefix ::
  "'t bolt \<Rightarrow> string \<Rightarrow> string \<Rightarrow> int \<Rightarrow> prefix \<Rightarrow> nat \<Rightarrow> string \<Rightarrow> 't \<Rightarrow> prefix option result" where
  "hintedPrefix B sc client now pool len hint t =
     (if hint = [] then Inr None
      else (case ParsePrefix hint of
          None \<Rightarrow> Inr None
        | Some hp \<Rightarrow> if inPool pool len hp
            then bindR (prefixFree B sc client now hp t) (\<lambda>ok. Inr (if ok then Some hp else None))
            else Inr None))"

text \<open>The prefix of a delegation: the one held, else the hint, else the lowest free one.\<close>

definition choosePrefix ::
  "'t bolt \<Rightarrow> string \<Rightarrow> string \<Rightarrow> int \<Rightarrow> prefix \<Rightarrow> nat \<Rightarrow> string \<Rightarrow> binding \<Rightarrow> ('t book, prefix) prog" where
  "choosePrefix B sc client now pool len hint mine =
     (if bAddress mine \<noteq> [] then
        (case ParsePrefix (bAddress mine) of None \<Rightarrow> panic | Some p \<Rightarrow> ret p)
      else bindM (readTx (hintedPrefix B sc client now pool len hint)) (\<lambda>h. case h of
          Some p \<Rightarrow> ret p
        | None \<Rightarrow> bindM (readTx (\<lambda>t. prefixScan B sc client now t pool len 0 (poolSize pool len))) (\<lambda>r. case r of
            Some p \<Rightarrow> ret p
          | None \<Rightarrow> raise (Unavailable ''prefix pool exhausted''))))"

definition lastWhere :: "('a \<Rightarrow> bool) \<Rightarrow> 'a \<Rightarrow> 'a list \<Rightarrow> 'a" where
  "lastWhere f z xs = foldl (\<lambda>a x. if f x then x else a) z xs"

definition prefixDevice :: "scope \<Rightarrow> string \<Rightarrow> int \<Rightarrow> binding \<Rightarrow> binding \<Rightarrow> binding \<Rightarrow> binding" where
  "prefixDevice s client now same old b =
     (if bDevice same \<noteq> []
      then b\<lparr>bDevice := bDevice same, bName := bName same, bNodeID := bNodeID same,
             bEvidence := ''delegated prefix; same DUID as '' @ bAddress same\<rparr>
      else if bClient old = client \<and> bDevice old \<noteq> [] \<and> now < bEnd old
      then b\<lparr>bDevice := bDevice old, bName := bName old, bNodeID := bNodeID old\<rparr>
      else b)"

definition freshPrefix :: "scope \<Rightarrow> string \<Rightarrow> string \<Rightarrow> string \<Rightarrow> prefix \<Rightarrow> int \<Rightarrow> binding" where
  "freshPrefix s client duidHex via p now =
     zeroBinding\<lparr>bScope := sID s, bAddress := prefixString p, bClient := client, bDUID := duidHex,
       bOrigin := originPD, bState := ''offered'', bStart := now, bEnd := now + 30,
       bEvidence := ''delegated prefix'', bVia := via, bDevice := deviceID (sID s) client,
       bName := deviceID (sID s) client\<rparr>"

definition sameDUID :: "'t bolt \<Rightarrow> string \<Rightarrow> string \<Rightarrow> int \<Rightarrow> 't \<Rightarrow> binding" where
  "sameDUID B sc duidHex now t =
     (case liveByClientPrefix B (''duid:'' @ duidHex @ ''/'') t of
        Inl _ \<Rightarrow> zeroBinding
      | Inr xs \<Rightarrow> lastWhere (\<lambda>x. bScope x = sc \<and> bOrigin x = ''dhcpv6'' \<and> bDUID x = duidHex \<and>
          bState x = ''active'' \<and> now < bEnd x) zeroBinding xs)"

text \<open>\<open>via\<close> is the text of the router's link-local address, empty when the caller knows none.\<close>

definition allocatePrefixTx ::
  "'t bolt \<Rightarrow> scope \<Rightarrow> prefix \<Rightarrow> nat \<Rightarrow> string \<Rightarrow> string \<Rightarrow> string \<Rightarrow> string \<Rightarrow> bool \<Rightarrow> int \<Rightarrow> ('t book, binding) prog" where
  "allocatePrefixTx B s pool len client duidHex hint via commit now =
     bindM (readTx (liveByClient B (sID s) client)) (\<lambda>held.
     let mine = lastWhere (delegated now) zeroBinding held in
     bindM (choosePrefix B (sID s) client now pool len hint mine) (\<lambda>chosen.
     bindM (readTx (readBinding B (sID s) (prefixString chosen))) (\<lambda>old.
     bindM (getS (\<lambda>st. sameDUID B (sID s) duidHex now (db st))) (\<lambda>same.
     let b = prefixDevice s client now same old (freshPrefix s client duidHex via chosen now);
         b = (if bClient old = client \<and> now < bEnd old then b\<lparr>bStart := bStart old\<rparr> else b)
     in if commit then
          (let b = b\<lparr>bState := ''active'', bEnd := now + sLeaseSeconds s, bPreferredEnd := now + sPreferredSeconds s\<rparr>
           in bindM (save B b (if heldBy old client now then ''renew'' else ''grant'')) (\<lambda>_. ret b))
        else if bState mine = ''active'' then ret mine
        else bindM (save B b ''offer'') (\<lambda>_. ret b)))))"

definition AllocatePrefix ::
  "'t bolt \<Rightarrow> scope \<Rightarrow> pdConfig \<Rightarrow> string \<Rightarrow> string \<Rightarrow> string \<Rightarrow> string \<Rightarrow> bool \<Rightarrow> ('t book, binding) prog" where
  "AllocatePrefix B s pd client duidHex hint via commit = (case ParsePrefix (pdPrefix pd) of
       None \<Rightarrow> panic
     | Some pool \<Rightarrow> bindM bookNow (\<lambda>now.
         Update B (allocatePrefixTx B s pool (nat (pdLength pd)) client duidHex hint via commit now)))"

definition releasePrefix :: "'t bolt \<Rightarrow> scope \<Rightarrow> string \<Rightarrow> ('t book, unit) prog" where
  "releasePrefix B s client = bindM bookNow (\<lambda>now. Update B (
     bindM (readTx (liveByClient B (sID s) client)) (\<lambda>live.
       let held = filter (delegated now) live in
       bindM (eachM (\<lambda>b. save B (b\<lparr>bState := ''released'', bEnd := now\<rparr>) ''release'') held) (\<lambda>_.
         if held = [] then raise (Error ''no live delegation owned by client'') else ret ()))))"

section \<open>One IA_PD\<close>

datatype messageType =
  MSolicit | MRequest | MRenew | MRebind | MConfirm | MRelease | MDecline | MInformationRequest

datatype status6 = StatusSuccess | StatusNoBinding | StatusNoPrefixAvail

text \<open>
  An answer: only the identifier, a status, or a grant with T1, T2, the preferred and valid
  lifetimes in seconds and the network.
\<close>

datatype pdAnswer = PdEmpty | PdStatus status6 string | PdGrant int int int int "prefix option"

definition pdClient :: "string \<Rightarrow> string \<Rightarrow> string" where
  "pdClient cid iaid = ''duid:'' @ hexString (strBytes cid) @ ''/iaid:'' @ hexString (strBytes iaid)"

definition currentPD :: "'t bolt \<Rightarrow> string \<Rightarrow> string \<Rightarrow> int \<Rightarrow> 't book \<Rightarrow> bool" where
  "currentPD B sc client now st =
     (case View B (readTx (liveByClient B sc client)) st of
        (Done live, _) \<Rightarrow> bClient (lastWhere (\<lambda>b. bOrigin b = originPD \<and> bState b = ''active'' \<and> now < bEnd b) zeroBinding live) \<noteq> []
      | _ \<Rightarrow> False)"

text \<open>\<open>hints\<close> are the texts of the prefixes of the request, in order.\<close>

definition grantPD ::
  "'t bolt \<Rightarrow> scope \<Rightarrow> pdConfig \<Rightarrow> messageType \<Rightarrow> string \<Rightarrow> string \<Rightarrow> string list \<Rightarrow> string \<Rightarrow> ('t book, pdAnswer) prog" where
  "grantPD B s pd kind client cid hints via =
     bindM (attempt (AllocatePrefix B s pd client (hexString (strBytes cid))
         (if hints = [] then [] else last hints) via (kind \<noteq> MSolicit))) (\<lambda>r. case r of
       Inl (Unavailable _) \<Rightarrow> ret (PdStatus StatusNoPrefixAvail ''no prefix available'')
     | Inl e \<Rightarrow> raise e
     | Inr b \<Rightarrow> ret (PdGrant (sLeaseSeconds s div 2) (sLeaseSeconds s * 4 div 5) (sPreferredSeconds s)
         (sLeaseSeconds s) (map_option Masked (ParsePrefix (bAddress b)))))"

definition handlePD ::
  "'t bolt \<Rightarrow> scope \<Rightarrow> messageType \<Rightarrow> string \<Rightarrow> string \<Rightarrow> string list \<Rightarrow> string \<Rightarrow> ('t book, pdAnswer) prog" where
  "handlePD B s kind cid iaid hints via = (case sPD s of
       None \<Rightarrow> ret (PdStatus StatusNoPrefixAvail ''prefix delegation not configured'')
     | Some pd \<Rightarrow>
         let client = pdClient cid iaid in
         if \<not> validClient client then ret (PdStatus StatusNoPrefixAvail ''invalid client'')
         else bindM bookNow (\<lambda>now.
           if kind = MRelease \<or> kind = MDecline then
             bindM (getS (currentPD B (sID s) client now)) (\<lambda>ok.
               if \<not> ok then ret (PdStatus StatusNoBinding ''no delegation'')
               else bindM (releasePrefix B s client) (\<lambda>_. ret (PdStatus StatusSuccess ''delegation released'')))
           else if kind = MRenew \<or> kind = MRebind then
             bindM (getS (currentPD B (sID s) client now)) (\<lambda>ok.
               if \<not> ok then ret (PdStatus StatusNoBinding ''no active delegation'')
               else grantPD B s pd kind client cid hints via)
           else if kind = MConfirm then ret PdEmpty
           else grantPD B s pd kind client cid hints via))"

section \<open>Routes\<close>

definition routeProto :: string where
  "routeProto = ''250''"

record kernelRoute =
  krDst :: string
  krGateway :: string
  krDev :: string

definition decKernelRoute :: "kernelRoute decoder" where
  "decKernelRoute = decStruct [decInto decString ''dst'' krDst krDst_update,
     decInto decString ''gateway'' krGateway krGateway_update, decInto decString ''dev'' krDev krDev_update]"

definition decKernelRoutes :: "bytes \<Rightarrow> kernelRoute list result" where
  "decKernelRoutes raw =
     (if (case raw of NoBytes \<Rightarrow> True | Text x \<Rightarrow> trimSpace x = [] | Json _ \<Rightarrow> False) then Inr []
      else bindR (unmarshal raw) (decList decKernelRoute \<lparr>krDst = [], krGateway = [], krDev = []\<rparr> []))"

definition wantedRoutes :: "config \<Rightarrow> binding list \<Rightarrow> (string \<times> string \<times> string) list" where
  "wantedRoutes c bs = foldl (\<lambda>m b.
     if bOrigin b \<noteq> originPD \<or> bState b \<noteq> ''active'' \<or> bVia b = [] then m
     else (case cScope c (bScope b) of
         None \<Rightarrow> m
       | Some sc \<Rightarrow> (case sPD sc of
           None \<Rightarrow> m
         | Some pd \<Rightarrow> if sEnabled sc \<and> pdRoute pd then assocPut (bAddress b) (bVia b, sInterface sc) m else m))) [] bs"

definition currentRoutes :: "kernelRoute list \<Rightarrow> (string \<times> string \<times> string) list" where
  "currentRoutes have = foldl (\<lambda>m r. assocPut (krDst r) (krGateway r, krDev r) m) [] have"

text \<open>The commands that bring the routes of the daemon to the ledger: replacements, then removals.\<close>

definition routeCommands ::
  "(string \<times> string \<times> string) list \<Rightarrow> (string \<times> string \<times> string) list \<Rightarrow> string list list" where
  "routeCommands want current =
     concat (map (\<lambda>p. case map_of want p of
         None \<Rightarrow> []
       | Some (via, dev) \<Rightarrow> if map_of current p = Some (via, dev) then []
           else [[''-6'', ''route'', ''replace'', p, ''via'', via, ''dev'', dev, ''proto'', routeProto]])
       (sortedStrings (map fst want))) @
     concat (map (\<lambda>(p, _, dev). if map_of want p \<noteq> None then []
         else [[''-6'', ''route'', ''del'', p, ''dev'', dev, ''proto'', routeProto]]) current)"

fun runRoutes :: "'k runner \<Rightarrow> string list list \<Rightarrow> ('k, bool) prog" where
  "runRoutes run [] = ret True"
| "runRoutes run (args # rest) = (\<lambda>k. case run args NoBytes k of
       (Replied _, k') \<Rightarrow> runRoutes run rest k'
     | (Refused _, k') \<Rightarrow> bindM (runRoutes run rest) (\<lambda>_. ret False) k'
     | (Killed, k') \<Rightarrow> (Died, k'))"

text \<open>\<open>snap\<close> is the outcome of the ledger's \<^verbatim>\<open>Snapshot\<close> for all scopes at the present.\<close>

definition ReconcileRoutes :: "'k runner \<Rightarrow> config \<Rightarrow> snapshot result \<Rightarrow> ('k, unit) prog" where
  "ReconcileRoutes run c snap =
     bindM (liftR snap) (\<lambda>sn.
     bindM (\<lambda>k. case run [''-6'', ''-j'', ''route'', ''show'', ''proto'', routeProto] NoBytes k of
         (Replied raw, k') \<Rightarrow> (Done raw, k')
       | (Refused e, k') \<Rightarrow> (Err e, k')
       | (Killed, k') \<Rightarrow> (Died, k')) (\<lambda>raw.
     bindM (liftR (decKernelRoutes raw)) (\<lambda>have.
     bindM (runRoutes run (routeCommands (wantedRoutes c (snBindings sn)) (currentRoutes have))) (\<lambda>ok.
       if ok then ret () else raise (Error ''route commands failed'')))))"

end
