(* ===== verification/Book_Identity.thy ===== *)
theory Book_Identity
  imports Book_Prefix
begin

text \<open>
  Who holds an address: neighbour observations, host reports, operator repairs with their
  durable associations, and suggestions from the peer inventory (\<^verbatim>\<open>observations.go\<close>,
  \<^verbatim>\<open>identity.go\<close>, \<^verbatim>\<open>suggest.go\<close>).
\<close>

section \<open>Observations\<close>

text \<open>
  One observation, checked and put in canonical form.  The subnet of a validated scope always
  parses; the code panics on others.
\<close>

definition checkObservation :: "config \<Rightarrow> observation \<Rightarrow> observation result" where
  "checkObservation c x = (case cScope c (obScope x) of
       None \<Rightarrow> Fail ''unknown observation scope''
     | Some s \<Rightarrow> (case (ParseAddr (obAddress x), ParsePrefix (sSubnet s)) of
         (Some ip, Some p) \<Rightarrow>
           if \<not> Contains p ip then Fail ''observation outside scope''
           else (case ParseMAC (obMAC x) of
               None \<Rightarrow> Fail ''invalid observation MAC''
             | Some mac \<Rightarrow> if length mac \<noteq> 6 then Fail ''invalid observation MAC''
                 else Inr (x\<lparr>obAddress := addrString ip, obMAC := macString mac\<rparr>))
       | _ \<Rightarrow> Fail ''observation outside scope''))"

definition observationEvent :: "int \<Rightarrow> string \<Rightarrow> observation \<Rightarrow> event" where
  "observationEvent tm kind x = zeroEvent\<lparr>evTime := tm, evKind := kind, evObservation := Some x\<rparr>"

definition unmarshalObservation :: "bytes \<Rightarrow> observation result" where
  "unmarshalObservation raw = bindR (unmarshal raw) (decObservation zeroObservation)"

text \<open>
  The sighting stored before, whether it breaks off, and its closing record.  A stored record
  that does not decode counts as none.
\<close>

definition prevObservation :: "bytes option \<Rightarrow> observation option" where
  "prevObservation old = (case old of
       None \<Rightarrow> None
     | Some raw \<Rightarrow> (case unmarshalObservation raw of Inl _ \<Rightarrow> None | Inr p \<Rightarrow> Some p))"

definition supersedes :: "observation \<Rightarrow> observation \<Rightarrow> bool" where
  "supersedes x prev = (obMAC prev \<noteq> obMAC x \<or> obUntil prev \<le> obSeen x)"

definition endedObservation :: "observation \<Rightarrow> observation \<Rightarrow> observation" where
  "endedObservation x prev = (if obSeen x < obUntil prev then prev\<lparr>obUntil := obSeen x\<rparr> else prev)"

definition recordObservation :: "'t bolt \<Rightarrow> observation \<Rightarrow> ('t book, unit) prog" where
  "recordObservation B x =
     (let key = bindingKey (obScope x) (obAddress x) in
     bindM (getS (\<lambda>s. bktGet B observationBucket key (db s))) (\<lambda>old.
     bindM (inTx (bktPut B observationBucket key (Json (encObservation x)))) (\<lambda>_.
       case prevObservation old of
         None \<Rightarrow> bindM bookNow (\<lambda>tm. inTx (appendEvent B (observationEvent tm ''observation'' x)))
       | Some prev \<Rightarrow>
           if \<not> supersedes x prev then ret ()
           else
             bindM (if 0 < obUntil prev
                    then bindM bookNow (\<lambda>tm. inTx (appendEvent B
                      (observationEvent tm ''observation-end'' (endedObservation x prev))))
                    else ret ()) (\<lambda>_.
             bindM bookNow (\<lambda>tm. inTx (appendEvent B (observationEvent tm ''observation'' x)))))))"

definition observeOne :: "'t bolt \<Rightarrow> config \<Rightarrow> int \<Rightarrow> observation \<Rightarrow> ('t book, unit) prog" where
  "observeOne B c ttl x =
     bindM (liftR (checkObservation c x)) (\<lambda>x.
     bindM bookNow (\<lambda>seen. recordObservation B (x\<lparr>obSeen := seen, obUntil := seen + ttl\<rparr>)))"

definition observeAll :: "'t bolt \<Rightarrow> config \<Rightarrow> observation list \<Rightarrow> int \<Rightarrow> ('t book, unit) prog" where
  "observeAll B c xs ttl =
     (if 10000 < length xs then raise (Error ''too many observations'')
      else Update B (eachM (observeOne B c ttl) xs))"

definition Observe :: "'t bolt \<Rightarrow> config \<Rightarrow> observation list \<Rightarrow> ('t book, unit) prog" where
  "Observe B c xs = observeAll B c (map (\<lambda>x. x\<lparr>obOrigin := ''kernel-neighbor''\<rparr>) xs) 120"

definition ObserveSwitch :: "'t bolt \<Rightarrow> config \<Rightarrow> observation list \<Rightarrow> int \<Rightarrow> ('t book, unit) prog" where
  "ObserveSwitch B c xs ttl =
     (if ttl < 10 \<or> 3600 < ttl then raise (Error ''ttl must be 10..3600 seconds'')
      else if list_ex (\<lambda>x. 128 < length (obDetail x)) xs then raise (Error ''observation detail too long'')
      else observeAll B c (map (\<lambda>x. x\<lparr>obOrigin := ''switch-snooping''\<rparr>) xs) ttl)"

text \<open>The neighbour table of the kernel, as \<^verbatim>\<open>ip -j neigh show\<close> prints it.\<close>

record neighbor =
  nbAddress :: string
  nbMAC :: string
  nbInterface :: string
  nbState :: "string list"

definition decNeighbor :: "neighbor decoder" where
  "decNeighbor = decStruct [decInto decString ''dst'' nbAddress nbAddress_update,
     decInto decString ''lladdr'' nbMAC nbMAC_update, decInto decString ''dev'' nbInterface nbInterface_update,
     decInto decStrings ''state'' nbState nbState_update]"

definition freshNeighbor :: "neighbor \<Rightarrow> bool" where
  "freshNeighbor r = (let st = '' '' @ joinWith '' '' (nbState r) @ '' ''
     in containsStr st '' REACHABLE '' \<or> containsStr st '' PERMANENT '')"

definition neighborObservations :: "config \<Rightarrow> neighbor list \<Rightarrow> observation list" where
  "neighborObservations c rows = concat (map (\<lambda>r.
     if \<not> freshNeighbor r then []
     else (case ParseAddr (nbAddress r) of
         None \<Rightarrow> []
       | Some ip \<Rightarrow> concat (map (\<lambda>s.
           if sInterface s = nbInterface r \<and> sRelay s = None \<and>
              (case ParsePrefix (sSubnet s) of None \<Rightarrow> False | Some p \<Rightarrow> Contains p ip)
           then [zeroObservation\<lparr>obScope := sID s, obAddress := addrString ip, obMAC := nbMAC r\<rparr>] else [])
           (cScopes c)))) rows)"

text \<open>\<open>raw\<close> is what the command returned.\<close>

definition CollectNeighbors :: "'t bolt \<Rightarrow> config \<Rightarrow> bytes result \<Rightarrow> ('t book, unit) prog" where
  "CollectNeighbors B c raw =
     bindM (liftR raw) (\<lambda>out.
     bindM (liftR (bindR (unmarshal out)
       (decList decNeighbor \<lparr>nbAddress = [], nbMAC = [], nbInterface = [], nbState = []\<rparr> []))) (\<lambda>rows.
       Observe B c (neighborObservations c rows)))"

section \<open>Host reports\<close>

definition freshSighting :: "'t bolt \<Rightarrow> string \<Rightarrow> string \<Rightarrow> string \<Rightarrow> int \<Rightarrow> 't \<Rightarrow> observation option" where
  "freshSighting B sc ad mac now t = (case bktGet B observationBucket (bindingKey sc ad) t of
       None \<Rightarrow> None
     | Some raw \<Rightarrow> (case unmarshalObservation raw of
         Inl _ \<Rightarrow> None
       | Inr x \<Rightarrow> if obUntil x \<le> now \<or> obMAC x \<noteq> mac then None else Some x))"

type_synonym matching = "string list \<times> binding list"

definition matchLease :: "'t bolt \<Rightarrow> int \<Rightarrow> 't \<Rightarrow> string \<Rightarrow> matching \<Rightarrow> binding \<Rightarrow> matching" where
  "matchLease B now t mac st b =
     (let key = bScope b @ ''/'' @ bAddress b in
      if key \<in> set (fst st) \<or> bState b \<noteq> ''active'' \<or> bEnd b \<le> now then st
      else if bMAC b \<noteq> mac \<and> freshSighting B (bScope b) (bAddress b) mac now t = None then st
      else (key # fst st, snd st @ [b]))"

definition neighborLease :: "observation \<Rightarrow> int \<Rightarrow> binding" where
  "neighborLease x now = zeroBinding\<lparr>bScope := obScope x, bAddress := obAddress x, bMAC := obMAC x,
     bClient := ''neighbor:'' @ obMAC x, bDevice := deviceID (obScope x) (obMAC x),
     bOrigin := ''neighbor-report'', bState := ''active'', bStart := now, bEnd := obUntil x\<rparr>"

definition matchScope ::
  "'t bolt \<Rightarrow> int \<Rightarrow> 't \<Rightarrow> string \<Rightarrow> string \<Rightarrow> matching \<Rightarrow> scope \<Rightarrow> matching result" where
  "matchScope B now t mac ip st s = (case (ParseAddr ip, ParsePrefix (sSubnet s)) of
       (Some a, Some p) \<Rightarrow>
         let key = sID s @ ''/'' @ addrString a in
         if \<not> Contains p a \<or> key \<in> set (fst st) then Inr st
         else (case freshSighting B (sID s) (addrString a) mac now t of
             None \<Rightarrow> Inr st
           | Some x \<Rightarrow> bindR (readBinding B (obScope x) (obAddress x) t) (\<lambda>old.
               if now < bEnd old \<and> liveState (bState old) then Inr st
               else Inr (key # fst st, snd st @ [neighborLease x now])))
     | _ \<Rightarrow> Inr st)"

definition matchAddress ::
  "'t bolt \<Rightarrow> config \<Rightarrow> int \<Rightarrow> 't \<Rightarrow> string \<Rightarrow> matching \<Rightarrow> string \<Rightarrow> matching result" where
  "matchAddress B c now t mac st ip =
     bindR (liveByAddress B ip t) (\<lambda>bs.
       foldR (matchScope B now t mac ip) (foldl (matchLease B now t mac) st bs) (cScopes c))"

definition reportMatches :: "'t bolt \<Rightarrow> config \<Rightarrow> node \<Rightarrow> int \<Rightarrow> 't \<Rightarrow> binding list result" where
  "reportMatches B c n now t =
     bindR (foldR (\<lambda>st i. foldR (matchAddress B c now t
         (case ParseMAC (irMAC i) of None \<Rightarrow> [] | Some hw \<Rightarrow> macString hw)) st (irAddresses i))
       ([], []) (nInterfaces n)) (\<lambda>st. Inr (snd st))"

text \<open>The device of the report: declared for the node, or carried by what it matched.\<close>

definition declaredFor :: "config \<Rightarrow> string \<Rightarrow> string \<times> string" where
  "declaredFor c nodeID = foldl (\<lambda>dn d. if HasNode d nodeID then (dID d, dName d) else dn) ([], []) (cDevices c)"

definition judgeMatch :: "config \<Rightarrow> string \<Rightarrow> string \<times> string \<Rightarrow> binding \<Rightarrow> (string \<times> string) result" where
  "judgeMatch c nodeID dn b =
     (if bNodeID b \<noteq> [] \<and> bNodeID b \<noteq> nodeID \<and>
         (case cDevice c (bDevice b) of None \<Rightarrow> True | Some d \<Rightarrow> \<not> HasNode d (bNodeID b) \<or> \<not> HasNode d nodeID)
      then Fail ''identity conflict''
      else (case cDevice c (bDevice b) of
          None \<Rightarrow> Inr dn
        | Some d \<Rightarrow>
            if DeclaresNodes d \<and> \<not> HasNode d nodeID then Fail ''inventory identity conflict''
            else if fst dn \<noteq> [] \<and> fst dn \<noteq> dID d then Fail ''report spans distinct declared devices''
            else Inr (dID d, dName d)))"

definition undeclaredName :: "'t bolt \<Rightarrow> config \<Rightarrow> node \<Rightarrow> int \<Rightarrow> 't \<Rightarrow> (string \<times> string) result" where
  "undeclaredName B c n now t =
     (let device = deviceID ''tailnet'' (nID n);
          name = hd (splitOn CHR ''.'' (nDNSName n));
          name = (if \<not> labelPattern name \<or> name = ''ns'' then device else name);
          name = foldl (\<lambda>name d. if dName d = name \<or> HasAlias d name then device else name) name (cDevices c)
      in bindR (activeByName B name t) (\<lambda>holders.
           Inr (device, if list_ex (\<lambda>b. bDevice b \<noteq> device \<and> bNodeID b \<noteq> [] \<and> bNodeID b \<noteq> nID n \<and> now < bEnd b) holders
                        then device else name)))"

definition reportDevice :: "'t bolt \<Rightarrow> config \<Rightarrow> node \<Rightarrow> int \<Rightarrow> binding list \<Rightarrow> 't \<Rightarrow> (string \<times> string) result" where
  "reportDevice B c n now ms t =
     bindR (foldR (judgeMatch c (nID n)) (declaredFor c (nID n)) ms) (\<lambda>dn.
       if fst dn = [] then undeclaredName B c n now t else Inr dn)"

definition joinBinding ::
  "'t bolt \<Rightarrow> string \<Rightarrow> string \<Rightarrow> string \<Rightarrow> int \<Rightarrow> binding \<Rightarrow> 't \<Rightarrow> binding \<times> bool" where
  "joinBinding B device name nodeID now b0 t =
     (let changed = (bDevice b0 \<noteq> device \<or> bNodeID b0 \<noteq> nodeID \<or> bName b0 \<noteq> name);
          b = b0\<lparr>bDevice := device, bName := name, bNodeID := nodeID,
                bEvidence := ''authenticated self-report + active DHCP MAC/address''\<rparr>
      in if bOrigin b = ''neighbor-report'' then
           (case freshSighting B (bScope b) (bAddress b) (bMAC b) now t of
              None \<Rightarrow> (b\<lparr>bEvidence := ''authenticated self-report + fresh kernel-neighbor sighting (not a DHCP grant)''\<rparr>, changed)
            | Some x \<Rightarrow> (b\<lparr>bEnd := obUntil x,
                bEvidence := ''authenticated self-report + fresh '' @ obOrigin x @ '' sighting (not a DHCP grant)''\<rparr>,
                changed \<or> bEnd b \<noteq> obUntil x))
         else (b, changed))"

definition joinOne ::
  "'t bolt \<Rightarrow> string \<Rightarrow> string \<Rightarrow> string \<Rightarrow> int \<Rightarrow> binding list \<Rightarrow> binding \<Rightarrow> ('t book, binding list) prog" where
  "joinOne B device name nodeID now joined b =
     (if hasPrefix (bEvidence b) ''operator repair:'' \<and> bNodeID b \<noteq> nodeID
      then raise (Error ''operator association requires explicit repair'')
      else bindM (getS (\<lambda>s. joinBinding B device name nodeID now b (db s))) (\<lambda>(b', changed).
        bindM (if changed then save B b' ''associate'' else ret ()) (\<lambda>_. ret (joined @ [b']))))"

definition reportTx :: "'t bolt \<Rightarrow> config \<Rightarrow> node \<Rightarrow> int \<Rightarrow> ('t book, binding list) prog" where
  "reportTx B c n now =
     bindM (readTx (reportMatches B c n now)) (\<lambda>ms.
     bindM (readTx (reportDevice B c n now ms)) (\<lambda>(device, name).
     bindM (foldM (joinOne B device name (nID n) now) [] ms) (\<lambda>joined.
     bindM (inTx (bktPut B nodeBucket (nID n) (Json (encNode n)))) (\<lambda>_. ret joined))))"

definition checkReport :: "node \<Rightarrow> unit result" where
  "checkReport n =
     (if nID n = [] \<or> 64 < length (nInterfaces n) then Fail ''invalid host report''
      else eachR (\<lambda>i.
        if (case ParseMAC (irMAC i) of None \<Rightarrow> True | Some hw \<Rightarrow> length hw \<noteq> 6) \<or> 128 < length (irAddresses i)
        then Fail ''invalid reported interface''
        else eachR (\<lambda>a. refuse (ParseAddr a = None) ''invalid reported address'') (irAddresses i)) (nInterfaces n))"

text \<open>A report that fails inside the transaction leaves an audit event, in a second transaction.\<close>

definition Report :: "'t bolt \<Rightarrow> config \<Rightarrow> node \<Rightarrow> ('t book, binding list) prog" where
  "Report B c n =
     bindM (liftR (checkReport n)) (\<lambda>_.
     bindM bookNow (\<lambda>now.
     bindM (attempt (Update B (reportTx B c (n\<lparr>nSeen := now\<rparr>) now))) (\<lambda>r. case r of
       Inr joined \<Rightarrow> ret joined
     | Inl e \<Rightarrow> bindM (audit B ''identity-conflict'' (nID n @ '': '' @
           (case e of Error m \<Rightarrow> m | Unavailable m \<Rightarrow> m | Status _ m \<Rightarrow> m))) (\<lambda>_. raise e))))"

section \<open>Repairs\<close>

record identityRepair =
  irpScope :: string
  irpAddress :: string
  irpClient :: string
  irpExpectedDevice :: string
  irpDevice :: string
  irpName :: string
  irpNodeID :: string
  irpReason :: string
  irpPersist :: bool
  irpForget :: bool

definition versionOf :: "association \<Rightarrow> int \<Rightarrow> associationVersion" where
  "versionOf a now = \<lparr>avDevice = asDevice a, avName = asName a, avNodeID = asNodeID a, avReason = asReason a,
     avUpdated = asUpdated a, avEnded = now\<rparr>"

definition nextAssociation :: "association option \<Rightarrow> identityRepair \<Rightarrow> int \<Rightarrow> association" where
  "nextAssociation old r now =
     (let a = (case old of None \<Rightarrow> zeroAssociation | Some a \<Rightarrow> a);
          a = (if old \<noteq> None \<and> (asDevice a \<noteq> irpDevice r \<or> asName a \<noteq> irpName r \<or> asNodeID a \<noteq> irpNodeID r)
               then a\<lparr>asHistory := asHistory a @ [versionOf a now]\<rparr> else a)
      in a\<lparr>asClient := irpClient r, asDevice := irpDevice r, asName := irpName r, asNodeID := irpNodeID r,
           asReason := irpReason r, asUpdated := now\<rparr>)"

definition putAssociation :: "'t bolt \<Rightarrow> identityRepair \<Rightarrow> ('t book, unit) prog" where
  "putAssociation B r =
     (if irpForget r then
        bindM (readTx (readAssociation B (irpClient r))) (\<lambda>a.
          if a = None then ret () else inTx (bktDelete B associationBucket (irpClient r)))
      else if \<not> irpPersist r then ret ()
      else bindM bookNow (\<lambda>now.
        bindM (readTx (readAssociation B (irpClient r))) (\<lambda>a.
          inTx (bktPut B associationBucket (irpClient r) (Json (encAssociation (nextAssociation a r now)))))))"

definition repairConflict :: "deviceConfig \<Rightarrow> identityRepair \<Rightarrow> bool" where
  "repairConflict d r =
     (((dName d = irpName r \<or> HasAlias d (irpName r)) \<and> dID d \<noteq> irpDevice r) \<or>
      (dID d = irpDevice r \<and> (dName d \<noteq> irpName r \<or> (DeclaresNodes d \<and> \<not> HasNode d (irpNodeID r)))))"

definition repairOne :: "'t bolt \<Rightarrow> config \<Rightarrow> identityRepair \<Rightarrow> ('t book, unit) prog" where
  "repairOne B c r =
     (if \<not> labelPattern (irpDevice r) \<or> \<not> labelPattern (irpName r) \<or> irpName r = ''ns'' \<or>
         trimSpace (irpReason r) = [] \<or> 512 < length (irpReason r)
      then raise (Error ''repair requires valid device/name and reason'')
      else if list_ex (\<lambda>d. repairConflict d r) (cDevices c) then raise (Error ''repair conflicts with inventory'')
      else
        bindM bookNow (\<lambda>now.
        bindM (readTx (activeByName B (irpName r))) (\<lambda>holders.
        if list_ex (\<lambda>x. bDevice x \<noteq> irpDevice r \<and> now < bEnd x \<and>
              \<not> (bScope x = irpScope r \<and> bAddress x = irpAddress r)) holders
        then raise (Error ''name is already held by live device'')
        else
          bindM (readTx (readBinding B (irpScope r) (irpAddress r))) (\<lambda>b.
          bindM (if bClient b \<noteq> irpClient r \<or> bDevice b \<noteq> irpExpectedDevice r \<or> bState b \<noteq> ''active''
                 then raise (Error ''binding changed; refresh before repairing'')
                 else bindM bookNow (\<lambda>now2. if bEnd b \<le> now2
                   then raise (Error ''binding changed; refresh before repairing'') else ret ())) (\<lambda>_.
          if (case cScope c (bScope b) of
                None \<Rightarrow> False
              | Some s \<Rightarrow> (case findReservation s (bClient b) (bMAC b) of
                  None \<Rightarrow> False | Some rv \<Rightarrow> rDevice rv \<noteq> irpDevice r))
          then raise (Error ''change inventory reservation before repairing this binding'')
          else bindM (save B (b\<lparr>bDevice := irpDevice r, bName := irpName r, bNodeID := irpNodeID r,
                 bEvidence := ''operator repair: '' @ irpReason r\<rparr>) ''identity-repair'') (\<lambda>_.
               putAssociation B r))))))"

definition Repair :: "'t bolt \<Rightarrow> config \<Rightarrow> identityRepair list \<Rightarrow> ('t book, unit) prog" where
  "Repair B c changes =
     (if changes = [] \<or> 256 < length changes then raise (Error ''repair needs 1..256 bindings'')
      else Update B (eachM (repairOne B c) changes))"

end
