(* ===== verification/Book_Replica.thy ===== *)
theory Book_Replica
  imports Book_Identity
begin

text \<open>
  The warm standby that mirrors a ledger (\<^verbatim>\<open>replicate.go\<close>), and the suggestions that link
  bindings to tailnet peers (\<^verbatim>\<open>suggest.go\<close>).
\<close>

section \<open>Replication\<close>

definition replicaCursorKey :: string where
  "replicaCursorKey = ''replica-cursor''"

definition ReplicaCursor :: "'t bolt \<Rightarrow> 't book \<Rightarrow> nat" where
  "ReplicaCursor B s = (case View B (getS (\<lambda>s. bktGet B metaBucket replicaCursorKey (db s))) s of
       (Done (Some v), _) \<Rightarrow> if bktHas B metaBucket (db s) \<and> length (rawBytes v) = 8 then getUint64 (rawBytes v) else 0
     | _ \<Rightarrow> 0)"

definition applyEvent :: "'t bolt \<Rightarrow> event \<Rightarrow> ('t book, unit) prog" where
  "applyEvent B ev = (case evObservation ev of
       Some x \<Rightarrow>
         bindM (if evKind ev = ''observation''
                then inTx (bktPut B observationBucket (bindingKey (obScope x) (obAddress x)) (Json (encObservation x)))
                else ret ()) (\<lambda>_.
           inTx (appendEvent B (observationEvent (evTime ev) (evKind ev) x)))
     | None \<Rightarrow> if bScope (evBinding ev) \<noteq> [] then save B (evBinding ev) (evKind ev) else ret ())"

fun applyEvents :: "'t bolt \<Rightarrow> nat \<Rightarrow> event list \<Rightarrow> ('t book, nat) prog" where
  "applyEvents B cursor [] = ret cursor"
| "applyEvents B cursor (ev # evs) =
     (if evID ev \<le> cursor then applyEvents B cursor evs
      else bindM (applyEvent B ev) (\<lambda>_. applyEvents B (evID ev) evs))"

definition clearBucket :: "'t bolt \<Rightarrow> string \<Rightarrow> ('t, unit) prog" where
  "clearBucket B bk t = eachM (bktDelete B bk) (map fst (bktEntries B bk t)) t"

definition applySnapshot :: "'t bolt \<Rightarrow> snapshot \<Rightarrow> ('t, unit) prog" where
  "applySnapshot B sn =
     bindM (bktCreate B metaBucket) (\<lambda>_.
     bindM (if snServerDUID sn \<noteq> []
            then bindM (liftR (decodeHex (dropColons (snServerDUID sn)))) (\<lambda>raw.
              bktPut B metaBucket ''duid'' (Text raw))
            else ret ()) (\<lambda>_.
     bindM (eachM (clearBucket B) [nodeBucket, associationBucket]) (\<lambda>_.
     bindM (eachM (\<lambda>n. bktPut B nodeBucket (nID n) (Json (encNode n))) (snNodes sn)) (\<lambda>_.
       eachM (\<lambda>a. bktPut B associationBucket (asClient a) (Json (encAssociation a))) (snAssociations sn)))))"

definition ApplyReplicated :: "'t bolt \<Rightarrow> event list \<Rightarrow> snapshot option \<Rightarrow> ('t book, nat) prog" where
  "ApplyReplicated B events sn =
     bindM (getS (ReplicaCursor B)) (\<lambda>cursor0. Update B (
     bindM (applyEvents B cursor0 events) (\<lambda>cursor.
     bindM (case sn of None \<Rightarrow> ret () | Some x \<Rightarrow> inTx (applySnapshot B x)) (\<lambda>_.
     bindM (inTx (bktCreate B metaBucket)) (\<lambda>_.
     bindM (inTx (bktPut B metaBucket replicaCursorKey (Text (putUint64 cursor)))) (\<lambda>_.
       ret cursor))))))"

section \<open>Peers\<close>

record peer =
  peID :: string
  peDNSName :: string
  peHostName :: string
  peAddresses :: "string list"
  peLANAddrs :: "string list"
  peOnline :: bool
  peSeen :: int

definition peerBucket :: string where
  "peerBucket = ''peers-v1''"

definition zeroPeer :: peer where
  "zeroPeer = \<lparr>peID = [], peDNSName = [], peHostName = [], peAddresses = [], peLANAddrs = [],
     peOnline = False, peSeen = 0\<rparr>"

definition omitStrings :: "string list \<Rightarrow> json option" where
  "omitStrings xs = (if xs = [] then None else Some (encStrings xs))"

definition encPeer :: "peer \<Rightarrow> json" where
  "encPeer x = encTable [(''id'', always (jstr (peID x))), (''dns_name'', always (jstr (peDNSName x))),
     (''host_name'', omitStr (peHostName x)), (''addresses'', omitStrings (peAddresses x)),
     (''lan_addrs'', omitStrings (peLANAddrs x)), (''online'', always (JBool (peOnline x))),
     (''seen'', always (JNum (peSeen x)))]"

definition decPeer :: "peer decoder" where
  "decPeer = decStruct [decInto decString ''id'' peID peID_update,
     decInto decString ''dns_name'' peDNSName peDNSName_update,
     decInto decString ''host_name'' peHostName peHostName_update,
     decInto decStrings ''addresses'' peAddresses peAddresses_update,
     decInto decStrings ''lan_addrs'' peLANAddrs peLANAddrs_update,
     decInto decBool ''online'' peOnline peOnline_update,
     decInto decInt ''seen'' peSeen peSeen_update]"

text \<open>\<^verbatim>\<open>netip.ParseAddrPort\<close>, \<^verbatim>\<open>IsPrivate\<close>, \<^verbatim>\<open>IsLinkLocalUnicast\<close>.\<close>

definition parseAddrPort :: "string \<Rightarrow> addr option" where
  "parseAddrPort s =
     (if CHR '':'' \<notin> set s then None
      else let port = rev (takeWhile (\<lambda>c. c \<noteq> CHR '':'') (rev s));
               ip = take (length s - length port - 1) s;
               v6 = hasPrefix ip ''[''
           in if ip = [] \<or> port = [] \<or> \<not> parseUintOk port 16 then None
              else if v6 \<and> (length ip < 2 \<or> last ip \<noteq> CHR '']'') then None
              else (case ParseAddr (if v6 then butlast (tl ip) else ip) of
                  None \<Rightarrow> None
                | Some a \<Rightarrow> if (v6 \<and> Is4 a) \<or> (\<not> v6 \<and> Is6 a) then None else Some a))"

definition IsPrivate :: "addr \<Rightarrow> bool" where
  "IsPrivate a = (case Unmap a of
       V4 w \<Rightarrow> unat w div 2 ^ 24 = 10 \<or> unat w div 2 ^ 20 = 2753 \<or> unat w div 2 ^ 16 = 49320
     | V6 w _ \<Rightarrow> unat w div 2 ^ 121 = 126
     | NoAddr \<Rightarrow> False)"

definition IsLinkLocalUnicast :: "addr \<Rightarrow> bool" where
  "IsLinkLocalUnicast a = (case Unmap a of
       V4 w \<Rightarrow> unat w div 2 ^ 16 = 43518
     | V6 w _ \<Rightarrow> unat w div 2 ^ 118 = 1018
     | NoAddr \<Rightarrow> False)"

definition addEndpoint :: "string list \<Rightarrow> string \<Rightarrow> string list" where
  "addEndpoint out e =
     (let host = (case parseAddrPort e of None \<Rightarrow> e | Some a \<Rightarrow> addrString a)
      in case ParseAddr host of
           None \<Rightarrow> out
         | Some a \<Rightarrow> if \<not> (IsPrivate a \<or> IsLinkLocalUnicast a) \<or> addrString a \<in> set out then out
                     else out @ [addrString a])"

definition PrivateEndpoints :: "string list \<Rightarrow> string list" where
  "PrivateEndpoints es = sortedStrings (foldl addEndpoint [] es)"

definition SightPeers :: "'t bolt \<Rightarrow> peer list \<Rightarrow> ('t book, unit) prog" where
  "SightPeers B peers =
     (if 10000 < length peers then raise (Error ''too many peers'')
      else bindM bookNow (\<lambda>now. Update B (inTx (
        bindM (bktCreate B peerBucket) (\<lambda>_.
        bindM (clearBucket B peerBucket) (\<lambda>_.
          eachM (\<lambda>p. if peID p = [] then ret () else bktPut B peerBucket (peID p) (Json (encPeer (p\<lparr>peSeen := now\<rparr>))))
            peers))))))"

section \<open>Suggestions\<close>

record suggestion =
  sgScope :: string
  sgAddress :: string
  sgDevice :: string
  sgPeerID :: string
  sgPeerName :: string
  sgStrength :: string
  sgEvidence :: string
  sgAmbiguous :: bool
  sgConflict :: string
  sgRepair :: identityRepair

definition firstLabel :: "string \<Rightarrow> string" where
  "firstLabel dnsName = toLower (hd (splitOn CHR ''.'' (trimSuffix dnsName ''.'')))"

definition peerStrength :: "peer \<Rightarrow> binding \<Rightarrow> string \<times> string" where
  "peerStrength p b =
     (if bAddress b \<in> set (peLANAddrs p)
      then (''endpoint'', ''tailscaled reaches this peer directly at the leased LAN address'')
      else let name = firstLabel (peDNSName p) in
        if name \<noteq> [] \<and> (name = toLower (bClaimedName b) \<or> (bName b \<noteq> bDevice b \<and> name = bName b))
        then (''hostname'', ''only the host name matches; weak, confirm out of band before applying'')
        else ([], []))"

definition suggestPeer :: "(string \<times> string) list \<Rightarrow> binding \<Rightarrow> peer \<Rightarrow> suggestion list" where
  "suggestPeer linked b p = (case peerStrength p b of (strength, evidence) \<Rightarrow>
     if strength = [] then []
     else let dev = deviceID ''tailnet'' (peID p);
              label = firstLabel (peDNSName p);
              name = (if \<not> labelPattern label \<or> label = ''ns'' then dev else label)
          in [\<lparr>sgScope = bScope b, sgAddress = bAddress b, sgDevice = bDevice b, sgPeerID = peID p,
               sgPeerName = peDNSName p, sgStrength = strength, sgEvidence = evidence, sgAmbiguous = False,
               sgConflict = (case map_of linked (peID p) of
                   None \<Rightarrow> [] | Some x \<Rightarrow> if x \<noteq> bDevice b then ''peer is already linked to device '' @ x else []),
               sgRepair = \<lparr>irpScope = bScope b, irpAddress = bAddress b, irpClient = bClient b,
                 irpExpectedDevice = bDevice b, irpDevice = dev, irpName = name, irpNodeID = peID p,
                 irpReason = ''suggested from peer inventory ('' @ strength @ '')'', irpPersist = True,
                 irpForget = False\<rparr>\<rparr>])"

definition suggestBinding :: "config \<Rightarrow> (string \<times> string) list \<Rightarrow> peer list \<Rightarrow> binding \<Rightarrow> suggestion list" where
  "suggestBinding c linked peers b =
     (if bNodeID b \<noteq> [] \<or> hasPrefix (bEvidence b) ''operator repair:'' then []
      else if (case cDevice c (bDevice b) of None \<Rightarrow> False | Some d \<Rightarrow> DeclaresNodes d) then []
      else let mine = concat (map (suggestPeer linked b) peers)
           in map (\<lambda>x. x\<lparr>sgAmbiguous := 1 < length mine\<rparr>) mine)"

definition suggestTx :: "'t bolt \<Rightarrow> int \<Rightarrow> 't \<Rightarrow> (peer list \<times> binding list) result" where
  "suggestTx B now t =
     bindR (if bktHas B peerBucket t then decodeAll decPeer zeroPeer (bktEntries B peerBucket t) else Inr []) (\<lambda>ps.
     bindR (forEachLive B (\<lambda>out b. Inr (if bState b = ''active'' \<and> now < bEnd b then out @ [b] else out)) [] t) (\<lambda>bs.
       Inr (ps, bs)))"

definition Suggest :: "'t bolt \<Rightarrow> config \<Rightarrow> ('t book, suggestion list) prog" where
  "Suggest B c = bindM bookNow (\<lambda>now.
     bindM (View B (readTx (suggestTx B now))) (\<lambda>(ps, bs).
       let linked = foldl (\<lambda>m b. if bNodeID b \<noteq> [] then assocPut (bNodeID b) (bDevice b) m else m) [] bs
       in ret (concat (map (suggestBinding c linked (sort_key peID ps))
            (sort_key (\<lambda>b. bScope b @ bAddress b) bs)))))"

end
