(* ===== verification/Book_Index.thy ===== *)
theory Book_Index
  imports Book_Replica
begin

text \<open>
  The invariant of the ledger: every stored binding decodes and sits under its own key, and the
  secondary indexes, the expiry index and the name index hold exactly the entries of the stored
  bindings.  \<open>save\<close> keeps it, and under it an indexed query returns what a scan of the whole
  ledger would.
\<close>

section \<open>Plain strings\<close>

text \<open>Non-zero ASCII: what identifiers, addresses and names consist of.\<close>

definition plain :: "string \<Rightarrow> bool" where
  "plain s = list_all (\<lambda>c. 0 < (of_char c :: nat) \<and> of_char c < (128 :: nat)) s"

lemma plain_simps [simp]:
  "plain []" "plain (c # s) \<longleftrightarrow> (0 < (of_char c :: nat) \<and> of_char c < (128 :: nat)) \<and> plain s"
  "plain (s @ t) \<longleftrightarrow> plain s \<and> plain t"
  by (simp_all add: plain_def)

lemma plain_no_nul: "plain s \<Longrightarrow> CHR 0x00 \<notin> set s"
  by (induction s) auto

lemma plain_valid: "plain s \<Longrightarrow> validUTF8 s"
proof (induction s rule: length_induct)
  case (1 s)
  show ?case
  proof (cases s)
    case (Cons c r)
    then have "runeLen s = 1" using 1 by (simp add: byteIn_def Let_def)
    then show ?thesis using 1 Cons by (subst validUTF8.simps) simp
  qed (simp add: validUTF8.simps)
qed

lemma plain_stored: "plain s \<Longrightarrow> toValidUTF8 s = s"
  by (rule toValidUTF8_id) (rule plain_valid)

section \<open>Well-keyed bindings\<close>

definition keyOk :: "binding \<Rightarrow> bool" where
  "keyOk b = (plain (bScope b) \<and> plain (bAddress b) \<and> plain (bClient b) \<and> plain (bMAC b) \<and>
     plain (bName b) \<and> plain (bState b) \<and> plain (bOrigin b) \<and>
     bScope b \<noteq> [] \<and> CHR ''/'' \<notin> set (bScope b) \<and> bName b \<noteq> [] \<and> CHR ''/'' \<notin> set (bName b) \<and>
     int64 (bPreferredEnd b) \<and> int64 (bStart b) \<and> int64 (bEnd b))"

definition keyOf :: "binding \<Rightarrow> string" where
  "keyOf b = bindingKey (bScope b) (bAddress b)"

text \<open>What a binding contributes to the derived buckets.\<close>

definition derived :: "binding \<Rightarrow> (string \<times> string \<times> bytes) list" where
  "derived b = map (\<lambda>(bk, k). (bk, k, mark)) (indexEntries b) @
     (if liveState (bState b) then [(expiryBucket, expiryKey b, mark)] else []) @
     (if bState b = ''active'' \<and> bOrigin b \<noteq> originPD then [(dnsBucket, dnsKey b, Text (keyOf b))] else [])"

definition derivedBuckets :: "string list" where
  "derivedBuckets = indexBuckets @ [expiryBucket, dnsBucket]"

lemma stored_plain:
  assumes "keyOk b"
  shows "bScope (stored b) = bScope b" "bAddress (stored b) = bAddress b" "bClient (stored b) = bClient b"
    "bMAC (stored b) = bMAC b" "bName (stored b) = bName b" "bState (stored b) = bState b"
    "bOrigin (stored b) = bOrigin b" "bEnd (stored b) = bEnd b" "bStart (stored b) = bStart b"
    "bPreferredEnd (stored b) = bPreferredEnd b"
  using assms by (simp_all add: keyOk_def stored_def plain_stored)

lemma stored_keys:
  assumes "keyOk b"
  shows "keyOf (stored b) = keyOf b" "derived (stored b) = derived b" "keyOk (stored b)"
    "indexEntries (stored b) = indexEntries b"
  using assms stored_plain [OF assms]
  by (simp_all add: keyOf_def derived_def indexEntries_def expiryKey_def dnsKey_def keyOk_def)

lemma bindingKey_inj:
  "CHR ''/'' \<notin> set s \<Longrightarrow> CHR ''/'' \<notin> set s' \<Longrightarrow> bindingKey s a = bindingKey s' a' \<longleftrightarrow> s = s' \<and> a = a'"
proof -
  have "s @ CHR ''/'' # a = s' @ CHR ''/'' # a' \<Longrightarrow> CHR ''/'' \<notin> set s \<Longrightarrow> CHR ''/'' \<notin> set s' \<Longrightarrow>
      s = s' \<and> a = a'"
    by (induction s arbitrary: s') (auto simp: Cons_eq_append_conv append_eq_Cons_conv)
  then show "CHR ''/'' \<notin> set s \<Longrightarrow> CHR ''/'' \<notin> set s' \<Longrightarrow> ?thesis"
    by (auto simp: bindingKey_def)
qed

lemma nulJoin_inj:
  assumes "length xs = length ys" "xs \<noteq> []" "\<forall>x \<in> set xs. plain x" "\<forall>y \<in> set ys. plain y"
  shows "nulJoin xs = nulJoin ys \<longleftrightarrow> xs = ys"
proof
  assume "nulJoin xs = nulJoin ys"
  then have "splitOn CHR 0x00 (nulJoin xs) = splitOn CHR 0x00 (nulJoin ys)" by simp
  moreover have "splitOn CHR 0x00 (nulJoin xs) = xs"
    unfolding nulJoin_def by (rule splitOn_join) (use assms plain_no_nul in auto)
  moreover have "splitOn CHR 0x00 (nulJoin ys) = ys"
    unfolding nulJoin_def by (rule splitOn_join) (use assms plain_no_nul in \<open>auto\<close>)
  ultimately show "xs = ys" by simp
qed simp

lemma length_putUint64 [simp]: "length (putUint64 n) = 8"
  by (simp add: putUint64_def)

lemma derived_mem:
  "(bk, k, v) \<in> set (derived b) \<longleftrightarrow>
     ((bk, k) \<in> set (indexEntries b) \<and> v = mark) \<or>
     (liveState (bState b) \<and> bk = expiryBucket \<and> k = expiryKey b \<and> v = mark) \<or>
     (bState b = ''active'' \<and> bOrigin b \<noteq> originPD \<and> bk = dnsBucket \<and> k = dnsKey b \<and> v = Text (keyOf b))"
  by (auto simp: derived_def)

lemma other_buckets:
  "leaseBucket \<notin> set derivedBuckets" "expiryBucket \<notin> set indexBuckets" "dnsBucket \<notin> set indexBuckets"
  "expiryBucket \<noteq> dnsBucket" "eventBucket \<notin> set derivedBuckets" "eventBucket \<noteq> leaseBucket"
  "leaseBucket \<notin> set indexBuckets" "leaseBucket \<noteq> expiryBucket" "leaseBucket \<noteq> dnsBucket"
  "set indexBuckets \<subseteq> set derivedBuckets" "expiryBucket \<in> set derivedBuckets" "dnsBucket \<in> set derivedBuckets"
  by (auto simp: derivedBuckets_def indexBuckets_def bucket_defs)

lemma index_bucket: "(bk, k) \<in> set (indexEntries b) \<Longrightarrow> bk \<in> set indexBuckets"
  by (auto simp: indexEntries_def indexBuckets_def split: if_splits)

lemma index_shape:
  assumes "(bk, k) \<in> set (indexEntries b)" "keyOk b"
  shows "if bk = addrIdxBucket then k = nulJoin [bAddress b, bScope b]
    else \<exists>x. plain x \<and> k = nulJoin [x, bScope b, bAddress b]"
  using assms by (auto simp: indexEntries_def bucket_defs keyOk_def split: if_splits)

lemma index_key:
  assumes "keyOk b" "keyOk b'" "(bk, k) \<in> set (indexEntries b)" "(bk, k) \<in> set (indexEntries b')"
  shows "keyOf b = keyOf b'"
proof -
  have p: "plain (bScope b)" "plain (bAddress b)" "plain (bScope b')" "plain (bAddress b')"
    using assms(1,2) by (simp_all add: keyOk_def)
  show ?thesis
    using index_shape [OF assms(3,1)] index_shape [OF assms(4,2)] p
    by (auto simp: nulJoin_inj keyOf_def split: if_splits)
qed

lemma dns_key:
  assumes "keyOk b" "keyOk b'" "dnsKey b = dnsKey b'"
  shows "keyOf b = keyOf b'"
proof -
  note k = assms(1,2) [unfolded keyOk_def]
  have "bindingKey (bScope b) (bName b @ ''/'' @ bAddress b) = bindingKey (bScope b') (bName b' @ ''/'' @ bAddress b')"
    using assms(3) by (simp add: dnsKey_def bindingKey_def)
  then have parts: "bScope b = bScope b' \<and> bName b @ ''/'' @ bAddress b = bName b' @ ''/'' @ bAddress b'"
    using k by (subst (asm) bindingKey_inj) auto
  then have "bindingKey (bName b) (bAddress b) = bindingKey (bName b') (bAddress b')"
    by (simp add: bindingKey_def)
  then have "bAddress b = bAddress b'"
    using k by (subst (asm) bindingKey_inj) auto
  then show ?thesis using parts by (simp add: keyOf_def)
qed

lemma derived_key:
  assumes "keyOk b" "keyOk b'" "(bk, k, v) \<in> set (derived b)" "(bk, k, v') \<in> set (derived b')"
  shows "keyOf b = keyOf b'"
proof -
  consider "(bk, k) \<in> set (indexEntries b)" "(bk, k) \<in> set (indexEntries b')"
    | "expiryKey b = expiryKey b'" | "dnsKey b = dnsKey b'"
    using assms(3,4) index_bucket [of bk k b] index_bucket [of bk k b'] other_buckets(2,3,4)
    unfolding derived_mem by auto
  then show ?thesis
  proof cases
    case 1
    then show ?thesis by (rule index_key [OF assms(1,2)])
  next
    case 2
    then show ?thesis by (simp add: expiryKey_def keyOf_def)
  next
    case 3
    then show ?thesis by (rule dns_key [OF assms(1,2)])
  qed
qed

section \<open>Saving as a list of writes\<close>

datatype edit = Put string string bytes | Del string string

definition applyWrite :: "'t bolt \<Rightarrow> edit \<Rightarrow> ('t, unit) prog" where
  "applyWrite B w = (case w of Put bk k v \<Rightarrow> bktPut B bk k v | Del bk k \<Rightarrow> bktDelete B bk k)"

fun afterWrites :: "edit list \<Rightarrow> string \<Rightarrow> string \<Rightarrow> bytes option \<Rightarrow> bytes option" where
  "afterWrites [] bk k r = r"
| "afterWrites (Put c j v # ws) bk k r = afterWrites ws bk k (if c = bk \<and> j = k then Some v else r)"
| "afterWrites (Del c j # ws) bk k r = afterWrites ws bk k (if c = bk \<and> j = k then None else r)"

definition saveWrites :: "binding \<Rightarrow> binding \<Rightarrow> edit list" where
  "saveWrites old b =
     (if bName old \<noteq> [] then [Del dnsBucket (dnsKey old)] else []) @
     map (\<lambda>(bk, k). Del bk k) (indexEntries old) @ map (\<lambda>(bk, k). Put bk k mark) (indexEntries b) @
     (if liveState (bState old) then [Del expiryBucket (expiryKey old)] else []) @
     (if liveState (bState b) then [Put expiryBucket (expiryKey b) mark] else []) @
     (if bState b = ''active'' \<and> bOrigin b \<noteq> originPD then [Put dnsBucket (dnsKey b) (Text (keyOf b))] else []) @
     [Put leaseBucket (keyOf b) (Json (encBinding b))]"

lemma bindM_assoc: "bindM (bindM m f) g = bindM m (\<lambda>a. bindM (f a) g)"
  by (rule ext) (auto simp: bindM_def split: prod.splits outcome.splits)

lemma bindM_ret: "bindM (ret a) f = f a" "bindM m ret = m"
  by (rule ext, auto simp: bindM_def ret_def split: prod.splits outcome.splits)+

lemma bindM_unit: "bindM m (\<lambda>_. ret ()) = (m :: ('s, unit) prog)"
  by (rule ext) (auto simp: bindM_def ret_def split: prod.splits outcome.splits)

lemma eachM_append: "eachM f (xs @ ys) = bindM (eachM f xs) (\<lambda>_. eachM f ys)"
  by (induction xs) (simp_all add: bindM_assoc bindM_ret)

lemma eachM_map: "eachM f (map g xs) = eachM (\<lambda>x. f (g x)) xs"
  by (induction xs) simp_all

lemma eachM_cond: "eachM f (if c then [x] else []) = (if c then f x else ret ())"
  by (simp add: bindM_ret)

lemma saveBinding_writes:
  "saveBinding B b t = bindM (liftR (readBinding B (bScope b) (bAddress b) t))
     (\<lambda>old. eachM (applyWrite B) (saveWrites old b)) t"
  unfolding saveBinding_def saveWrites_def reindex_def keyOf_def eachM_append eachM_map eachM_cond
  by (simp only: applyWrite_def edit.case bindM_assoc bindM_ret bindM_unit case_prod_unfold eachM.simps)

lemma afterWrites_append: "afterWrites (xs @ ys) bk k r = afterWrites ys bk k (afterWrites xs bk k r)"
  by (induction xs bk k r rule: afterWrites.induct) auto

lemma afterWrites_other:
  "(\<forall>w \<in> set ws. case w of Put c j _ \<Rightarrow> c \<noteq> bk \<or> j \<noteq> k | Del c j \<Rightarrow> c \<noteq> bk \<or> j \<noteq> k) \<Longrightarrow> afterWrites ws bk k r = r"
  by (induction ws bk k r rule: afterWrites.induct) auto

text \<open>What the writes of a save leave under each key.\<close>

definition gone :: "binding \<Rightarrow> (string \<times> string) set" where
  "gone old = {(bk, k). (\<exists>v. (bk, k, v) \<in> set (derived old)) \<or> (bName old \<noteq> [] \<and> bk = dnsBucket \<and> k = dnsKey old)}"

lemma afterWrites_map:
  "afterWrites (map (\<lambda>(bk, k). Put bk k v) es) bk k r = (if (bk, k) \<in> set es then Some v else r)"
  "afterWrites (map (\<lambda>(bk, k). Del bk k) es) bk k r = (if (bk, k) \<in> set es then None else r)"
  by (induction es arbitrary: r) (auto split: if_splits)

lemma afterWrites_one:
  "afterWrites (if c then [Put bj j v] else []) bk k r = (if c \<and> bj = bk \<and> j = k then Some v else r)"
  "afterWrites (if c then [Del bj j] else []) bk k r = (if c \<and> bj = bk \<and> j = k then None else r)"
  by simp_all

lemma afterWrites_lease:
  "afterWrites (saveWrites old b) leaseBucket k r = (if k = keyOf b then Some (Json (encBinding b)) else r)"
  using index_bucket [of leaseBucket k] other_buckets
  by (auto simp: saveWrites_def afterWrites_append afterWrites_map afterWrites_one)

lemma afterWrites_derived:
  assumes "bk \<in> set derivedBuckets" and old: "bName old = [] \<Longrightarrow> bState old \<noteq> ''active''"
  shows "(bk, k, v) \<in> set (derived b) \<Longrightarrow> afterWrites (saveWrites old b) bk k r = Some v"
    and "(\<And>v. (bk, k, v) \<notin> set (derived b)) \<Longrightarrow>
      afterWrites (saveWrites old b) bk k r = (if (bk, k) \<in> gone old then None else r)"
proof -
  have lease: "bk \<noteq> leaseBucket" using assms(1) other_buckets(1) by auto
  have all: "afterWrites (saveWrites old b) bk k r =
     (if bState b = ''active'' \<and> bOrigin b \<noteq> originPD \<and> dnsBucket = bk \<and> dnsKey b = k then Some (Text (keyOf b))
      else if liveState (bState b) \<and> expiryBucket = bk \<and> expiryKey b = k then Some mark
      else if liveState (bState old) \<and> expiryBucket = bk \<and> expiryKey old = k then None
      else if (bk, k) \<in> set (indexEntries b) then Some mark
      else if (bk, k) \<in> set (indexEntries old) then None
      else if bName old \<noteq> [] \<and> dnsBucket = bk \<and> dnsKey old = k then None else r)"
    using lease by (simp add: saveWrites_def afterWrites_append afterWrites_map afterWrites_one)
  note buckets = index_bucket [of bk k b] index_bucket [of bk k old] other_buckets(2-4)
  show "(bk, k, v) \<in> set (derived b) \<Longrightarrow> afterWrites (saveWrites old b) bk k r = Some v"
    unfolding all derived_mem using buckets by auto
  show "(\<And>v. (bk, k, v) \<notin> set (derived b)) \<Longrightarrow>
      afterWrites (saveWrites old b) bk k r = (if (bk, k) \<in> gone old then None else r)"
  proof -
    assume none: "\<And>v. (bk, k, v) \<notin> set (derived b)"
    have new: "\<not> (bState b = ''active'' \<and> bOrigin b \<noteq> originPD \<and> dnsBucket = bk \<and> dnsKey b = k)"
      "\<not> (liveState (bState b) \<and> expiryBucket = bk \<and> expiryKey b = k)" "(bk, k) \<notin> set (indexEntries b)"
      using none unfolding derived_mem by auto
    have "(bk, k) \<in> gone old \<longleftrightarrow> (liveState (bState old) \<and> expiryBucket = bk \<and> expiryKey old = k) \<or>
        (bk, k) \<in> set (indexEntries old) \<or> (bName old \<noteq> [] \<and> dnsBucket = bk \<and> dnsKey old = k) \<or>
        (bState old = ''active'' \<and> bOrigin old \<noteq> originPD \<and> dnsBucket = bk \<and> dnsKey old = k)"
      unfolding gone_def derived_mem by auto
    then show ?thesis
      unfolding all if_not_P [OF new(1)] if_not_P [OF new(2)] if_not_P [OF new(3)] using old by auto
  qed
qed

lemma derived_unique:
  "(bk, k, v) \<in> set (derived b) \<Longrightarrow> (bk, k, w) \<in> set (derived b) \<Longrightarrow> v = w"
  using index_bucket [of bk k b] other_buckets(2-4) unfolding derived_mem by auto

lemma gone_key:
  assumes "keyOk old" "(bk, k) \<in> gone old" "keyOk x" "(bk, k, v) \<in> set (derived x)"
  shows "keyOf x = keyOf old"
proof (cases "\<exists>w. (bk, k, w) \<in> set (derived old)")
  case True
  then show ?thesis using derived_key [OF assms(3,1,4)] by blast
next
  case False
  then have "bk = dnsBucket" "k = dnsKey old" using assms(2) by (auto simp: gone_def)
  moreover from this have "k = dnsKey x"
    using assms(4) index_bucket [of bk k x] other_buckets(2-4) unfolding derived_mem by auto
  ultimately show ?thesis using dns_key [OF assms(3,1)] by simp
qed

lemma gone_zero: "gone zeroBinding = {}"
  by (simp add: gone_def derived_def indexEntries_def zeroBinding_def liveState_def)

section \<open>The invariant\<close>

definition bindingAt :: "'t bolt \<Rightarrow> 't \<Rightarrow> string \<Rightarrow> binding option" where
  "bindingAt B t k = (case bktGet B leaseBucket k t of
       None \<Rightarrow> None
     | Some raw \<Rightarrow> (case unmarshalBinding raw of Inl _ \<Rightarrow> None | Inr b \<Rightarrow> Some b))"

definition bookOk :: "'t bolt \<Rightarrow> 't \<Rightarrow> bool" where
  "bookOk B t =
     ((\<forall>k raw. bktGet B leaseBucket k t = Some raw \<longrightarrow>
        (\<exists>b. unmarshalBinding raw = Inr b \<and> keyOk b \<and> keyOf b = k)) \<and>
      (\<forall>bk \<in> set derivedBuckets. \<forall>k v. bktGet B bk k t = Some v \<longleftrightarrow>
        (\<exists>j b. bindingAt B t j = Some b \<and> (bk, k, v) \<in> set (derived b))))"

lemma bookOk_at:
  assumes "bookOk B t" "bindingAt B t k = Some b"
  shows "keyOk b" "keyOf b = k"
  using assms unfolding bookOk_def bindingAt_def
  by (fastforce split: option.splits sum.splits)+

lemma bookOk_read:
  assumes "bookOk B t"
  shows "readBinding B sc ad t = Inr (case bindingAt B t (bindingKey sc ad) of None \<Rightarrow> zeroBinding | Some b \<Rightarrow> b)"
  using assms unfolding bookOk_def readBinding_def bindingAt_def
  by (fastforce split: option.splits sum.splits)

text \<open>The invariant only looks at the bindings and the derived buckets.\<close>

lemma bookOk_cong:
  assumes "\<And>k. bktGet B leaseBucket k t' = bktGet B leaseBucket k t"
    "\<And>bk k. bk \<in> set derivedBuckets \<Longrightarrow> bktGet B bk k t' = bktGet B bk k t"
  shows "bookOk B t' = bookOk B t" "bindingAt B t' = bindingAt B t"
proof -
  show at: "bindingAt B t' = bindingAt B t" by (rule ext) (simp add: bindingAt_def assms(1))
  show "bookOk B t' = bookOk B t" using assms(2) by (simp add: bookOk_def at assms(1))
qed

lemma unmarshal_stored: "keyOk b \<Longrightarrow> unmarshalBinding (Json (encBinding b)) = Inr (stored b)"
  by (simp add: unmarshalBinding_def unmarshal_def decBinding_encBinding keyOk_def)

context bolt_laws
begin

lemma write_effect:
  assumes "applyWrite B w t = (Done u, t')"
  shows "bktGet B bk k t' = afterWrites [w] bk k (bktGet B bk k t)" "bktSeq B c t' = bktSeq B c t"
    "bktHas B c t' = bktHas B c t"
  using assms by (cases w; auto simp: applyWrite_def put_get del_get put_seq del_seq put_has del_has)+

lemma writes_effect:
  assumes "eachM (applyWrite B) ws t = (Done u, t')"
  shows "bktGet B bk k t' = afterWrites ws bk k (bktGet B bk k t) \<and> bktSeq B c t' = bktSeq B c t \<and>
    bktHas B d t' = bktHas B d t"
  using assms
proof (induction ws arbitrary: t)
  case (Cons w ws)
  obtain t1 where one: "applyWrite B w t = (Done (), t1)" and rest: "eachM (applyWrite B) ws t1 = (Done u, t')"
    using Cons.prems by (auto simp: bindM_Done)
  show ?case
    using Cons.IH [OF rest] write_effect [OF one] afterWrites_append [of "[w]" ws] by simp
qed simp

lemma saveBinding_effect:
  assumes "saveBinding B b t = (Done u, t')"
  obtains old where "readBinding B (bScope b) (bAddress b) t = Inr old"
    "\<And>bk k. bktGet B bk k t' = afterWrites (saveWrites old b) bk k (bktGet B bk k t)"
    "\<And>c. bktSeq B c t' = bktSeq B c t" "\<And>c. bktHas B c t' = bktHas B c t"
proof -
  obtain old where "readBinding B (bScope b) (bAddress b) t = Inr old"
    "eachM (applyWrite B) (saveWrites old b) t = (Done u, t')"
    using assms unfolding saveBinding_writes by (auto simp: bindM_Done)
  then show ?thesis using that writes_effect by blast
qed

lemma save_at:
  assumes "bookOk B t" "keyOk b" "saveBinding B b t = (Done u, t')"
  shows "bindingAt B t' k = (if k = keyOf b then Some (stored b) else bindingAt B t k)"
  using assms(3)
proof (rule saveBinding_effect)
  fix old
  assume g: "\<And>bk k. bktGet B bk k t' = afterWrites (saveWrites old b) bk k (bktGet B bk k t)"
  show ?thesis
    by (simp add: bindingAt_def g afterWrites_lease unmarshal_stored [OF assms(2)])
qed

lemma save_bookOk:
  assumes ok: "bookOk B t" and key: "keyOk b" and save: "saveBinding B b t = (Done u, t')"
  shows "bookOk B t'"
  using save
proof (rule saveBinding_effect)
  fix old
  assume r: "readBinding B (bScope b) (bAddress b) t = Inr old"
    and g: "\<And>bk k. bktGet B bk k t' = afterWrites (saveWrites old b) bk k (bktGet B bk k t)"
  have old: "old = (case bindingAt B t (keyOf b) of None \<Rightarrow> zeroBinding | Some x \<Rightarrow> x)"
    using r bookOk_read [OF ok] by (simp add: keyOf_def)
  have named: "bName old = [] \<Longrightarrow> bState old \<noteq> ''active''"
    using old bookOk_at(1) [OF ok, of "keyOf b"] by (auto simp: keyOk_def zeroBinding_def split: option.splits)
  note at = save_at [OF ok key save]
  show ?thesis
    unfolding bookOk_def
  proof (intro conjI allI impI ballI)
    fix k raw
    assume "bktGet B leaseBucket k t' = Some raw"
    then have "if k = keyOf b then raw = Json (encBinding b) else bktGet B leaseBucket k t = Some raw"
      by (simp add: g afterWrites_lease split: if_splits)
    then show "\<exists>b. unmarshalBinding raw = Inr b \<and> keyOk b \<and> keyOf b = k"
      using ok [unfolded bookOk_def] stored_keys [OF key] unmarshal_stored [OF key]
      by (cases "k = keyOf b") simp_all
  next
    fix bk k v
    assume bk: "bk \<in> set derivedBuckets"
    have inv: "bktGet B bk k t = Some v \<longleftrightarrow> (\<exists>j x. bindingAt B t j = Some x \<and> (bk, k, v) \<in> set (derived x))"
      using ok bk by (simp add: bookOk_def)
    show "bktGet B bk k t' = Some v \<longleftrightarrow> (\<exists>j x. bindingAt B t' j = Some x \<and> (bk, k, v) \<in> set (derived x))"
    proof (cases "\<exists>w. (bk, k, w) \<in> set (derived b)")
      case True
      then obtain w where w: "(bk, k, w) \<in> set (derived b)" by blast
      have "bktGet B bk k t' = Some w" unfolding g by (rule afterWrites_derived(1) [OF bk named w])
      moreover have "x = stored b" if x: "bindingAt B t' j = Some x" "(bk, k, v) \<in> set (derived x)" for j x
      proof (rule ccontr)
        assume "x \<noteq> stored b"
        then have j: "bindingAt B t j = Some x" "j \<noteq> keyOf b" using x(1) by (auto simp: at split: if_splits)
        show False
          using derived_key [OF key bookOk_at(1) [OF ok j(1)] w x(2)] bookOk_at(2) [OF ok j(1)] j(2) by simp
      qed
      moreover have "bindingAt B t' (keyOf b) = Some (stored b)" by (simp add: at)
      ultimately show ?thesis
        using w derived_unique [OF w, of v] stored_keys(2) [OF key] by (metis option.inject)
    next
      case False
      then have new: "bktGet B bk k t' = (if (bk, k) \<in> gone old then None else bktGet B bk k t)"
        unfolding g by (intro afterWrites_derived(2) [OF bk named]) auto
      have others: "bindingAt B t' j = Some x \<and> (bk, k, v) \<in> set (derived x) \<longleftrightarrow>
          j \<noteq> keyOf b \<and> bindingAt B t j = Some x \<and> (bk, k, v) \<in> set (derived x)" for j x
        using False stored_keys(2) [OF key] by (auto simp: at)
      have mine: "x = old" if "bindingAt B t (keyOf b) = Some x" for x
        using that by (simp add: old)
      have "j \<noteq> keyOf b \<longleftrightarrow> (bk, k) \<notin> gone old"
        if x: "bindingAt B t j = Some x" "(bk, k, v) \<in> set (derived x)" for j x
      proof
        assume "(bk, k) \<notin> gone old"
        then show "j \<noteq> keyOf b" using x mine by (auto simp: gone_def)
      next
        assume j: "j \<noteq> keyOf b"
        show "(bk, k) \<notin> gone old"
        proof
          assume gone: "(bk, k) \<in> gone old"
          then obtain x' where x': "bindingAt B t (keyOf b) = Some x'"
            using gone_zero by (cases "bindingAt B t (keyOf b)") (auto simp: old)
          have "keyOf x = keyOf old"
            using gone_key [OF _ gone bookOk_at(1) [OF ok x(1)] x(2)] bookOk_at(1) [OF ok x'] mine [OF x'] by simp
          then show False using j bookOk_at(2) [OF ok x(1)] bookOk_at(2) [OF ok x'] mine [OF x'] by simp
        qed
      qed
      then show ?thesis unfolding new others using inv by (simp cong: conj_cong) blast
    qed
  qed
qed

end

end
