(* ===== verification/Book_Queries.thy ===== *)
theory Book_Queries
  imports Book_Index
begin

text \<open>
  What the queries of the ledger return under its invariant, and what \<open>save\<close> does to a book.
\<close>

section \<open>Programs on a book\<close>

lemma inTx_Done: "inTx m s = (Done a, s') \<longleftrightarrow> (\<exists>t. m (db s) = (Done a, t) \<and> s' = s\<lparr>db := t\<rparr>)"
  by (auto simp: inTx_def split: prod.splits)

lemma bookNow_Done: "bookNow s = (Done n, s') \<longleftrightarrow> n = wall s (reads s) \<and> s' = s\<lparr>reads := Suc (reads s)\<rparr>"
  by (auto simp: bookNow_def)

lemma readTx_Done: "readTx f s = (Done a, s') \<longleftrightarrow> f (db s) = Inr a \<and> s' = s"
  by (auto simp: readTx_def)

lemma getS_Done: "getS f s = (Done a, s') \<longleftrightarrow> a = f s \<and> s' = s"
  by (auto simp: getS_def)

lemmas book_run = inTx_Done bookNow_Done readTx_Done getS_Done bindM_Done

text \<open>The buckets a save of bindings does not touch.\<close>

definition asideBucket :: "string \<Rightarrow> bool" where
  "asideBucket bk = (bk \<noteq> leaseBucket \<and> bk \<notin> set derivedBuckets \<and> bk \<noteq> eventBucket)"

lemma afterWrites_aside:
  assumes "bk \<noteq> leaseBucket" "bk \<notin> set derivedBuckets"
  shows "afterWrites (saveWrites old b) bk k r = r"
  by (rule afterWrites_other)
    (use assms index_bucket other_buckets(10-12) in
      \<open>fastforce simp: saveWrites_def split: if_splits\<close>)

definition eventAt :: "'t bolt \<Rightarrow> 't \<Rightarrow> nat \<Rightarrow> bytes option" where
  "eventAt B t i = bktGet B eventBucket (putUint64 i) t"

context bolt_laws
begin

lemma save_effect:
  assumes ok: "bookOk B (db s)" and key: "keyOk b" and save: "save B b kind s = (Done u, s')"
  shows "bookOk B (db s')"
    "bindingAt B (db s') = (bindingAt B (db s))(keyOf b := Some (stored b))"
    "\<And>bk k. asideBucket bk \<Longrightarrow> bktGet B bk k (db s') = bktGet B bk k (db s)"
    "bktSeq B eventBucket (db s') = Suc (bktSeq B eventBucket (db s))"
    "\<And>k. bktGet B eventBucket k (db s') =
       (if k = putUint64 (Suc (bktSeq B eventBucket (db s)))
        then Some (Json (encEvent ((bindingEvent (wall s (reads s)) kind b)\<lparr>evID := Suc (bktSeq B eventBucket (db s))\<rparr>)))
        else bktGet B eventBucket k (db s))"
    "wall s' = wall s" "reads s' = Suc (reads s)" "\<And>bk. bktHas B bk (db s') = bktHas B bk (db s)"
proof -
  obtain t1 t2 t3 i where one: "saveBinding B b (db s) = (Done (), t1)"
    and two: "bktNext B eventBucket t1 = (Done i, t2)"
    and three: "bktPut B eventBucket (putUint64 i)
      (Json (encEvent ((bindingEvent (wall s (reads s)) kind b)\<lparr>evID := i\<rparr>))) t2 = (Done (), t3)"
    and s': "s' = s\<lparr>db := t3, reads := Suc (reads s)\<rparr>"
    using save by (auto simp: save_def book_run)
  obtain old where g: "\<And>bk k. bktGet B bk k t1 = afterWrites (saveWrites old b) bk k (bktGet B bk k (db s))"
    and q: "\<And>c. bktSeq B c t1 = bktSeq B c (db s)" "\<And>c. bktHas B c t1 = bktHas B c (db s)"
    using saveBinding_effect [OF one] by metis
  have i: "i = Suc (bktSeq B eventBucket (db s))" using next_val [OF two] q by simp
  have rest: "bktGet B bk k t3 = bktGet B bk k t1" if "bk \<noteq> eventBucket" for bk k
    using put_get [OF three] next_get [OF two] that by simp
  have kept: "bktGet B leaseBucket k t3 = bktGet B leaseBucket k t1"
    "bk \<in> set derivedBuckets \<Longrightarrow> bktGet B bk k t3 = bktGet B bk k t1" for bk k
    using rest [of leaseBucket k] rest [of bk k] other_buckets(5,6) by auto
  note frame = bookOk_cong [of B t3 t1, OF kept]
  show "bookOk B (db s')" using save_bookOk [OF ok key one] by (simp add: s' frame)
  show "bindingAt B (db s') = (bindingAt B (db s))(keyOf b := Some (stored b))"
    using save_at [OF ok key one] by (auto simp: s' frame fun_eq_iff)
  show "bktGet B bk k (db s') = bktGet B bk k (db s)" if "asideBucket bk" for bk k
    using that rest [of bk k] by (simp add: s' asideBucket_def g afterWrites_aside)
  show "bktSeq B eventBucket (db s') = Suc (bktSeq B eventBucket (db s))"
    using put_seq [OF three] next_seq [OF two] q by (simp add: s')
  show "bktGet B eventBucket k (db s') =
       (if k = putUint64 (Suc (bktSeq B eventBucket (db s)))
        then Some (Json (encEvent ((bindingEvent (wall s (reads s)) kind b)\<lparr>evID := Suc (bktSeq B eventBucket (db s))\<rparr>)))
        else bktGet B eventBucket k (db s))" for k
    using put_get [OF three] next_get [OF two] other_buckets(5,6)
    by (simp add: s' i g afterWrites_aside)
  show "wall s' = wall s" "reads s' = Suc (reads s)" by (simp_all add: s')
  show "bktHas B bk (db s') = bktHas B bk (db s)" for bk
    using put_has [OF three] next_has [OF two] q by (simp add: s')
qed

end

section \<open>Index queries\<close>

lemma sep_inj:
  "z \<notin> set s \<Longrightarrow> z \<notin> set s' \<Longrightarrow> s @ z # a = s' @ z # a' \<longleftrightarrow> s = s' \<and> a = a'"
proof -
  have "takeWhile ((\<noteq>) z) (s @ z # a) = s" if "z \<notin> set s" for s a
    using that by (induction s) auto
  then show "z \<notin> set s \<Longrightarrow> z \<notin> set s' \<Longrightarrow> ?thesis" by (metis append_same_eq list.inject same_append_eq)
qed

lemma prefix_two:
  assumes "plain c" "plain s" "plain client" "plain sc"
  shows "hasPrefix (nulJoin [c, s, a]) (idxPrefix [client, sc]) \<longleftrightarrow> c = client \<and> s = sc"
  using assms [THEN plain_no_nul]
  by (auto simp: nulJoin_def idxPrefix_def hasPrefix_iff sep_inj)

lemma prefix_one:
  assumes "plain c" "plain x"
  shows "hasPrefix (nulJoin [c, s, a]) (idxPrefix [x]) \<longleftrightarrow> c = x"
    "hasPrefix (nulJoin [c, a]) (idxPrefix [x]) \<longleftrightarrow> c = x"
  using assms [THEN plain_no_nul]
  by (auto simp: nulJoin_def idxPrefix_def hasPrefix_iff sep_inj)

lemma indexTarget_entry:
  assumes "(bk, k) \<in> set (indexEntries b)" "keyOk b"
  shows "indexTarget bk k = Some (bScope b, bAddress b)"
proof -
  have p: "plain (bScope b)" "plain (bAddress b)" using assms(2) by (simp_all add: keyOk_def)
  have split: "splitOn CHR 0x00 (nulJoin xs) = xs" if "xs \<noteq> []" "\<forall>x \<in> set xs. plain x" for xs
    unfolding nulJoin_def by (rule splitOn_join) (use that plain_no_nul in auto)
  show ?thesis
    using index_shape [OF assms] p split by (auto simp: indexTarget_def split: if_splits)
qed

text \<open>The binding an index key leads to.\<close>

definition indexedBinding :: "'t bolt \<Rightarrow> 't \<Rightarrow> string \<Rightarrow> string \<Rightarrow> binding" where
  "indexedBinding B t bk k = (case indexTarget bk k of
       None \<Rightarrow> zeroBinding
     | Some (sc, ad) \<Rightarrow> (case bindingAt B t (bindingKey sc ad) of None \<Rightarrow> zeroBinding | Some b \<Rightarrow> b))"

lemma foldR_live:
  assumes "\<forall>(k, v) \<in> set kvs. \<exists>b. bindingAt B t (keyOf b) = Some b \<and> bScope b \<noteq> [] \<and> liveState (bState b) \<and>
      indexTarget bk k = Some (bScope b, bAddress b) \<and> b = g k" "bookOk B t"
  shows "foldR (\<lambda>out (k, _). case indexTarget bk k of None \<Rightarrow> Inr out | Some x \<Rightarrow> addLive B t out x) out kvs =
    Inr (out @ map (g \<circ> fst) kvs)"
  using assms(1)
proof (induction kvs arbitrary: out)
  case (Cons kv kvs)
  obtain k v where kv: "kv = (k, v)" by force
  have "bindingAt B t (keyOf (g k)) = Some (g k)" "bScope (g k) \<noteq> []" "liveState (bState (g k))"
    "indexTarget bk k = Some (bScope (g k), bAddress (g k))"
    using Cons.prems by (auto simp: kv)
  then show ?case
    using Cons by (auto simp: kv addLive_def bookOk_read [OF assms(2)] keyOf_def)
qed simp

context bolt_laws
begin

lemma index_get:
  assumes ok: "bookOk B t" and bk: "bk \<in> set indexBuckets"
  shows "bktGet B bk k t = Some v \<longleftrightarrow>
    (\<exists>b. bindingAt B t (keyOf b) = Some b \<and> (bk, k) \<in> set (indexEntries b) \<and> v = mark)"
proof -
  have "bktGet B bk k t = Some v \<longleftrightarrow> (\<exists>j b. bindingAt B t j = Some b \<and> (bk, k, v) \<in> set (derived b))"
    using ok subsetD [OF other_buckets(10) bk] by (simp add: bookOk_def)
  moreover have "(bk, k, v) \<in> set (derived b) \<longleftrightarrow> (bk, k) \<in> set (indexEntries b) \<and> v = mark" for b
    using bk other_buckets(2,3) unfolding derived_mem by auto
  ultimately show ?thesis using bookOk_at(2) [OF ok] by blast
qed

lemma index_binding:
  assumes ok: "bookOk B t" and at: "bindingAt B t (keyOf b) = Some b" and e: "(bk, k) \<in> set (indexEntries b)"
  shows "indexedBinding B t bk k = b" "bScope b \<noteq> []" "liveState (bState b)"
    "indexTarget bk k = Some (bScope b, bAddress b)"
proof -
  note key = bookOk_at(1) [OF ok at]
  show t: "indexTarget bk k = Some (bScope b, bAddress b)" by (rule indexTarget_entry [OF e key])
  show "indexedBinding B t bk k = b" using at by (simp add: indexedBinding_def t keyOf_def)
  show "bScope b \<noteq> []" using key by (simp add: keyOk_def)
  show "liveState (bState b)" using e by (auto simp: indexEntries_def split: if_splits)
qed

lemma live_index:
  assumes ok: "bookOk B t" and bk: "bk \<in> set indexBuckets"
  shows "\<exists>out. liveFromIndex B bk p t = Inr out \<and>
    set out = {b. bindingAt B t (keyOf b) = Some b \<and> (\<exists>k. (bk, k) \<in> set (indexEntries b) \<and> hasPrefix k p)}"
    (is "\<exists>out. _ \<and> set out = ?R")
proof -
  let ?g = "indexedBinding B t bk"
  have entry: "\<exists>b. bindingAt B t (keyOf b) = Some b \<and> (bk, k) \<in> set (indexEntries b) \<and> hasPrefix k p"
    if "(k, v) \<in> set (scanPrefix B bk p t)" for k v
    using that by (auto simp: scan_mem index_get [OF ok bk])
  have "liveFromIndex B bk p t = Inr ([] @ map (?g \<circ> fst) (scanPrefix B bk p t))"
    unfolding liveFromIndex_def
  proof (rule foldR_live [OF _ ok], clarify)
    fix k v
    assume "(k, v) \<in> set (scanPrefix B bk p t)"
    then obtain b where "bindingAt B t (keyOf b) = Some b" "(bk, k) \<in> set (indexEntries b)"
      using entry by blast
    then show "\<exists>b. bindingAt B t (keyOf b) = Some b \<and> bScope b \<noteq> [] \<and> liveState (bState b) \<and>
        indexTarget bk k = Some (bScope b, bAddress b) \<and> b = ?g k"
      using index_binding [OF ok] by blast
  qed
  moreover have "set (map (?g \<circ> fst) (scanPrefix B bk p t)) = ?R"
  proof (intro set_eqI iffI)
    fix b
    assume "b \<in> set (map (?g \<circ> fst) (scanPrefix B bk p t))"
    then obtain k v where kv: "(k, v) \<in> set (scanPrefix B bk p t)" and b: "b = ?g k" by auto
    obtain x where "bindingAt B t (keyOf x) = Some x" "(bk, k) \<in> set (indexEntries x)" "hasPrefix k p"
      using entry [OF kv] by blast
    then show "b \<in> ?R" using index_binding(1) [OF ok] b by auto
  next
    fix b
    assume "b \<in> ?R"
    then obtain k where k: "bindingAt B t (keyOf b) = Some b" "(bk, k) \<in> set (indexEntries b)" "hasPrefix k p"
      by auto
    then have "(k, mark) \<in> set (scanPrefix B bk p t)"
      using index_get [OF ok bk] by (auto simp: scan_mem)
    moreover have "b = ?g k" using index_binding(1) [OF ok k(1,2)] by simp
    ultimately show "b \<in> set (map (?g \<circ> fst) (scanPrefix B bk p t))" by force
  qed
  ultimately show ?thesis by simp
qed

lemma live_client:
  assumes "bookOk B t" "plain sc" "plain client"
  shows "\<exists>out. liveByClient B sc client t = Inr out \<and>
    set out = {b. bindingAt B t (keyOf b) = Some b \<and> liveState (bState b) \<and> bClient b = client \<and> bScope b = sc}"
proof -
  have "(\<exists>k. (clientIdxBucket, k) \<in> set (indexEntries b) \<and> hasPrefix k (idxPrefix [client, sc])) \<longleftrightarrow>
      liveState (bState b) \<and> bClient b = client \<and> bScope b = sc" if "keyOk b" for b
    using that assms(2,3) prefix_two [of "bClient b" "bScope b" client sc]
    by (auto simp: indexEntries_def bucket_defs keyOk_def split: if_splits)
  then have "{b. bindingAt B t (keyOf b) = Some b \<and>
        (\<exists>k. (clientIdxBucket, k) \<in> set (indexEntries b) \<and> hasPrefix k (idxPrefix [client, sc]))} =
      {b. bindingAt B t (keyOf b) = Some b \<and> liveState (bState b) \<and> bClient b = client \<and> bScope b = sc}"
    using bookOk_at(1) [OF assms(1)] by blast
  then show ?thesis
    using live_index [OF assms(1), of clientIdxBucket "idxPrefix [client, sc]"] by (simp add: liveByClient_def indexBuckets_def)
qed

lemma live_address:
  assumes "bookOk B t" "plain ad"
  shows "\<exists>out. liveByAddress B ad t = Inr out \<and>
    set out = {b. bindingAt B t (keyOf b) = Some b \<and> liveState (bState b) \<and> bAddress b = ad}"
proof -
  have "(\<exists>k. (addrIdxBucket, k) \<in> set (indexEntries b) \<and> hasPrefix k (idxPrefix [ad])) \<longleftrightarrow>
      liveState (bState b) \<and> bAddress b = ad" if "keyOk b" for b
    using that assms(2) prefix_one(2) [of "bAddress b" ad "bScope b"]
    by (auto simp: indexEntries_def bucket_defs keyOk_def split: if_splits)
  then have "{b. bindingAt B t (keyOf b) = Some b \<and>
        (\<exists>k. (addrIdxBucket, k) \<in> set (indexEntries b) \<and> hasPrefix k (idxPrefix [ad]))} =
      {b. bindingAt B t (keyOf b) = Some b \<and> liveState (bState b) \<and> bAddress b = ad}"
    using bookOk_at(1) [OF assms(1)] by blast
  then show ?thesis
    using live_index [OF assms(1), of addrIdxBucket "idxPrefix [ad]"] by (simp add: liveByAddress_def indexBuckets_def)
qed

lemma active_name:
  assumes "bookOk B t" "plain name" "name \<noteq> []"
  shows "\<exists>out. activeByName B name t = Inr out \<and>
    set out = {b. bindingAt B t (keyOf b) = Some b \<and> bState b = ''active'' \<and> bName b = name}"
proof -
  have "(\<exists>k. (nameIdxBucket, k) \<in> set (indexEntries b) \<and> hasPrefix k (idxPrefix [name])) \<longleftrightarrow>
      bState b = ''active'' \<and> bName b = name" if "keyOk b" for b
    using that assms(2,3) prefix_one(1) [of "bName b" name "bScope b" "bAddress b"]
    by (auto simp: indexEntries_def bucket_defs keyOk_def liveState_def split: if_splits)
  then have "{b. bindingAt B t (keyOf b) = Some b \<and>
        (\<exists>k. (nameIdxBucket, k) \<in> set (indexEntries b) \<and> hasPrefix k (idxPrefix [name]))} =
      {b. bindingAt B t (keyOf b) = Some b \<and> bState b = ''active'' \<and> bName b = name}"
    using bookOk_at(1) [OF assms(1)] by blast
  moreover obtain out where "liveFromIndex B nameIdxBucket (idxPrefix [name]) t = Inr out"
    "set out = {b. bindingAt B t (keyOf b) = Some b \<and>
        (\<exists>k. (nameIdxBucket, k) \<in> set (indexEntries b) \<and> hasPrefix k (idxPrefix [name]))}"
    using live_index [OF assms(1), of nameIdxBucket "idxPrefix [name]"] by (auto simp: indexBuckets_def)
  ultimately show ?thesis by (auto simp: activeByName_def)
qed

end

end
