(* ===== verification/Book_Plain.thy ===== *)
theory Book_Plain
  imports Book_Queries
begin

text \<open>
  The identifiers of the address book consist of plain characters: printed and parsed addresses,
  hardware addresses, client identifiers, labels and derived device names.
\<close>

text \<open>The characters that occur in addresses.\<close>

definition addrChar :: "char \<Rightarrow> bool" where
  "addrChar c = (hexVal c \<noteq> None \<or> c = CHR '':'' \<or> c = CHR ''.'')"

lemma hexVal_plain: "hexVal c \<noteq> None \<Longrightarrow> 0 < (of_char c :: nat) \<and> of_char c < (128 :: nat)"
  by (auto simp: hexVal_def isDigit_def less_eq_char_def split: if_splits)

lemma addrChar_simps [simp]: "addrChar CHR '':''" "addrChar CHR ''.''" "hexVal c = Some v \<Longrightarrow> addrChar c"
  by (simp_all add: addrChar_def)

lemma addrChar_ascii: "addrChar c \<Longrightarrow> 0 < (of_char c :: nat) \<and> of_char c < (128 :: nat)"
  using hexVal_plain [of c] by (auto simp: addrChar_def)

lemma addrChar_plain: "list_all addrChar s \<Longrightarrow> plain s"
  by (induction s) (auto dest: addrChar_ascii)

lemma isDigit_addrChar: "isDigit c \<Longrightarrow> addrChar c"
  by (simp add: addrChar_def hexVal_def)

subsection \<open>Printing\<close>

lemma natDigits_digits: "list_all isDigit (natDigits n)"
proof (induction n rule: natDigits.induct)
  case (1 n)
  then show ?case by (subst natDigits.simps) (auto simp: digitChar_isDigit)
qed

lemma hexDigit_val: "d < 16 \<Longrightarrow> hexVal (hexDigit d) = Some d"
proof -
  have "\<forall>d \<in> set [0..<16]. hexVal (hexDigit d) = Some d" by code_simp
  then show "d < 16 \<Longrightarrow> ?thesis" by simp
qed

lemma hexDigits_chars: "list_all addrChar (hexDigits n)"
proof (induction n rule: hexDigits.induct)
  case (1 n)
  then show ?case by (subst hexDigits.simps) (auto simp: hexDigit_val)
qed

lemma joinWith_all: "list_all P sep \<Longrightarrow> \<forall>x \<in> set xs. list_all P x \<Longrightarrow> list_all P (joinWith sep xs)"
  by (induction sep xs rule: joinWith.induct) auto

lemma dotted_chars: "list_all addrChar (dotted n)"
  unfolding dotted_def
  by (rule joinWith_all) (use natDigits_digits isDigit_addrChar in \<open>auto simp: list_all_iff\<close>)

lemma hexGroups_chars: "list_all addrChar (hexGroups gs)"
  unfolding hexGroups_def by (rule joinWith_all) (auto simp: hexDigits_chars)

lemma printGroups_chars: "list_all addrChar (printGroups gs)"
  by (auto simp: printGroups_def hexGroups_chars split: prod.splits)

lemma addrString_plain: "addrZone a = [] \<Longrightarrow> plain (addrString a)"
proof (cases a)
  case NoAddr
  then show ?thesis by (simp add: addrString_def)
next
  case (V4 w)
  then show ?thesis by (simp add: addrString_def addrChar_plain dotted_chars)
next
  case (V6 w z)
  moreover assume "addrZone a = []"
  ultimately show ?thesis
    by (auto simp: addrString_def addrZone_def addrChar_plain dotted_chars printGroups_chars)
qed

subsection \<open>Parsing\<close>

lemma splitOn_chars: "\<forall>x \<in> set (splitOn c s). list_all P x \<Longrightarrow> P c \<Longrightarrow> list_all P s"
proof (induction s)
  case (Cons a s)
  obtain y ys where "splitOn c s = y # ys" by (cases "splitOn c s") auto
  then show ?case using Cons by (auto split: if_splits)
qed simp

lemma parseOctet_digits: "parseOctet s = Some n \<Longrightarrow> list_all isDigit s"
  by (simp add: parseOctet_def split: if_splits)

lemma parseIPv4Fields_chars:
  assumes "parseIPv4Fields s = Some n"
  shows "list_all addrChar s"
proof (rule splitOn_chars [where c = "CHR ''.''"])
  have "\<forall>x \<in> set (map parseOctet (splitOn CHR ''.'' s)). x \<noteq> None"
    using assms by (auto simp: parseIPv4Fields_def split: list.splits option.splits)
  then show "\<forall>x \<in> set (splitOn CHR ''.'' s). list_all addrChar x"
    using parseOctet_digits isDigit_addrChar by (fastforce simp: list_all_iff)
qed (simp add: addrChar_def)

lemma hexRun_rest: "hexRun s acc = (n, v, rest) \<Longrightarrow> list_all addrChar rest \<Longrightarrow> list_all addrChar s"
proof (induction s acc arbitrary: n rule: hexRun.induct)
  case (2 c cs acc)
  then show ?case by (cases "hexVal c") (auto split: prod.splits)
qed simp

lemma v6Loop_chars: "v6Loop room gs ell s = Some r \<Longrightarrow> list_all addrChar s"
proof (induction room gs ell s rule: v6Loop.induct)
  case (1 gs ell s)
  then show ?case by (simp split: if_splits)
next
  case (2 room gs ell s)
  obtain n v rest where run: "hexRun s 0 = (n, v, rest)" by (cases "hexRun s 0") auto
  show ?case
  proof (cases rest)
    case Nil
    then show ?thesis using hexRun_rest [OF run] by simp
  next
    case (Cons c t)
    show ?thesis
    proof (cases "c = CHR ''.''")
      case True
      then show ?thesis
        using "2.prems" run Cons parseIPv4Fields_chars by (auto split: if_splits option.splits)
    next
      case False
      have body: "(if c \<noteq> CHR '':'' \<or> t = [] then None
          else if hd t = CHR '':'' then
            (if ell \<noteq> None then None
             else if tl t = [] then Some (gs @ [v], Some (Suc (length gs)))
             else v6Loop room (gs @ [v]) (Some (Suc (length gs))) (tl t))
          else v6Loop room (gs @ [v]) ell t) = Some r" and n: "\<not> (n = 0 \<or> 4 < n)"
        using "2.prems" run Cons False by (auto split: if_splits)
      then have c: "c = CHR '':''" "t \<noteq> []" by (auto split: if_splits)
      have "list_all addrChar t"
      proof (cases "hd t = CHR '':''")
        case True
        then have "list_all addrChar (tl t)"
          using body c "2.IH"(1) [OF run [symmetric] refl n Cons False _ True] by (cases "tl t = []") (auto split: if_splits)
        then show ?thesis using True c(2) by (cases t) auto
      next
        case hd: False
        then show ?thesis using body c "2.IH"(2) [OF run [symmetric] refl n Cons False _ hd] by auto
      qed
      then show ?thesis using hexRun_rest [OF run] Cons c by simp
    qed
  qed
qed

lemma parseIPv6_plain:
  assumes "parseIPv6 s0 = Some a" "addrZone a = []"
  shows "plain s0"
proof -
  define s where "s = takeWhile (\<lambda>c. c \<noteq> CHR ''%'') s0"
  define zone where "zone = drop 1 (drop (length s) s0)"
  define loop where "loop = (if hasPrefix s ''::'' then v6Loop 8 [] (Some 0) (drop 2 s) else v6Loop 8 [] None s)"
  have body: "(if drop (length s) s0 \<noteq> [] \<and> zone = [] then None
      else if s = ''::'' then Some (V6 0 zone)
      else case loop of
        None \<Rightarrow> None
      | Some (gs, ell) \<Rightarrow> (case expandGroups gs ell of
          None \<Rightarrow> None | Some gs \<Rightarrow> Some (V6 (of_nat (ofGroups 0 gs)) zone))) = Some a"
    using assms(1) by (simp only: parseIPv6_def Let_def s_def zone_def loop_def)
  have "zone = []"
    using body assms(2) by (auto simp: addrZone_def split: if_splits option.splits)
  then have "drop (length s) s0 = []" using body by (simp split: if_splits)
  then have "length s0 \<le> length s" by simp
  then have whole: "s0 = s"
    unfolding s_def by (metis append_Nil2 drop_all dropWhile_eq_drop takeWhile_dropWhile_id)
  have "list_all addrChar s"
  proof (cases "s = ''::''")
    case False
    then obtain r where r: "loop = Some r"
      using body by (auto split: if_splits option.splits)
    show ?thesis
    proof (cases "hasPrefix s ''::''")
      case True
      then have "list_all addrChar (drop 2 s)"
        by (intro v6Loop_chars [of 8 "[]" "Some 0" "drop 2 s" r]) (use r in \<open>simp add: loop_def\<close>)
      then show ?thesis using True by (auto simp: hasPrefix_iff)
    next
      case False
      then show ?thesis
        by (intro v6Loop_chars [of 8 "[]" None s r]) (use r in \<open>simp add: loop_def\<close>)
    qed
  qed simp
  then show ?thesis by (simp add: whole addrChar_plain)
qed

lemma ParseAddr_plain:
  assumes "ParseAddr s = Some a" "addrZone a = []"
  shows "plain s"
  using assms parseIPv6_plain parseIPv4Fields_chars
  by (fastforce simp: ParseAddr_def intro: addrChar_plain split: option.splits if_splits)

lemma hostAddr_parse:
  assumes "hostAddr p v"
  obtains a where "ParseAddr v = Some a" "Contains p a" "addrZone a = []"
  using assms by (auto simp: hostAddr_def Contains_def split: option.splits)

lemma hostAddr_plain: "hostAddr p v \<Longrightarrow> plain v"
  using hostAddr_parse ParseAddr_plain by metis

subsection \<open>Identifiers\<close>

lemma isHexLower_plain: "list_all isHexLower s \<Longrightarrow> plain s"
  by (induction s) (auto simp: isHexLower_def isDigit_def less_eq_char_def)

lemma hexVal_bound: "hexVal c = Some x \<Longrightarrow> x < 16"
  by (auto simp: hexVal_def isDigit_def less_eq_char_def split: if_splits)

lemma hexPair_bound: "hexPair s = Some b \<Longrightarrow> b < 256"
  by (auto simp: hexPair_def map_eq_Cons_conv split: list.splits option.splits dest!: hexVal_bound)

lemma macString_plain: "list_all (\<lambda>b. b < 256) bs \<Longrightarrow> plain (macString bs)"
  unfolding macString_def
  by (rule addrChar_plain, rule joinWith_all) (auto simp: list_all_iff hexDigit_val)

lemma allSome_all: "allSome xs = Some ys \<Longrightarrow> (\<And>y. Some y \<in> set xs \<Longrightarrow> P y) \<Longrightarrow> list_all P ys"
  by (induction xs arbitrary: ys rule: allSome.induct) auto

lemma hexQuad_bound: "hexQuad s = Some bs \<Longrightarrow> list_all (\<lambda>b. b < 256) bs"
  by (auto simp: hexQuad_def map_eq_Cons_conv split: list.splits option.splits dest!: hexVal_bound)

lemma ParseMAC_bound: "ParseMAC s = Some bs \<Longrightarrow> list_all (\<lambda>b. b < 256) bs"
proof -
  assume p: "ParseMAC s = Some bs"
  then consider (pairs) c where "allSome (map hexPair (splitOn c s)) = Some bs"
    | (quads) xs where "allSome (map hexQuad (splitOn CHR ''.'' s)) = Some xs" "bs = concat xs"
    by (auto simp: ParseMAC_def Let_def split: option.splits if_splits)
  then show ?thesis
  proof cases
    case pairs
    then show ?thesis by (rule allSome_all) (auto dest!: hexPair_bound [OF sym])
  next
    case quads
    have "list_all (list_all (\<lambda>b. b < 256)) xs"
      by (rule allSome_all [OF quads(1)]) (auto dest!: hexQuad_bound [OF sym])
    then show ?thesis by (auto simp: quads(2) list_all_iff)
  qed
qed

lemma ParseMAC_plain: "ParseMAC s = Some bs \<Longrightarrow> plain (macString bs)"
  by (rule macString_plain) (rule ParseMAC_bound)

lemma splitStr_nonempty: "splitStr k sep acc s \<noteq> []"
  by (induction k sep acc s rule: splitStr.induct) auto

lemma splitStr_join: "splitStr k sep acc s = xs \<Longrightarrow> sep \<noteq> [] \<Longrightarrow> k \<le> length s \<Longrightarrow>
   rev acc @ drop k s = joinWith sep xs"
proof (induction k sep acc s arbitrary: xs rule: splitStr.induct)
  case (3 sep acc x s)
  show ?case
  proof (cases "hasPrefix (x # s) sep")
    case True
    then obtain r where r: "x # s = sep @ r" by (auto simp: hasPrefix_iff)
    obtain ys where ys: "splitStr (length sep - 1) sep [] s = ys" by simp
    have "length sep - 1 \<le> length s" using r "3.prems"(2) by (cases sep) auto
    then have "drop (length sep - 1) s = joinWith sep ys"
      using "3.IH"(1) [OF True ys "3.prems"(2)] by simp
    moreover have "drop (length sep - 1) s = r" using r "3.prems"(2) by (cases sep) auto
    moreover have "ys \<noteq> []" using ys splitStr_nonempty by blast
    moreover have "xs = rev acc # ys" using "3.prems"(1) True ys by simp
    ultimately show ?thesis
      using r by (cases ys) auto
  next
    case False
    then show ?thesis using 3 by simp
  qed
qed auto

lemma validClient_plain:
  assumes "validClient client"
  shows "plain client"
proof -
  consider (duid) d i where "hasPrefix client ''duid:''" "splitSep (trimPrefix client ''duid:'') ''/iaid:'' = [d, i]"
      "hexDecodes d" "hexDecodes i"
    | (mac) m where "ParseMAC (trimPrefix client ''mac:'') = Some m" "client = ''mac:'' @ macString m"
    | (cid) "hasPrefix client ''id:''" "list_all isHexLower (trimPrefix client ''id:'')"
    using assms by (auto simp: validClient_def Let_def split: if_splits list.splits option.splits)
  then show ?thesis
  proof cases
    case duid
    have "trimPrefix client ''duid:'' = joinWith ''/iaid:'' [d, i]"
      using splitStr_join [of 0 "''/iaid:''" "[]" "trimPrefix client ''duid:''" "[d, i]"] duid(2)
      by (simp add: splitSep_def)
    then have "client = ''duid:'' @ d @ ''/iaid:'' @ i"
      using duid(1) by (auto simp: trimPrefix_def hasPrefix_iff)
    moreover have "plain x" if "hexDecodes x" for x
      using that hexVal_plain by (fastforce simp: hexDecodes_def plain_def list_all_iff)
    ultimately show ?thesis using duid(3,4) by simp
  next
    case mac
    then show ?thesis using ParseMAC_plain by simp
  next
    case cid
    then show ?thesis by (auto simp: trimPrefix_def hasPrefix_iff dest: isHexLower_plain)
  qed
qed

lemma labelPattern_plain: "labelPattern s \<Longrightarrow> plain s \<and> CHR ''/'' \<notin> set s \<and> s \<noteq> []"
proof -
  have "isAlnumLower c \<or> c = CHR ''-'' \<Longrightarrow> c \<noteq> CHR ''/'' \<and> 0 < (of_char c :: nat) \<and> of_char c < (128 :: nat)" for c
    by (auto simp: isAlnumLower_def isLowerLetter_def isDigit_def less_eq_char_def)
  then show "labelPattern s \<Longrightarrow> ?thesis"
    by (auto simp: labelPattern_def plain_def list_all_iff)
qed

lemma hexString_chars: "list_all (\<lambda>b. b < 256) bs \<Longrightarrow> list_all addrChar (hexString bs)"
  by (induction bs) (auto simp: hexString_def hexDigit_val)

lemma addrChar_slash: "list_all addrChar s \<Longrightarrow> CHR ''/'' \<notin> set s"
proof -
  have "\<not> addrChar CHR ''/''" by code_simp
  then show "list_all addrChar s \<Longrightarrow> ?thesis" by (auto simp: list_all_iff)
qed

lemma beBytes_bound: "list_all (\<lambda>b. b < 256) (beBytes k n)"
  by (simp add: beBytes_def list_all_iff)

lemma sha256_bound: "list_all (\<lambda>b. b < 256) (sha256 bs)"
  using beBytes_bound by (auto simp: sha256_def Let_def list_all_iff)

lemma deviceID_plain: "plain (deviceID sc client) \<and> CHR ''/'' \<notin> set (deviceID sc client) \<and> deviceID sc client \<noteq> []"
proof -
  have h: "plain (sha256Hex s)" "CHR ''/'' \<notin> set (sha256Hex s)" for s
    using hexString_chars [OF sha256_bound] by (auto simp: sha256Hex_def addrChar_plain dest: addrChar_slash)
  have "plain (take n s)" if "plain s" for n s using that by (auto simp: plain_def list_all_iff dest: in_set_takeD)
  then show ?thesis
    using h by (auto simp: deviceID_def dest: in_set_takeD)
qed

end
