(* ===== verification/Book_Valid.thy ===== *)
theory Book_Valid
  imports Book_Plain
begin

text \<open>
  What a validated configuration guarantees of each scope, as the operations on leases use it.
\<close>

lemma foldR_elem: "foldR f a xs = Inr r \<Longrightarrow> x \<in> set xs \<Longrightarrow> \<exists>a' b. f a' x = Inr b"
  by (induction xs arbitrary: a) (auto simp: bindR_Inr)

definition namedDevices :: "config \<Rightarrow> bool" where
  "namedDevices c = (\<forall>d \<in> set (cDevices c). labelPattern (dID d) \<and> labelPattern (dName d))"

definition poolOk :: "scope \<Rightarrow> prefix \<Rightarrow> bool" where
  "poolOk s p = (\<exists>lo hi. ParseAddr (sStart s) = Some lo \<and> ParseAddr (sEnd s) = Some hi \<and>
     hostAddr p (sStart s) \<and> hostAddr p (sEnd s) \<and> \<not> addrLess hi lo \<and> poolFits 0 lo hi)"

definition delegationOk :: "prefix \<Rightarrow> pdConfig \<Rightarrow> prefix \<Rightarrow> bool" where
  "delegationOk p pd pool = (ParsePrefix (pdPrefix pd) = Some pool \<and> pool = Masked pool \<and> Is6 (pfxAddr pool) \<and>
     int (pfxBits pool) < pdLength pd \<and> 32 \<le> pdLength pd \<and> pdLength pd \<le> 64 \<and>
     pdLength pd - int (pfxBits pool) \<le> 16 \<and> \<not> Overlaps pool p)"

text \<open>The guarantees of one scope of a validated configuration.\<close>

definition scopeOk :: "config \<Rightarrow> scope \<Rightarrow> bool" where
  "scopeOk c s = (labelPattern (sID s) \<and>
     (\<exists>p. ParsePrefix (sSubnet s) = Some p \<and> subnetOk p \<and> poolOk s p \<and>
        (\<forall>r \<in> set (sReservations s). validClient (rClient r) \<and> hostAddr p (rAddress r) \<and>
           rAddress r \<noteq> sServer s \<and> rAddress r \<noteq> sRouter s \<and> rDevice r \<in> dID ` set (cDevices c)) \<and>
        (\<forall>pd. sPD s = Some pd \<longrightarrow> (\<exists>pool. delegationOk p pd pool))) \<and>
     60 \<le> sLeaseSeconds s \<and> sLeaseSeconds s \<le> 604800 \<and>
     0 \<le> sPreferredSeconds s \<and> sPreferredSeconds s \<le> sLeaseSeconds s)"

lemma validateDevice_Inr:
  "validateDevice (ds, ns, nm) d = Inr (ds', ns', nm') \<Longrightarrow>
     ds' = dID d # ds \<and> labelPattern (dID d) \<and> labelPattern (dName d)"
  by (auto simp: validateDevice_def bindR_Inr split: if_splits)

lemma devices_fold:
  "foldR validateDevice (ds, ns, nm) xs = Inr (ds', ns', nm') \<Longrightarrow>
     set ds' = dID ` set xs \<union> set ds \<and> (\<forall>d \<in> set xs. labelPattern (dID d) \<and> labelPattern (dName d))"
proof (induction xs arbitrary: ds ns nm)
  case (Cons d xs)
  obtain a b e where one: "validateDevice (ds, ns, nm) d = Inr (a, b, e)"
    and rest: "foldR validateDevice (a, b, e) xs = Inr (ds', ns', nm')"
    using Cons.prems by (auto simp: bindR_Inr)
  show ?case using Cons.IH [OF rest] validateDevice_Inr [OF one] by auto
qed simp

lemma validatePool_Inr: "validatePool s p = Inr u \<Longrightarrow> poolOk s p"
  by (auto simp: validatePool_def poolOk_def split: if_splits option.splits)

lemma validateTimes_Inr:
  "validateTimes s = Inr u \<Longrightarrow> 60 \<le> sLeaseSeconds s \<and> sLeaseSeconds s \<le> 604800 \<and>
     0 \<le> sPreferredSeconds s \<and> sPreferredSeconds s \<le> sLeaseSeconds s"
  by (auto simp: validateTimes_def bindR_Inr)

lemma validatePD_Inr:
  "validatePD s p others pools = Inr x \<Longrightarrow> sPD s = Some pd \<Longrightarrow> \<exists>pool. delegationOk p pd pool"
  by (auto simp: validatePD_def delegationOk_def split: if_splits option.splits)

lemma addReservation_Inr:
  "addReservation s p devices st r = Inr x \<Longrightarrow> validClient (rClient r) \<and> hostAddr p (rAddress r) \<and>
     rAddress r \<noteq> sServer s \<and> rAddress r \<noteq> sRouter s \<and> rDevice r \<in> set devices"
  by (auto simp: addReservation_def split: prod.splits if_splits)

lemma validateScope_Inr:
  assumes "validateScope devices st s = Inr st'" "set devices = dID ` set (cDevices c)"
  shows "scopeOk c s"
proof -
  obtain p pools cr where parts: "labelPattern (sID s)" "ParsePrefix (sSubnet s) = Some p" "subnetOk p"
    "validatePool s p = Inr ()" "validateTimes s = Inr ()"
    "validatePD s p (seenPrefixes st) (seenPools st) = Inr pools"
    "foldR (addReservation s p devices) ([], []) (sReservations s) = Inr cr"
    using assms(1) by (auto simp: validateScope_def bindR_Inr split: option.splits)
  have "\<forall>r \<in> set (sReservations s). validClient (rClient r) \<and> hostAddr p (rAddress r) \<and>
      rAddress r \<noteq> sServer s \<and> rAddress r \<noteq> sRouter s \<and> rDevice r \<in> dID ` set (cDevices c)"
    using foldR_elem [OF parts(7)] addReservation_Inr assms(2) by metis
  then show ?thesis
    using parts(1-3) validatePool_Inr [OF parts(4)] validateTimes_Inr [OF parts(5)] validatePD_Inr [OF parts(6)]
    by (auto simp: scopeOk_def)
qed

lemma Validate_facts:
  assumes "Validate c = Inr ()"
  shows "s \<in> set (cScopes c) \<Longrightarrow> scopeOk c s" "namedDevices c"
proof -
  obtain ds ns nm r where devs: "foldR validateDevice ([], [], []) (cDevices c) = Inr (ds, ns, nm)"
    and scopes: "foldR (validateScope ds) noScopes (cScopes c) = Inr r"
    using assms by (auto simp: Validate_def bindR_Inr split: prod.splits)
  show "s \<in> set (cScopes c) \<Longrightarrow> scopeOk c s"
    using foldR_elem [OF scopes] validateScope_Inr devices_fold [OF devs] by fastforce
  show "namedDevices c" using devices_fold [OF devs] by (simp add: namedDevices_def)
qed

lemma cScope_Some: "cScope c i = Some s \<Longrightarrow> s \<in> set (cScopes c) \<and> sID s = i"
  by (auto simp: cScope_def find_Some_iff)

lemma cDevice_Some: "cDevice c i = Some d \<Longrightarrow> d \<in> set (cDevices c) \<and> dID d = i"
  by (auto simp: cDevice_def find_Some_iff)

lemma cDevice_found: "i \<in> dID ` set (cDevices c) \<Longrightarrow> \<exists>d. cDevice c i = Some d"
  by (cases "cDevice c i") (auto simp: cDevice_def find_None_iff)

lemma findReservation_Some:
  "findReservation s client mac = Some r \<Longrightarrow> r \<in> set (sReservations s) \<and> (rClient r = client \<or> rClient r = ''mac:'' @ mac)"
  by (auto simp: findReservation_def find_Some_iff)

end
