(* ===== verification/Book_Leases.thy ===== *)
theory Book_Leases
  imports Book_Valid
begin

text \<open>
  Allocation under the invariant of the ledger: which address a client gets, that nobody else
  held it, and what the ledger holds afterwards.
\<close>

section \<open>The invariant with associations\<close>

definition nameOk :: "string \<Rightarrow> bool" where
  "nameOk n = (plain n \<and> n \<noteq> [] \<and> CHR ''/'' \<notin> set n)"

definition versionInts :: "associationVersion \<Rightarrow> bool" where
  "versionInts v = (int64 (avUpdated v) \<and> int64 (avEnded v))"

definition associationInts :: "association \<Rightarrow> bool" where
  "associationInts a = (int64 (asUpdated a) \<and> list_all versionInts (asHistory a))"

definition assocOk :: "'t bolt \<Rightarrow> 't \<Rightarrow> bool" where
  "assocOk B t = (\<forall>k raw. bktGet B associationBucket k t = Some raw \<longrightarrow>
     (\<exists>a. bindR (unmarshal raw) (decAssociation zeroAssociation) = Inr a \<and> nameOk (asName a) \<and> associationInts a))"

definition ledgerOk :: "'t bolt \<Rightarrow> 't \<Rightarrow> bool" where
  "ledgerOk B t = (bookOk B t \<and> assocOk B t)"

definition saneTime :: "int \<Rightarrow> bool" where
  "saneTime n = (0 \<le> n \<and> n < 2 ^ 62)"

text \<open>An address of a scope is free for a client: nobody else holds it at the instant.\<close>

definition freeFor :: "'t bolt \<Rightarrow> 't \<Rightarrow> string \<Rightarrow> string \<Rightarrow> int \<Rightarrow> string \<Rightarrow> bool" where
  "freeFor B t sc client now ip = (\<forall>x. bindingAt B t (bindingKey sc ip) = Some x \<longrightarrow>
     now < bEnd x \<longrightarrow> liveState (bState x) \<longrightarrow> bClient x = client \<and> bState x \<noteq> ''declined'')"

lemma available_iff:
  assumes "bookOk B t"
  shows "available B s client mac now ip t =
    Inr (allowed s client mac ip \<and> freeFor B t (sID s) client now ip)"
  using assms
  by (auto simp: available_def bookOk_read freeFor_def liveState_def zeroBinding_def split: option.splits)

lemma asideAssociation: "asideBucket associationBucket"
  by (simp add: asideBucket_def derivedBuckets_def indexBuckets_def bucket_defs)

lemma nameOk_simps: "labelPattern n \<Longrightarrow> nameOk n" "nameOk (deviceID sc client)"
  using labelPattern_plain deviceID_plain by (auto simp: nameOk_def)

section \<open>The pool\<close>

lemma Next_zone: "addrZone a = [] \<Longrightarrow> addrZone (Next a) = []"
  by (cases a) (auto simp: addrZone_def Next_def)

lemma poolScan_Found:
  "poolScan B s client mac now t n a e = Inr (Found ip) \<Longrightarrow> addrZone a = [] \<Longrightarrow>
     available B s client mac now ip t = Inr True \<and> plain ip"
proof (induction B s client mac now t n a e rule: poolScan.induct)
  case (1 B s client mac now t n a e)
  have body: "addrLe a e" "\<not> 65536 \<le> n" "bindR (available B s client mac now (addrString a) t) (\<lambda>usable.
      if usable then Inr (Found (addrString a)) else poolScan B s client mac now t (n + 1) (Next a) e) = Inr (Found ip)"
    using "1.prems"(1) by (auto simp: poolScan.simps [of B s client mac now t n a e] split: if_splits)
  then obtain u where u: "available B s client mac now (addrString a) t = Inr u" by (auto simp: bindR_Inr)
  show ?case
  proof (cases u)
    case True
    then show ?thesis using body(3) u addrString_plain [OF "1.prems"(2)] by simp
  next
    case False
    then show ?thesis using "1.IH" [of False] body u Next_zone [OF "1.prems"(2)] by simp
  qed
qed

lemma rediscover_plain:
  assumes "plain requested" "\<forall>b \<in> set mine. plain (bAddress b)"
    "\<And>r. findReservation s client mac = Some r \<Longrightarrow> plain (rAddress r)"
  shows "plain (rediscover s client mac now requested mine)"
proof -
  have "plain (foldl (\<lambda>cand b. if P b then bAddress b else cand) requested mine)" for P
    using assms(1,2) by (induction mine arbitrary: requested) auto
  then show ?thesis using assms(3) by (auto simp: rediscover_def split: option.splits)
qed

section \<open>Choosing an address\<close>

lemma scopeOk_reserved: "scopeOk c s \<Longrightarrow> findReservation s client mac = Some r \<Longrightarrow> plain (rAddress r)"
  using findReservation_Some [of s client mac r] hostAddr_plain by (auto simp: scopeOk_def)

context bolt_laws
begin

lemma chooseAddress_Done:
  assumes ok: "bookOk B (db st)" and s: "scopeOk c s" and plain: "plain client" "plain requested"
    and choose: "chooseAddress B s client mac now requested commit st = (Done ip, st')"
  shows "st' = st" "available B s client mac now ip (db st) = Inr True" "plain ip"
    "commit \<Longrightarrow> ip = requested"
proof -
  obtain cand u where run: "(if commit then ret requested
       else bindM (readTx (liveByClient B (sID s) client)) (\<lambda>mine.
         ret (rediscover s client mac now requested mine))) st = (Done cand, st)"
    and u: "available B s client mac now cand (db st) = Inr u"
    and rest: "(if u then ret cand
          else if commit then raise (Unavailable ''requested address is outside client policy or occupied'')
          else if findReservation s client mac \<noteq> None then raise (Unavailable ''reserved address is occupied'')
          else (case (ParseAddr (sStart s), ParseAddr (sEnd s)) of
              (Some lo, Some hi) \<Rightarrow>
                bindM (readTx (\<lambda>t. poolScan B s client mac now t 0 lo hi)) (\<lambda>r. case r of
                    Found ip \<Rightarrow> ret ip
                  | Exhausted \<Rightarrow> raise (Unavailable ''address pool exhausted'')
                  | Unbounded \<Rightarrow> panic)
            | _ \<Rightarrow> panic)) st = (Done ip, st')"
    using choose by (auto simp: chooseAddress_def book_run split: if_splits)
  have label: "plain (sID s)" using s labelPattern_plain by (auto simp: scopeOk_def)
  have cand: "plain cand"
  proof (cases commit)
    case True
    then show ?thesis using run plain(2) by simp
  next
    case False
    then obtain mine where m: "liveByClient B (sID s) client (db st) = Inr mine"
      "cand = rediscover s client mac now requested mine" using run by (auto simp: book_run)
    have "\<forall>b \<in> set mine. plain (bAddress b)"
      using live_client [OF ok label plain(1)] m(1) bookOk_at(1) [OF ok] by (auto simp: keyOk_def)
    then show ?thesis using rediscover_plain [OF plain(2)] scopeOk_reserved [OF s] m(2) by blast
  qed
  have "st' = st \<and> available B s client mac now ip (db st) = Inr True \<and> plain ip \<and> (commit \<longrightarrow> ip = requested)"
  proof (cases u)
    case True
    then show ?thesis using rest u cand run by (auto split: if_splits)
  next
    case False
    then have c: "\<not> commit" "findReservation s client mac = None" using rest by (auto split: if_splits)
    obtain lo hi where pool: "ParseAddr (sStart s) = Some lo" "ParseAddr (sEnd s) = Some hi" "addrZone lo = []"
      using s by (auto simp: scopeOk_def poolOk_def elim!: hostAddr_parse)
    obtain r where r: "poolScan B s client mac now (db st) 0 lo hi = Inr r"
      and ret: "(case r of Found ip \<Rightarrow> ret ip
        | Exhausted \<Rightarrow> raise (Unavailable ''address pool exhausted'') | Unbounded \<Rightarrow> panic) st = (Done ip, st')"
      using rest False c pool by (auto simp: book_run)
    then have "r = Found ip" "st' = st" by (auto simp: panic_def split: scanned.splits)
    then show ?thesis using poolScan_Found [of B s client mac now "db st" 0 lo hi ip] r pool(3) c(1) by simp
  qed
  then show "st' = st" "available B s client mac now ip (db st) = Inr True" "plain ip" "commit \<Longrightarrow> ip = requested"
    by auto
qed

end

section \<open>The lease that is written\<close>

definition newLease ::
  "config \<Rightarrow> scope \<Rightarrow> string \<Rightarrow> string \<Rightarrow> string \<Rightarrow> string \<Rightarrow> int \<Rightarrow> bool \<Rightarrow> binding \<Rightarrow> association option \<Rightarrow> binding" where
  "newLease c s client mac claimed ip now commit old a =
     (let b = reserveLease c (findReservation s client mac)
            (associateLease a (inheritLease old client now (freshLease s client mac claimed ip now)))
      in if commit then commitLease s now b else b)"

lemma freshLease_fields:
  "bScope (freshLease s client mac claimed ip now) = sID s" "bAddress (freshLease s client mac claimed ip now) = ip"
  "bClient (freshLease s client mac claimed ip now) = client" "bMAC (freshLease s client mac claimed ip now) = mac"
  "bState (freshLease s client mac claimed ip now) = ''offered''" "bEnd (freshLease s client mac claimed ip now) = now + 30"
  "bStart (freshLease s client mac claimed ip now) = now" "bPreferredEnd (freshLease s client mac claimed ip now) = 0"
  "bName (freshLease s client mac claimed ip now) = deviceID (sID s) client"
  "bOrigin (freshLease s client mac claimed ip now) = (if sIs6 s then ''dhcpv6'' else ''dhcpv4'')"
  by (simp_all add: freshLease_def zeroBinding_def Let_def)

text \<open>Attribution changes neither the key, the owner, the state nor the end of a lease.\<close>

lemma attributed_fields:
  "f \<in> {bScope, bAddress, bClient, bMAC, bState, bOrigin} \<Longrightarrow>
     f (reserveLease c r (associateLease a (inheritLease old client now b))) = f b"
  "g \<in> {bEnd, bPreferredEnd} \<Longrightarrow> g (reserveLease c r (associateLease a (inheritLease old client now b))) = g b"
  by (auto simp: reserveLease_def associateLease_def inheritLease_def Let_def split: option.splits)

lemma newLease_fields:
  "bScope (newLease c s client mac claimed ip now commit old a) = sID s"
  "bAddress (newLease c s client mac claimed ip now commit old a) = ip"
  "bClient (newLease c s client mac claimed ip now commit old a) = client"
  "bMAC (newLease c s client mac claimed ip now commit old a) = mac"
  "bState (newLease c s client mac claimed ip now commit old a) = (if commit then ''active'' else ''offered'')"
  "bEnd (newLease c s client mac claimed ip now commit old a) = (if commit then now + sLeaseSeconds s else now + 30)"
  "bOrigin (newLease c s client mac claimed ip now commit old a) = (if sIs6 s then ''dhcpv6'' else ''dhcpv4'')"
  by (simp_all add: newLease_def commitLease_def Let_def attributed_fields freshLease_fields)

lemma newLease_preferred:
  "bPreferredEnd (newLease c s client mac claimed ip now commit old a) =
     (if commit \<and> sIs6 s then now + sPreferredSeconds s else 0)"
  by (simp add: newLease_def commitLease_def Let_def attributed_fields freshLease_fields)

lemma newLease_start:
  "bStart (newLease c s client mac claimed ip now commit old a) \<in> {now, bStart old}"
  by (auto simp: newLease_def commitLease_def reserveLease_def associateLease_def inheritLease_def freshLease_fields
      Let_def split: option.splits)

lemma reserveLease_name:
  assumes "nameOk (bName b)" "scopeOk c s" "namedDevices c"
  shows "nameOk (bName (reserveLease c (findReservation s client mac) b))"
proof (cases "findReservation s client mac")
  case (Some r)
  have "rDevice r \<in> dID ` set (cDevices c)"
    using findReservation_Some [OF Some] assms(2) by (auto simp: scopeOk_def)
  then obtain d where "cDevice c (rDevice r) = Some d" using cDevice_found by blast
  then show ?thesis
    using cDevice_Some assms(3) Some by (auto simp: reserveLease_def Let_def namedDevices_def intro!: nameOk_simps)
qed (use assms(1) in \<open>simp add: reserveLease_def\<close>)

lemma newLease_name:
  assumes "nameOk (bName old) \<or> bClient old \<noteq> client" "\<And>x. a = Some x \<Longrightarrow> nameOk (asName x)"
    "scopeOk c s" "namedDevices c"
  shows "nameOk (bName (newLease c s client mac claimed ip now commit old a))"
proof -
  have "nameOk (bName (inheritLease old client now (freshLease s client mac claimed ip now)))"
    using assms(1) by (auto simp: inheritLease_def freshLease_fields nameOk_simps)
  then have "nameOk (bName (associateLease a (inheritLease old client now (freshLease s client mac claimed ip now))))"
    using assms(2) by (auto simp: associateLease_def split: option.splits)
  from reserveLease_name [OF this assms(3,4)] show ?thesis by (simp add: newLease_def commitLease_def Let_def)
qed

lemma saneTime_int64: "saneTime n \<Longrightarrow> 0 \<le> d \<Longrightarrow> d \<le> 604800 \<Longrightarrow> int64 (n + d)" "saneTime n \<Longrightarrow> int64 n" "int64 0"
  by (auto simp: saneTime_def int64_def)

lemma newLease_keyOk:
  assumes "scopeOk c s" "namedDevices c" "plain client" "plain mac" "plain ip" "saneTime now"
    "keyOk old \<or> old = zeroBinding" "client \<noteq> []" "\<And>x. a = Some x \<Longrightarrow> nameOk (asName x)"
  shows "keyOk (newLease c s client mac claimed ip now commit old a)"
proof -
  have old: "nameOk (bName old) \<or> bClient old \<noteq> client" "int64 (bStart old)"
    using assms(7,8) by (auto simp: keyOk_def nameOk_def zeroBinding_def int64_def)
  have "nameOk (bName (newLease c s client mac claimed ip now commit old a))"
    by (rule newLease_name [OF old(1) assms(9,1,2)])
  moreover have "labelPattern (sID s)" "0 \<le> sLeaseSeconds s" "sLeaseSeconds s \<le> 604800"
    "0 \<le> sPreferredSeconds s" "sPreferredSeconds s \<le> 604800"
    using assms(1) by (auto simp: scopeOk_def)
  ultimately show ?thesis
    using assms(3-6) labelPattern_plain [of "sID s"] newLease_start [of c s client mac claimed ip now commit old a] old(2)
      saneTime_int64(1,2) [OF assms(6)] saneTime_int64(3)
    by (auto simp: keyOk_def newLease_fields newLease_preferred nameOk_def)
qed

section \<open>Allocation\<close>

lemma assocOk_read:
  assumes "assocOk B t"
  shows "\<exists>a. readAssociation B client t = Inr a \<and> (\<forall>x. a = Some x \<longrightarrow> nameOk (asName x) \<and> associationInts x)"
proof (cases "bktGet B associationBucket client t")
  case (Some raw)
  then obtain a where "bindR (unmarshal raw) (decAssociation zeroAssociation) = Inr a" "nameOk (asName a) \<and> associationInts a"
    using assms by (auto simp: assocOk_def)
  then show ?thesis using Some by (simp add: readAssociation_def)
qed (simp add: readAssociation_def)

lemma allocateTx_newLease:
  "allocateTx B c s client mac claimed requested commit now =
     bindM (chooseAddress B s client mac now requested commit) (\<lambda>ip.
     bindM (readTx (readBinding B (sID s) ip)) (\<lambda>old.
       if \<not> commit \<and> heldBy old client now then ret old
       else bindM (readTx (readAssociation B client)) (\<lambda>a.
         bindM (save B (newLease c s client mac claimed ip now commit old a)
             (if \<not> commit then ''offer'' else if heldBy old client now then ''renew'' else ''grant''))
           (\<lambda>_. ret (newLease c s client mac claimed ip now commit old a)))))"
  by (simp only: allocateTx_def newLease_def Let_def)

context bolt_laws
begin

text \<open>
  What an allocation that succeeds did: either it offered an active lease again and wrote
  nothing, or it saved the lease it returns.
\<close>

lemma allocateTx_Done:
  assumes ok: "ledgerOk B (db st)" and c: "scopeOk c s" "namedDevices c"
    and plain: "plain client" "client \<noteq> []" "plain mac" "plain requested" and now: "saneTime now"
    and run: "allocateTx B c s client mac claimed requested commit now st = (Done b, st')"
  shows "available B s client mac now (bAddress b) (db st) = Inr True" "bScope b = sID s" "bClient b = client"
    "keyOk b"
    "commit \<Longrightarrow> bState b = ''active'' \<and> bEnd b = now + sLeaseSeconds s \<and> bAddress b = requested"
    "((\<exists>kind. save B b kind st = (Done (), st')) \<and>
      (commit \<or> (\<forall>x. bindingAt B (db st) (keyOf b) = Some x \<longrightarrow> \<not> heldBy x client now))) \<or>
     (\<not> commit \<and> st' = st \<and> bindingAt B (db st) (keyOf b) = Some b \<and> heldBy b client now)"
proof -
  have book: "bookOk B (db st)" "assocOk B (db st)" using ok by (simp_all add: ledgerOk_def)
  obtain ip st1 where choose1: "chooseAddress B s client mac now requested commit st = (Done ip, st1)"
    using run unfolding allocateTx_newLease by (auto simp: bindM_Done)
  have same: "st1 = st" by (rule chooseAddress_Done(1) [OF book(1) c(1) plain(1,4) choose1])
  note choose = choose1 [unfolded same]
  obtain old where read: "readBinding B (sID s) ip (db st) = Inr old"
    and rest: "(if \<not> commit \<and> heldBy old client now then ret old
       else bindM (readTx (readAssociation B client)) (\<lambda>a.
         bindM (save B (newLease c s client mac claimed ip now commit old a)
             (if \<not> commit then ''offer'' else if heldBy old client now then ''renew'' else ''grant''))
           (\<lambda>_. ret (newLease c s client mac claimed ip now commit old a)))) st = (Done b, st')"
    using run unfolding allocateTx_newLease by (auto simp: bindM_Done readTx_Done choose)
  note chosen = chooseAddress_Done [OF book(1) c(1) plain(1,4) choose]
  have old: "old = (case bindingAt B (db st) (bindingKey (sID s) ip) of None \<Rightarrow> zeroBinding | Some x \<Rightarrow> x)"
    using read bookOk_read [OF book(1)] by simp
  have oldOk: "keyOk old \<or> old = zeroBinding"
    using old bookOk_at(1) [OF book(1)] by (auto split: option.splits)
  have all: "available B s client mac now (bAddress b) (db st) = Inr True \<and> bScope b = sID s \<and> bClient b = client \<and>
      keyOk b \<and> (commit \<longrightarrow> bState b = ''active'' \<and> bEnd b = now + sLeaseSeconds s \<and> bAddress b = requested) \<and>
      (((\<exists>kind. save B b kind st = (Done (), st')) \<and>
       (commit \<or> (\<forall>x. bindingAt B (db st) (keyOf b) = Some x \<longrightarrow> \<not> heldBy x client now))) \<or>
       (\<not> commit \<and> st' = st \<and> bindingAt B (db st) (keyOf b) = Some b \<and> heldBy b client now))"
  proof (cases "\<not> commit \<and> heldBy old client now")
    case True
    then have b: "b = old" "st' = st" using rest by auto
    then have at: "bindingAt B (db st) (bindingKey (sID s) ip) = Some b"
      using True old plain(2) by (auto simp: heldBy_def zeroBinding_def split: option.splits)
    have key: "keyOk b" "keyOf b = bindingKey (sID s) ip" using bookOk_at [OF book(1) at] by auto
    have "CHR ''/'' \<notin> set (sID s)" "CHR ''/'' \<notin> set (bScope b)"
      using c(1) labelPattern_plain key(1) by (auto simp: scopeOk_def keyOk_def)
    then have "bScope b = sID s" "bAddress b = ip" using key(2) by (auto simp: keyOf_def bindingKey_inj)
    then show ?thesis using True b at key chosen(2) by (simp add: heldBy_def)
  next
    case False
    obtain a where a: "readAssociation B client (db st) = Inr a" "\<And>x. a = Some x \<Longrightarrow> nameOk (asName x)"
      using assocOk_read [OF book(2)] by blast
    obtain kind where b: "b = newLease c s client mac claimed ip now commit old a"
      and saved: "save B b kind st = (Done (), st')"
      using rest False a(1) by (auto simp: bindM_Done readTx_Done)
    have "keyOk b"
      unfolding b by (rule newLease_keyOk [OF c plain(1,3) chosen(3) now oldOk plain(2) a(2)])
    moreover have "commit \<or> (\<forall>x. bindingAt B (db st) (keyOf b) = Some x \<longrightarrow> \<not> heldBy x client now)"
      using False old unfolding b by (auto simp: newLease_fields keyOf_def)
    moreover have "available B s client mac now (bAddress b) (db st) = Inr True" "bScope b = sID s" "bClient b = client"
      "commit \<longrightarrow> bState b = ''active'' \<and> bEnd b = now + sLeaseSeconds s \<and> bAddress b = requested"
      using chosen unfolding b by (simp_all add: newLease_fields)
    ultimately show ?thesis using saved by blast
  qed
  then show "available B s client mac now (bAddress b) (db st) = Inr True" "bScope b = sID s" "bClient b = client"
    "keyOk b"
    "commit \<Longrightarrow> bState b = ''active'' \<and> bEnd b = now + sLeaseSeconds s \<and> bAddress b = requested"
    "((\<exists>kind. save B b kind st = (Done (), st')) \<and>
      (commit \<or> (\<forall>x. bindingAt B (db st) (keyOf b) = Some x \<longrightarrow> \<not> heldBy x client now))) \<or>
     (\<not> commit \<and> st' = st \<and> bindingAt B (db st) (keyOf b) = Some b \<and> heldBy b client now)"
    by blast+
qed

end

end
