(* ===== verification/Book_Pool.thy ===== *)
theory Book_Pool
  imports Book_Leases
begin

text \<open>
  The scan of the pool is complete and ends: a discovery finds an address whenever one is
  available, and reports exhaustion only when none is.
\<close>

section \<open>Counting through addresses\<close>

lemma Next_step:
  assumes "Suc (addrVal a) < 2 ^ bitLen a"
  shows "bitLen (Next a) = bitLen a" "addrVal (Next a) = Suc (addrVal a)" "addrZone (Next a) = addrZone a"
proof -
  have "bitLen (Next a) = bitLen a \<and> addrVal (Next a) = Suc (addrVal a) \<and> addrZone (Next a) = addrZone a"
  proof (cases a)
    case NoAddr
    then show ?thesis using assms by (simp add: bitLen_def addrVal_def)
  next
    case (V4 w)
    then have "Suc (unat w) < 2 ^ 32" using assms by (simp add: bitLen_def addrVal_def)
    then have "unat (w + 1) = Suc (unat w)" by (simp add: unat_word_ariths(1))
    then show ?thesis using V4 by (auto simp: Next_def bitLen_def addrVal_def addrZone_def)
  next
    case (V6 w z)
    then have "Suc (unat w) < 2 ^ 128" using assms by (simp add: bitLen_def addrVal_def)
    then have "unat (w + 1) = Suc (unat w)" by (simp add: unat_word_ariths(1))
    then show ?thesis using V6 by (auto simp: Next_def bitLen_def addrVal_def addrZone_def)
  qed
  then show "bitLen (Next a) = bitLen a" "addrVal (Next a) = Suc (addrVal a)" "addrZone (Next a) = addrZone a"
    by auto
qed

lemma addr_eq: "bitLen a = bitLen b \<Longrightarrow> addrVal a = addrVal b \<Longrightarrow> addrZone a = addrZone b \<Longrightarrow> a = b"
  by (cases a; cases b) (auto simp: bitLen_def addrVal_def addrZone_def intro: unsigned_word_eqI)

lemma addrVal_bound: "addrVal a < 2 ^ bitLen a"
proof (cases a)
  case (V4 w)
  then show ?thesis using unsigned_less [of w, where 'a = nat] by (simp add: addrVal_def bitLen_def)
next
  case (V6 w z)
  then show ?thesis using unsigned_less [of w, where 'a = nat] by (simp add: addrVal_def bitLen_def)
qed (simp add: addrVal_def bitLen_def)

lemma addrLe_same:
  "bitLen a = bitLen b \<Longrightarrow> addrZone a = [] \<Longrightarrow> addrZone b = [] \<Longrightarrow> addrLe a b \<longleftrightarrow> addrVal a \<le> addrVal b"
  by (auto simp: addrLe_def addrLess_def)

text \<open>The address a number of steps above another.\<close>

lemma Next_pow:
  assumes "addrVal a + k < 2 ^ bitLen a"
  shows "bitLen ((Next ^^ k) a) = bitLen a" "addrVal ((Next ^^ k) a) = addrVal a + k"
    "addrZone ((Next ^^ k) a) = addrZone a"
  using assms
proof (induction k)
  case (Suc k)
  { case 1 show ?case using Suc 1 Next_step [of "(Next ^^ k) a"] by simp }
  { case 2 show ?case using Suc 2 Next_step [of "(Next ^^ k) a"] by simp }
  { case 3 show ?case using Suc 3 Next_step [of "(Next ^^ k) a"] by simp }
qed simp_all

lemma Next_reaches:
  assumes "bitLen a = bitLen x" "addrZone a = addrZone x" "addrVal a \<le> addrVal x"
  shows "(Next ^^ (addrVal x - addrVal a)) a = x"
  using Next_pow [of a "addrVal x - addrVal a"] addrVal_bound [of x] assms by (intro addr_eq) auto

section \<open>The scan\<close>

lemma poolScan_result:
  assumes "bookOk B t" "poolFits n a e"
  shows "\<exists>r. poolScan B s client mac now t n a e = Inr r \<and> r \<noteq> Unbounded \<and>
    (r = Exhausted \<longrightarrow> (\<forall>k. (\<forall>j \<le> k. addrLe ((Next ^^ j) a) e) \<longrightarrow>
       available B s client mac now (addrString ((Next ^^ k) a)) t = Inr False))"
  using assms
proof (induction n a e rule: poolFits.induct)
  case (1 n a e)
  let ?ok = "available B s client mac now (addrString a) t"
  obtain u where u: "?ok = Inr u" using available_iff [OF "1.prems"(1)] by blast
  show ?case
  proof (cases "addrLe a e")
    case False
    then show ?thesis by (auto simp: poolScan.simps [of B s client mac now t n a e])
  next
    case le: True
    then have n: "\<not> 65536 \<le> n" and fits: "poolFits (n + 1) (Next a) e"
      using "1.prems"(2) by (auto simp: poolFits.simps [of n a e] split: if_splits)
    show ?thesis
    proof (cases u)
      case True
      then show ?thesis using le n u by (simp add: poolScan.simps [of B s client mac now t n a e])
    next
      case False
      obtain r where r: "poolScan B s client mac now t (n + 1) (Next a) e = Inr r" "r \<noteq> Unbounded"
        "r = Exhausted \<Longrightarrow> (\<forall>k. (\<forall>j \<le> k. addrLe ((Next ^^ j) (Next a)) e) \<longrightarrow>
          available B s client mac now (addrString ((Next ^^ k) (Next a))) t = Inr False)"
        using "1.IH" [OF le n "1.prems"(1) fits] by blast
      have "available B s client mac now (addrString ((Next ^^ k) a)) t = Inr False"
        if "r = Exhausted" "\<forall>j \<le> k. addrLe ((Next ^^ j) a) e" for k
      proof (cases k)
        case 0
        then show ?thesis using u False by simp
      next
        case (Suc m)
        have "\<forall>j \<le> m. addrLe ((Next ^^ j) (Next a)) e"
          using that(2) Suc by (metis Suc_le_mono funpow_Suc_right o_apply)
        then show ?thesis using r(3) [OF that(1)] Suc by (simp add: funpow_swap1)
      qed
      then show ?thesis
        using le n u False r(1,2) by (auto simp: poolScan.simps [of B s client mac now t n a e])
    qed
  qed
qed

lemma Contains_same: "Contains p a \<Longrightarrow> Contains p b \<Longrightarrow> bitLen a = bitLen b \<and> addrZone a = [] \<and> addrZone b = []"
  by (auto simp: Contains_def)

lemma poolOk_bounds:
  assumes "poolOk s p"
  obtains lo hi where "ParseAddr (sStart s) = Some lo" "ParseAddr (sEnd s) = Some hi" "bitLen lo = bitLen hi"
    "addrZone lo = []" "addrZone hi = []" "poolFits 0 lo hi"
proof -
  obtain lo hi where b: "ParseAddr (sStart s) = Some lo" "ParseAddr (sEnd s) = Some hi"
    "hostAddr p (sStart s)" "hostAddr p (sEnd s)" "poolFits 0 lo hi"
    using assms by (auto simp: poolOk_def)
  have "Contains p lo" "Contains p hi" using b(1-4) by (auto simp: hostAddr_def)
  then show ?thesis using that b Contains_same by blast
qed

lemma scan_complete:
  assumes "bookOk B t" "poolOk s p" "inRange s x" "addrZone x = []"
    "ParseAddr (sStart s) = Some lo" "ParseAddr (sEnd s) = Some hi"
    "available B s client mac now (addrString x) t = Inr True"
  shows "\<exists>ip. poolScan B s client mac now t 0 lo hi = Inr (Found ip)"
proof -
  have b: "bitLen lo = bitLen hi" "addrZone lo = []" "addrZone hi = []" "poolFits 0 lo hi"
    using poolOk_bounds [OF assms(2)] assms(5,6) by (metis option.inject)+
  have range: "addrLe lo x" "addrLe x hi" using assms(3,5,6) by (auto simp: inRange_def)
  then have len: "bitLen x = bitLen lo" using b(1) by (auto simp: addrLe_def addrLess_def)
  then have vals: "addrVal lo \<le> addrVal x" "addrVal x \<le> addrVal hi"
    using range addrLe_same b assms(4) by auto
  define k where "k = addrVal x - addrVal lo"
  have x: "(Next ^^ k) lo = x"
    unfolding k_def by (rule Next_reaches) (use len vals b(2) assms(4) in auto)
  have below: "addrLe ((Next ^^ j) lo) hi" if "j \<le> k" for j
  proof -
    have v: "addrVal lo + j \<le> addrVal hi" using that vals by (simp add: k_def)
    then have "addrVal lo + j < 2 ^ bitLen lo" using addrVal_bound [of hi] b(1) by simp
    from Next_pow [OF this] show ?thesis using addrLe_same [of "(Next ^^ j) lo" hi] b v by simp
  qed
  obtain r where r: "poolScan B s client mac now t 0 lo hi = Inr r" "r \<noteq> Unbounded"
    "r = Exhausted \<Longrightarrow> available B s client mac now (addrString ((Next ^^ k) lo)) t = Inr False"
    using poolScan_result [OF assms(1) b(4), of s client mac now] below by blast
  have "r \<noteq> Exhausted" using r(3) x assms(7) by auto
  then show ?thesis using r(1,2) by (cases r) auto
qed

section \<open>Discovery\<close>

context bolt_laws
begin

lemma discovery_total:
  assumes ok: "bookOk B (db st)" and s: "scopeOk c s" and client: "plain client"
    and free: "findReservation s client mac = None" "inRange s x" "addrZone x = []"
      "available B s client mac now (addrString x) (db st) = Inr True"
  shows "\<exists>ip. chooseAddress B s client mac now requested False st = (Done ip, st)"
proof -
  have label: "plain (sID s)" using s labelPattern_plain by (auto simp: scopeOk_def)
  obtain mine where mine: "liveByClient B (sID s) client (db st) = Inr mine"
    using live_client [OF ok label client] by blast
  obtain u where u: "available B s client mac now (rediscover s client mac now requested mine) (db st) = Inr u"
    using available_iff [OF ok] by blast
  obtain p where p: "poolOk s p" using s by (auto simp: scopeOk_def)
  obtain lo hi where b: "ParseAddr (sStart s) = Some lo" "ParseAddr (sEnd s) = Some hi"
    by (rule poolOk_bounds [OF p])
  obtain ip where "poolScan B s client mac now (db st) 0 lo hi = Inr (Found ip)"
    using scan_complete [OF ok p free(2,3) b free(4)] by blast
  then show ?thesis
    using mine u b free(1)
    by (cases u) (simp_all add: chooseAddress_def bindM_def readTx_def liftR_def ret_def)
qed

end

end
