(* ===== verification/Book_Codec.thy ===== *)
theory Book_Codec
  imports Book_Pool
begin

text \<open>
  Round trips of the other records of the ledger: events and associations come back from
  their JSON as they were written, up to the validity of their text.
\<close>

lemma decField_written:
  assumes "lowerTable t" "n \<in> fst ` set t"
  shows "decField d n (written t) cur = (case the (map_of t n) of None \<Rightarrow> Inr cur | Some j \<Rightarrow> d cur j)"
proof -
  obtain j where j: "map_of t n = Some j" using assms(2) by (metis map_of_eq_None_iff not_None_eq)
  show ?thesis using decField_lower [OF assms(1) j] by (simp add: j)
qed

section \<open>Associations\<close>

definition storedVersion :: "associationVersion \<Rightarrow> associationVersion" where
  "storedVersion v = v\<lparr>avDevice := toValidUTF8 (avDevice v), avName := toValidUTF8 (avName v),
     avNodeID := toValidUTF8 (avNodeID v), avReason := toValidUTF8 (avReason v)\<rparr>"

definition storedAssociation :: "association \<Rightarrow> association" where
  "storedAssociation a = \<lparr>asClient = toValidUTF8 (asClient a), asDevice = toValidUTF8 (asDevice a),
     asName = toValidUTF8 (asName a), asNodeID = toValidUTF8 (asNodeID a), asReason = toValidUTF8 (asReason a),
     asUpdated = asUpdated a, asHistory = map storedVersion (asHistory a)\<rparr>"

lemma version_lower:
  "lowerTable [(''device'', a), (''name'', b), (''tailnet_node_id'', c), (''reason'', d), (''updated'', e), (''ended'', f)]"
proof -
  have "lowerTable (map (\<lambda>k. (k, None)) [''device'', ''name'', ''tailnet_node_id'', ''reason'', ''updated'', ''ended''])"
    by code_simp
  then show ?thesis by (rule lowerTable_keys) simp
qed

lemma decVersion_encVersion:
  assumes "versionInts v"
  shows "decVersion zeroVersion (encVersion v) = Inr (storedVersion v)"
  using assms
  unfolding encVersion_def decVersion_def decStruct_table foldR_fields versionInts_def
  by (simp add: decField_written [OF version_lower] read_omit read_always zeroVersion_def storedVersion_def
      del: decString.simps decInt.simps)

lemma decAll_versions:
  "list_all versionInts vs \<Longrightarrow> decAll decVersion zeroVersion (map encVersion vs) = Inr (map storedVersion vs)"
  by (induction vs) (simp_all add: decVersion_encVersion)

lemma association_lower:
  "lowerTable [(''client'', a), (''device'', b), (''name'', c), (''tailnet_node_id'', d), (''reason'', e),
     (''updated'', f), (''history'', g)]"
proof -
  have "lowerTable (map (\<lambda>k. (k, None))
      [''client'', ''device'', ''name'', ''tailnet_node_id'', ''reason'', ''updated'', ''history''])"
    by code_simp
  then show ?thesis by (rule lowerTable_keys) simp
qed

lemma decAssociation_encAssociation:
  assumes "associationInts a"
  shows "decAssociation zeroAssociation (encAssociation a) = Inr (storedAssociation a)"
proof -
  have history: "(case (if asHistory a = [] then None else Some (JArr (map encVersion (asHistory a)))) of
      None \<Rightarrow> Inr [] | Some j \<Rightarrow> decList decVersion zeroVersion [] j) = Inr (map storedVersion (asHistory a))"
    using assms decAll_versions by (simp add: associationInts_def)
  show ?thesis
    using assms
    unfolding encAssociation_def decAssociation_def decStruct_table foldR_fields associationInts_def
    by (simp add: decField_written [OF association_lower] read_omit read_always history zeroAssociation_def
        storedAssociation_def del: decString.simps decInt.simps cong: option.case_cong)
qed

section \<open>Events\<close>

lemma event_lower:
  "lowerTable [(''message'', a), (''id'', b), (''time'', c), (''kind'', d), (''binding'', e), (''observation'', f)]"
proof -
  have "lowerTable (map (\<lambda>k. (k, None)) [''message'', ''id'', ''time'', ''kind'', ''binding'', ''observation''])"
    by code_simp
  then show ?thesis by (rule lowerTable_keys) simp
qed

definition storedObservation :: "observation \<Rightarrow> observation" where
  "storedObservation x = x\<lparr>obScope := toValidUTF8 (obScope x), obAddress := toValidUTF8 (obAddress x),
     obMAC := toValidUTF8 (obMAC x), obOrigin := toValidUTF8 (obOrigin x), obDetail := toValidUTF8 (obDetail x)\<rparr>"

definition observationInts :: "observation \<Rightarrow> bool" where
  "observationInts x = (int64 (obSeen x) \<and> int64 (obUntil x))"

lemma observation_lower:
  "lowerTable [(''scope'', a), (''address'', b), (''mac'', c), (''origin'', d), (''detail'', e),
     (''seen'', f), (''until'', g), (''historical'', h)]"
proof -
  have "lowerTable (map (\<lambda>k. (k, None))
      [''scope'', ''address'', ''mac'', ''origin'', ''detail'', ''seen'', ''until'', ''historical''])"
    by code_simp
  then show ?thesis by (rule lowerTable_keys) simp
qed

lemma decObservation_encObservation:
  assumes "observationInts x"
  shows "decObservation zeroObservation (encObservation x) = Inr (storedObservation x)"
  using assms
  unfolding encObservation_def decObservation_def decStruct_table foldR_fields observationInts_def
  by (simp add: decField_written [OF observation_lower] read_omit read_always zeroObservation_def
      storedObservation_def del: decString.simps decInt.simps decBool.simps)

definition eventInts :: "event \<Rightarrow> bool" where
  "eventInts e = (evID e < 2 ^ 64 \<and> int64 (evTime e) \<and> int64 (bPreferredEnd (evBinding e)) \<and>
     int64 (bStart (evBinding e)) \<and> int64 (bEnd (evBinding e)) \<and>
     (\<forall>x. evObservation e = Some x \<longrightarrow> observationInts x))"

definition storedEvent :: "event \<Rightarrow> event" where
  "storedEvent e = \<lparr>evMessage = toValidUTF8 (evMessage e), evID = evID e, evTime = evTime e,
     evKind = toValidUTF8 (evKind e), evBinding = stored (evBinding e),
     evObservation = map_option storedObservation (evObservation e)\<rparr>"

lemma encObservation_obj: "encObservation x \<noteq> JNull"
  by (simp add: encObservation_def encTable_def)

lemma decEvent_encEvent:
  assumes "eventInts e"
  shows "decEvent zeroEvent (encEvent e) = Inr (storedEvent e)"
proof -
  have seen: "(case map_option encObservation (evObservation e) of None \<Rightarrow> Inr None
      | Some j \<Rightarrow> decPtr decObservation zeroObservation None j) =
      Inr (map_option storedObservation (evObservation e))"
    using assms encObservation_obj
    by (cases "evObservation e") (auto simp: eventInts_def decPtr_def decObservation_encObservation)
  show ?thesis
    using assms seen
    unfolding encEvent_def decEvent_def decStruct_table foldR_fields eventInts_def
    by (simp add: decField_written [OF event_lower] read_omit read_always decBinding_encBinding zeroEvent_def
        storedEvent_def del: decString.simps decInt.simps decUint64.simps)
qed

section \<open>Big-endian keys\<close>

lemma beBytes_Suc: "beBytes (Suc k) n = (n div 256 ^ k mod 256) # beBytes k n"
proof -
  have "[0..<Suc k] = 0 # map Suc [0..<k]" by (simp add: upt_conv_Cons map_Suc_upt del: upt_Suc)
  then show ?thesis by (simp add: beBytes_def del: upt_Suc)
qed

lemma ofBytes_beBytes: "foldl (\<lambda>a b. a * 256 + b) acc (beBytes k n) = acc * 256 ^ k + n mod 256 ^ k"
proof (induction k arbitrary: acc)
  case 0
  then show ?case by (simp add: beBytes_def)
next
  case (Suc k)
  have "n mod 256 ^ Suc k = (n div 256 ^ k mod 256) * 256 ^ k + n mod 256 ^ k"
    using mod_mult2_eq [of n "256 ^ k" 256] by (simp add: mult.commute add.commute)
  moreover have "foldl (\<lambda>a b. a * 256 + b) acc (beBytes (Suc k) n) =
      (acc * 256 + n div 256 ^ k mod 256) * 256 ^ k + n mod 256 ^ k"
    by (simp add: beBytes_Suc Suc.IH)
  ultimately show ?case by (simp add: distrib_right)
qed

lemma foldl_chars:
  "list_all (\<lambda>b. b < 256) bs \<Longrightarrow>
     foldl (\<lambda>a c. a * 256 + of_char c) acc (map char_of bs) = foldl (\<lambda>a b. a * 256 + b) acc (bs :: nat list)"
  by (induction bs arbitrary: acc) (auto simp: of_char_of mod_less)

lemma getUint64_putUint64 [simp]: "getUint64 (putUint64 n @ r) = n mod 2 ^ 64" "getUint64 (putUint64 n) = n mod 2 ^ 64"
proof -
  have "foldl (\<lambda>a c. a * 256 + of_char c) 0 (map char_of (beBytes 8 (n mod 2 ^ 64))) = n mod (2 :: nat) ^ 64"
    unfolding foldl_chars [OF beBytes_bound] ofBytes_beBytes by simp
  then show "getUint64 (putUint64 n @ r) = n mod 2 ^ 64" "getUint64 (putUint64 n) = n mod 2 ^ 64"
    by (simp_all add: getUint64_def putUint64_def)
qed

lemma putUint64_inj: "putUint64 m = putUint64 n \<longleftrightarrow> m mod 2 ^ 64 = n mod 2 ^ 64"
proof
  assume "putUint64 m = putUint64 n"
  then have "getUint64 (putUint64 m) = getUint64 (putUint64 n)" by (rule arg_cong)
  then show "m mod 2 ^ 64 = n mod 2 ^ 64" by (simp only: getUint64_putUint64)
next
  assume "m mod 2 ^ 64 = n mod 2 ^ 64"
  then show "putUint64 m = putUint64 n" by (simp only: putUint64_def)
qed

lemma asInt64_asUint64: "int64 i \<Longrightarrow> asInt64 (asUint64 i mod 2 ^ 64) = i"
proof (cases "0 \<le> i")
  case False
  assume "int64 i"
  then have "i mod 2 ^ 64 = i + 2 ^ 64" using False mod_pos_pos_trivial [of "i + 2 ^ 64" "2 ^ 64"] by (simp add: int64_def)
  then show ?thesis using False \<open>int64 i\<close> by (simp add: int64_def asInt64_def asUint64_def)
qed (simp add: int64_def asInt64_def asUint64_def)

lemma expiryKey_parts:
  assumes "int64 (bEnd b)"
  shows "asInt64 (getUint64 (expiryKey b)) = bEnd b" "drop 8 (expiryKey b) = keyOf b"
proof -
  show "asInt64 (getUint64 (expiryKey b)) = bEnd b"
    using asInt64_asUint64 [OF assms] by (simp only: expiryKey_def getUint64_putUint64)
  show "drop 8 (expiryKey b) = keyOf b"
    by (simp add: expiryKey_def keyOf_def putUint64_def beBytes_def)
qed

end
