(* ===== verification/Book_Log.thy ===== *)
theory Book_Log
  imports Book_Codec
begin

text \<open>
  The event log of the ledger.  Replaying the log from the beginning gives the ledger: every
  change of a binding leaves the event that carries it, and every event decodes.
\<close>

section \<open>Text that has been stored once\<close>

lemma contBytes_Cons: "contBytes (Suc n) (a # s) \<longleftrightarrow> byteIn a 128 191 \<and> contBytes n s" "contBytes 0 s"
  by (auto simp: contBytes_def)

lemma contBytes_three: "contBytes 3 (a # b # d # s) \<longleftrightarrow> byteIn a 128 191 \<and> byteIn b 128 191 \<and> byteIn d 128 191"
  by (simp add: numeral_3_eq_3 contBytes_Cons)

lemma runeLen_bound: "runeLen s \<le> length s"
  by (cases s) (auto simp: Let_def contBytes_def)

lemma runeLen_kinds:
  assumes "runeLen (c # s) = n" "n \<noteq> 0"
  obtains "n = 1" "byteIn c 0 127" | "n = 2" "\<not> byteIn c 0 127" "byteIn c 194 223" | "n = 3" "byteIn c 224 239"
    | "n = 4" "byteIn c 240 244"
  using assms by (auto simp: Let_def split: if_splits)

lemma byteIn_disjoint: "byteIn c a b \<Longrightarrow> b < a' \<Longrightarrow> \<not> byteIn c a' b'" "byteIn c a b \<Longrightarrow> b' < a \<Longrightarrow> \<not> byteIn c a' b'"
  by (auto simp: byteIn_def)

lemma runeLen_take:
  assumes "runeLen s \<noteq> 0"
  shows "runeLen (take (runeLen s) s @ r) = runeLen s"
proof (cases s)
  case (Cons c s')
  have long: "runeLen s \<le> Suc (length s')" using runeLen_bound [of s] Cons by simp
  consider "runeLen s = 1" "byteIn c 0 127" | "runeLen s = 2" "\<not> byteIn c 0 127" "byteIn c 194 223"
    | "runeLen s = 3" "byteIn c 224 239" | "runeLen s = 4" "byteIn c 240 244"
    using runeLen_kinds [of c s' "runeLen s"] assms Cons by blast
  then show ?thesis
  proof cases
    case 1
    then show ?thesis using Cons by simp
  next
    case 2
    then obtain a x where "s' = a # x" using long by (cases s') auto
    then show ?thesis using Cons 2 by (simp add: contBytes_Cons numeral_2_eq_2 split: if_splits)
  next
    case 3
    then obtain a b x where "s' = a # b # x" using long by (cases s'; cases "tl s'") auto
    then show ?thesis using Cons 3 byteIn_disjoint(2) [OF 3(2)]
      by (simp add: contBytes_Cons numeral_2_eq_2 numeral_3_eq_3 Let_def split: if_splits)
  next
    case 4
    then obtain a b d x where "s' = a # b # d # x"
      using long by (cases s'; cases "tl s'"; cases "tl (tl s')") auto
    then show ?thesis using Cons 4 byteIn_disjoint(2) [OF 4(2)] by (simp add: contBytes_three Let_def split: if_splits)
  qed
qed (use assms in simp)

lemma toValidUTF8_valid: "validUTF8 (toValidUTF8 s)"
proof (induction s rule: toValidUTF8.induct)
  case (1 s)
  consider "s = []" | "s \<noteq> []" "runeLen s = 0" | "s \<noteq> []" "runeLen s \<noteq> 0" by blast
  then show ?case
  proof cases
    case 1
    then show ?thesis by (simp add: toValidUTF8.simps [of "[]"] validUTF8.simps [of "[]"])
  next
    case 2
    have "runeLen ([CHR 0xEF, CHR 0xBF, CHR 0xBD] @ toValidUTF8 (tl s)) = 3"
      by (simp add: Let_def byteIn_def contBytes_def numeral_2_eq_2)
    then show ?thesis
      using "1.IH"(1) [OF 2] 2 by (subst toValidUTF8.simps, subst validUTF8.simps) (simp add: numeral_3_eq_3)
  next
    case 3
    have "runeLen (take (runeLen s) s @ toValidUTF8 (drop (runeLen s) s)) = runeLen s"
      by (rule runeLen_take [OF 3(2)])
    then show ?thesis
      using "1.IH"(2) [OF 3] 3 runeLen_bound [of s]
      by (subst toValidUTF8.simps, subst validUTF8.simps) (simp add: min_def)
  qed
qed

lemma toValidUTF8_idem: "toValidUTF8 (toValidUTF8 s) = toValidUTF8 s"
  by (rule toValidUTF8_id) (rule toValidUTF8_valid)

lemma stored_idem: "stored (stored b) = stored b"
  by (simp add: stored_def toValidUTF8_idem)

section \<open>The log\<close>

definition eventNo :: "'t bolt \<Rightarrow> 't \<Rightarrow> nat \<Rightarrow> event option" where
  "eventNo B t i = (case eventAt B t i of
       None \<Rightarrow> None
     | Some raw \<Rightarrow> (case bindR (unmarshal raw) (decEvent zeroEvent) of Inl _ \<Rightarrow> None | Inr e \<Rightarrow> Some e))"

definition applyLogged :: "event \<Rightarrow> (string \<rightharpoonup> binding) \<Rightarrow> (string \<rightharpoonup> binding)" where
  "applyLogged e m =
     (if evObservation e = None \<and> bScope (evBinding e) \<noteq> [] then m(keyOf (evBinding e) \<mapsto> evBinding e) else m)"

primrec replay :: "(nat \<Rightarrow> event option) \<Rightarrow> nat \<Rightarrow> (string \<rightharpoonup> binding)" where
  "replay f 0 = Map.empty"
| "replay f (Suc n) = (case f (Suc n) of None \<Rightarrow> replay f n | Some e \<Rightarrow> applyLogged e (replay f n))"

definition keyedEvent :: "event \<Rightarrow> bool" where
  "keyedEvent e = (bScope (evBinding e) \<noteq> [] \<longrightarrow>
     evObservation e = None \<and> keyOk (evBinding e) \<and> stored (evBinding e) = evBinding e)"

text \<open>The log of a ledger with fewer than \<open>2 ^ 63\<close> events: complete, numbered, and equal to the ledger.\<close>

definition logOk :: "'t bolt \<Rightarrow> 't \<Rightarrow> bool" where
  "logOk B t = (bktSeq B eventBucket t < 2 ^ 63 \<longrightarrow>
     (\<forall>k v. bktGet B eventBucket k t = Some v \<longrightarrow> (\<exists>i. 1 \<le> i \<and> i \<le> bktSeq B eventBucket t \<and> k = putUint64 i)) \<and>
     (\<forall>i. 1 \<le> i \<longrightarrow> i \<le> bktSeq B eventBucket t \<longrightarrow>
        (\<exists>e. eventNo B t i = Some e \<and> evID e = i \<and> eventInts e \<and> keyedEvent e)) \<and>
     bindingAt B t = replay (eventNo B t) (bktSeq B eventBucket t))"

lemma storedEvent_ints: "eventInts e \<Longrightarrow> eventInts (storedEvent e)"
  by (auto simp: eventInts_def storedEvent_def stored_def observationInts_def storedObservation_def)

lemma replay_cong: "(\<And>i. 1 \<le> i \<Longrightarrow> i \<le> n \<Longrightarrow> f i = g i) \<Longrightarrow> replay f n = replay g n"
  by (induction n) (auto split: option.splits)

lemma putUint64_small: "m < 2 ^ 63 \<Longrightarrow> n < 2 ^ 63 \<Longrightarrow> putUint64 m = putUint64 n \<longleftrightarrow> m = n"
  unfolding putUint64_inj by simp

lemma eventNo_written:
  assumes "eventAt B t i = Some (Json (encEvent e))" "eventInts e"
  shows "eventNo B t i = Some (storedEvent e)"
  by (simp add: eventNo_def assms(1) unmarshal_def decEvent_encEvent [OF assms(2)])

lemma log_append:
  assumes log: "logOk B t" and n: "n = bktSeq B eventBucket t" "bktSeq B eventBucket t' = Suc n"
    and get: "\<And>k. bktGet B eventBucket k t' =
      (if k = putUint64 (Suc n) then Some (Json (encEvent e)) else bktGet B eventBucket k t)"
    and e: "eventInts e" "evID e = Suc n" "keyedEvent (storedEvent e)"
    and at: "bindingAt B t' = applyLogged (storedEvent e) (bindingAt B t)"
  shows "logOk B t'"
proof (cases "Suc n < 2 ^ 63")
  case True
  have seq: "bktSeq B eventBucket t < 2 ^ 63" using True n by simp
  note old = log [unfolded logOk_def, rule_format, OF seq, folded n(1)]
  have new: "eventNo B t' (Suc n) = Some (storedEvent e)"
    by (rule eventNo_written [OF _ e(1)]) (simp add: eventAt_def get)
  have same: "eventNo B t' i = eventNo B t i" if "i \<le> n" for i
    using that True by (simp add: eventNo_def eventAt_def get putUint64_small)
  have "replay (eventNo B t') n = replay (eventNo B t) n" by (rule replay_cong) (simp add: same)
  then have map: "bindingAt B t' = replay (eventNo B t') (Suc n)" using old new at by simp
  have keys: "\<exists>i. 1 \<le> i \<and> i \<le> Suc n \<and> k = putUint64 i" if "bktGet B eventBucket k t' = Some v" for k v
  proof (cases "k = putUint64 (Suc n)")
    case False
    then have "bktGet B eventBucket k t = Some v" using that get by simp
    then obtain i where "1 \<le> i" "i \<le> n" "k = putUint64 i" using old by blast
    then show ?thesis by (intro exI [of _ i]) simp
  qed (intro exI [of _ "Suc n"], simp)
  have all: "\<exists>e. eventNo B t' i = Some e \<and> evID e = i \<and> eventInts e \<and> keyedEvent e" if "1 \<le> i" "i \<le> Suc n" for i
  proof (cases "i = Suc n")
    case True
    then show ?thesis using new e storedEvent_ints [OF e(1)] by (simp add: storedEvent_def)
  next
    case False
    then show ?thesis using old that same [of i] by simp
  qed
  show ?thesis unfolding logOk_def n(2) using keys all map by blast
qed (simp add: logOk_def n(2))

lemma logOk_cong:
  assumes "\<And>k. bktGet B eventBucket k t' = bktGet B eventBucket k t" "bktSeq B eventBucket t' = bktSeq B eventBucket t"
    "bindingAt B t' = bindingAt B t"
  shows "logOk B t' = logOk B t"
proof -
  have "eventNo B t' = eventNo B t" by (rule ext) (simp add: eventNo_def eventAt_def assms(1))
  then show ?thesis by (simp add: logOk_def assms)
qed

end
