(* ===== verification/Book_Steps.thy ===== *)
theory Book_Steps
  imports Book_Log
begin

text \<open>
  What the operations of the address book do to the whole ledger: each keeps the invariant of
  bindings, indexes, associations and log, and none takes an active lease from its client
  before its end.
\<close>

section \<open>Growth of a ledger\<close>

definition wholeOk :: "'t bolt \<Rightarrow> 't \<Rightarrow> bool" where
  "wholeOk B t = (ledgerOk B t \<and> logOk B t)"

definition sane :: "'t book \<Rightarrow> bool" where
  "sane s = (\<forall>i. saneTime (wall s i))"

text \<open>An active lease that has not ended at the instant \<open>now\<close>.\<close>

definition holds :: "'t bolt \<Rightarrow> 't \<Rightarrow> int \<Rightarrow> string \<Rightarrow> string \<Rightarrow> bool" where
  "holds B t now k client = (\<exists>x. bindingAt B t k = Some x \<and> heldBy x client now)"

definition keeps :: "'t bolt \<Rightarrow> int \<Rightarrow> (string \<times> string) set \<Rightarrow> 't \<Rightarrow> 't \<Rightarrow> bool" where
  "keeps B now given t t' = (\<forall>k client. holds B t now k client \<longrightarrow> (k, client) \<notin> given \<longrightarrow> holds B t' now k client)"

definition grows :: "'t bolt \<Rightarrow> int \<Rightarrow> (string \<times> string) set \<Rightarrow> 't book \<Rightarrow> 't book \<Rightarrow> bool" where
  "grows B now given s s' = (wholeOk B (db s) \<longrightarrow> sane s \<longrightarrow>
     wall s' = wall s \<and> wholeOk B (db s') \<and> keeps B now given (db s) (db s'))"

lemma growsI:
  assumes "wholeOk B (db s) \<Longrightarrow> sane s \<Longrightarrow> grows B now given s s'"
  shows "grows B now given s s'"
  using assms by (auto simp: grows_def)

lemma keeps_refl: "keeps B now given t t"
  by (simp add: keeps_def)

lemma keeps_same: "bindingAt B t' = bindingAt B t \<Longrightarrow> keeps B now given t t'"
  by (simp add: keeps_def holds_def)

lemma grows_refl: "grows B now given s s" "wall s' = wall s \<Longrightarrow> db s' = db s \<Longrightarrow> grows B now given s s'"
  by (simp_all add: grows_def keeps_refl)

lemma grows_trans: "grows B now given s s' \<Longrightarrow> grows B now given s' s'' \<Longrightarrow> grows B now given s s''"
  by (simp add: grows_def keeps_def sane_def)

lemma grows_tick: "grows B now given (s\<lparr>reads := n\<rparr>) s' \<Longrightarrow> grows B now given s s'"
  by (simp add: grows_def sane_def)

lemma grows_eachM:
  assumes "eachM f xs s = (Done u, s')"
    "\<And>x s v s'. x \<in> set xs \<Longrightarrow> f x s = (Done v, s') \<Longrightarrow> grows B now given s s'"
  shows "grows B now given s s'"
  using assms
proof (induction xs arbitrary: s)
  case Nil
  then show ?case by (simp add: grows_refl)
next
  case (Cons x xs)
  obtain v s1 where one: "f x s = (Done v, s1)" and rest: "eachM f xs s1 = (Done u, s')"
    using Cons.prems(1) by (auto simp: bindM_Done)
  have "grows B now given s1 s'"
    by (rule Cons.IH [OF rest]) (use Cons.prems(2) in auto)
  with Cons.prems(2) [OF _ one] show ?case by (auto intro: grows_trans)
qed

text \<open>A write outside the buckets of bindings, indexes, associations and events.\<close>

definition farBucket :: "string \<Rightarrow> bool" where
  "farBucket bk = (asideBucket bk \<and> bk \<noteq> associationBucket)"

lemma far_buckets: "farBucket metaBucket" "farBucket observationBucket" "farBucket nodeBucket"
  by (simp_all add: farBucket_def asideBucket_def derivedBuckets_def indexBuckets_def bucket_defs metaBucket_def)

lemma wholeOk_cong:
  assumes get: "\<And>bk k. \<not> farBucket bk \<Longrightarrow> bktGet B bk k t' = bktGet B bk k t"
    and seq: "bktSeq B eventBucket t' = bktSeq B eventBucket t"
  shows "wholeOk B t' = wholeOk B t" "bindingAt B t' = bindingAt B t"
proof -
  have near: "\<not> farBucket leaseBucket" "bk \<in> set derivedBuckets \<Longrightarrow> \<not> farBucket bk" "\<not> farBucket eventBucket"
    "\<not> farBucket associationBucket" for bk
    by (auto simp: farBucket_def asideBucket_def)
  note book = bookOk_cong [of B t' t, OF get [OF near(1)] get [OF near(2)]]
  show "bindingAt B t' = bindingAt B t" by (rule book(2))
  have "assocOk B t' = assocOk B t" by (simp add: assocOk_def get [OF near(4)])
  moreover have "logOk B t' = logOk B t" by (rule logOk_cong [OF get [OF near(3)] seq book(2)])
  ultimately show "wholeOk B t' = wholeOk B t" by (simp add: wholeOk_def ledgerOk_def book(1))
qed

context bolt_laws
begin

lemma grows_far:
  assumes "farBucket bk" "bktPut B bk k v (db s) = (Done u, t)"
  shows "grows B now given s (s\<lparr>db := t\<rparr>)"
proof -
  have "bktGet B c j t = bktGet B c j (db s)" if "\<not> farBucket c" for c j
    using put_get [OF assms(2), of c j] that assms(1) by auto
  from wholeOk_cong [of B t "db s", OF this put_seq [OF assms(2)]] show ?thesis
    by (simp add: grows_def keeps_same)
qed

lemma grows_create:
  assumes "bktCreate B bk (db s) = (Done u, t)"
  shows "grows B now given s (s\<lparr>db := t\<rparr>)"
  using wholeOk_cong [of B t "db s", OF create_get [OF assms] create_seq [OF assms]]
  by (simp add: grows_def keeps_same)

text \<open>Saving a binding grows the ledger when it does not take the lease of another client.\<close>

lemma grows_save:
  assumes save: "save B b kind s = (Done u, s')"
    and key: "wholeOk B (db s) \<Longrightarrow> sane s \<Longrightarrow> keyOk b"
    and lease: "\<And>x client. wholeOk B (db s) \<Longrightarrow> sane s \<Longrightarrow> bindingAt B (db s) (keyOf b) = Some x \<Longrightarrow>
      heldBy x client now \<Longrightarrow> (keyOf b, client) \<notin> given \<Longrightarrow> heldBy b client now"
  shows "grows B now given s s'"
proof -
  have wall: "wall s' = wall s" using save by (auto simp: save_def book_run)
  have "wholeOk B (db s') \<and> keeps B now given (db s) (db s')" if ok: "wholeOk B (db s)" and sane: "sane s"
  proof -
    have book: "bookOk B (db s)" "assocOk B (db s)" "logOk B (db s)"
      using ok by (simp_all add: wholeOk_def ledgerOk_def)
    have kb: "keyOk b" by (rule key [OF ok sane])
    note eff = save_effect [OF book(1) kb save]
    let ?n = "bktSeq B eventBucket (db s)"
    let ?e = "(bindingEvent (wall s (reads s)) kind b)\<lparr>evID := Suc ?n\<rparr>"
    have "assocOk B (db s')"
      using book(2) eff(3) [OF asideAssociation] by (simp add: assocOk_def)
    moreover have "logOk B (db s')"
    proof (cases "Suc ?n < 2 ^ 63")
      case True
      show ?thesis
      proof (rule log_append [OF book(3) refl eff(4,5)])
        show "eventInts ?e"
          using kb sane True saneTime_int64(2)
          by (auto simp: eventInts_def bindingEvent_def zeroEvent_def keyOk_def sane_def)
        show "keyedEvent (storedEvent ?e)"
          using stored_keys(3) [OF kb]
          by (simp add: keyedEvent_def storedEvent_def bindingEvent_def zeroEvent_def stored_idem)
        show "bindingAt B (db s') = applyLogged (storedEvent ?e) (bindingAt B (db s))"
          using eff(2) stored_keys(1) [OF kb] stored_plain(1) [OF kb] kb
          by (simp add: applyLogged_def storedEvent_def bindingEvent_def zeroEvent_def keyOk_def)
      qed simp
    qed (simp add: logOk_def eff(4))
    moreover have "keeps B now given (db s) (db s')"
      unfolding keeps_def holds_def
    proof (intro allI impI, elim exE conjE)
      fix k client x
      assume x: "bindingAt B (db s) k = Some x" "heldBy x client now" "(k, client) \<notin> given"
      show "\<exists>y. bindingAt B (db s') k = Some y \<and> heldBy y client now"
      proof (cases "k = keyOf b")
        case True
        then have "heldBy b client now" using lease [OF ok sane] x by simp
        then show ?thesis using True eff(2) stored_plain [OF kb] by (simp add: heldBy_def)
      next
        case False
        then show ?thesis using x eff(2) by simp
      qed
    qed
    ultimately show ?thesis using eff(1) by (simp add: wholeOk_def ledgerOk_def)
  qed
  then show ?thesis using wall by (simp add: grows_def)
qed

text \<open>Appending an event that carries no binding.\<close>

lemma grows_append:
  assumes run: "appendEvent B e (db s) = (Done u, t)" and none: "bScope (evBinding e) = []"
    and ints: "\<And>i. sane s \<Longrightarrow> i < 2 ^ 64 \<Longrightarrow> eventInts (e\<lparr>evID := i\<rparr>)"
  shows "grows B now given s (s\<lparr>db := t\<rparr>)"
proof -
  obtain i t1 where one: "bktNext B eventBucket (db s) = (Done i, t1)"
    and two: "bktPut B eventBucket (putUint64 i) (Json (encEvent (e\<lparr>evID := i\<rparr>))) t1 = (Done (), t)"
    using run by (auto simp: appendEvent_def bindM_Done)
  let ?n = "bktSeq B eventBucket (db s)"
  have i: "i = Suc ?n" by (rule next_val [OF one])
  have get: "bktGet B bk k t = (if bk = eventBucket \<and> k = putUint64 (Suc ?n)
      then Some (Json (encEvent (e\<lparr>evID := Suc ?n\<rparr>))) else bktGet B bk k (db s))" for bk k
    using put_get [OF two] next_get [OF one] i by simp
  have near: "bktGet B bk k t = bktGet B bk k (db s)" if "bk \<noteq> eventBucket" for bk k using get that by simp
  have "eventBucket \<noteq> leaseBucket" "\<And>bk. bk \<in> set derivedBuckets \<Longrightarrow> bk \<noteq> eventBucket"
    "associationBucket \<noteq> eventBucket"
    using other_buckets(5,6) by (auto simp: bucket_defs)
  note book = bookOk_cong [of B t "db s", OF near [OF this(1) [symmetric]] near [OF this(2)]]
    and assoc = near [OF this(3)]
  have "wholeOk B t" if ok: "wholeOk B (db s)" and sane: "sane s"
  proof -
    have "logOk B t"
    proof (cases "Suc ?n < 2 ^ 63")
      case True
      show ?thesis
      proof (rule log_append [where e = "e\<lparr>evID := Suc ?n\<rparr>" and t = "db s"])
        show "eventInts (e\<lparr>evID := Suc ?n\<rparr>)" by (rule ints [OF sane]) (use True in simp)
        show "keyedEvent (storedEvent (e\<lparr>evID := Suc ?n\<rparr>))"
          using none by (simp add: keyedEvent_def storedEvent_def stored_def toValidUTF8.simps [of "[]"])
        show "bindingAt B t = applyLogged (storedEvent (e\<lparr>evID := Suc ?n\<rparr>)) (bindingAt B (db s))"
          using none by (simp add: applyLogged_def storedEvent_def stored_def toValidUTF8.simps [of "[]"] book(2))
        show "bktSeq B eventBucket t = Suc ?n" using put_seq [OF two] next_seq [OF one] by simp
      qed (use ok get in \<open>simp_all add: wholeOk_def\<close>)
    next
      case False
      then show ?thesis using put_seq [OF two] next_seq [OF one] by (simp add: logOk_def)
    qed
    then show ?thesis using ok by (simp add: wholeOk_def ledgerOk_def book(1) assocOk_def assoc)
  qed
  then show ?thesis by (simp add: grows_def keeps_same book(2))
qed

text \<open>A transaction: what its body grows, or nothing.\<close>

lemma Update_grows:
  assumes "Update B body s = (r, s')" "\<And>a t. body s = (Done a, t) \<Longrightarrow> grows B now given s t"
    "wholeOk B (db s)" "sane s"
  shows "wholeOk B (db s') \<and> keeps B now given (db s) (db s')"
  by (rule Update_inv [where I = "\<lambda>t. wholeOk B t \<and> keeps B now given (db s) t", OF _ _ assms(1)])
    (use assms(2-4) in \<open>auto simp: grows_def keeps_refl\<close>)

end

end
