(* ===== verification/Book_Operations.thy ===== *)
theory Book_Operations
  imports Book_Steps
begin

text \<open>
  Every operation of the address book grows the ledger: allocation and its renewals, release,
  expiry, import, repair and observation, each under a validated configuration.
\<close>

definition configOk :: "config \<Rightarrow> bool" where
  "configOk c = (Validate c = Inr ())"

lemma configOk_scope: "configOk c \<Longrightarrow> cScope c i = Some s \<Longrightarrow> scopeOk c s \<and> sID s = i"
  using cScope_Some Validate_facts(1) by (fastforce simp: configOk_def)

lemma configOk_named: "configOk c \<Longrightarrow> namedDevices c"
  using Validate_facts(2) by (simp add: configOk_def)

lemma wholeOk_parts: "wholeOk B t \<Longrightarrow> ledgerOk B t" "wholeOk B t \<Longrightarrow> bookOk B t" "wholeOk B t \<Longrightarrow> assocOk B t"
  by (simp_all add: wholeOk_def ledgerOk_def)

lemma sane_now: "sane s \<Longrightarrow> saneTime (wall s i)"
  by (simp add: sane_def)

lemma heldBy_live: "heldBy x client now \<Longrightarrow> liveState (bState x)"
  by (simp add: heldBy_def liveState_def)

lemma checkRequest_Inr:
  assumes "checkRequest c sc client mac = Inr (s, mac')"
  shows "cScope c sc = Some s" "plain client" "client \<noteq> []" "plain mac'" "sEnabled s"
proof -
  have v: "validClient client" using assms by (auto simp: checkRequest_def bindR_Inr split: option.splits if_splits)
  then show "plain client" by (rule validClient_plain)
  show "client \<noteq> []"
  proof
    assume "client = []"
    moreover have "\<not> validClient []" by code_simp
    ultimately show False using v by simp
  qed
  show "cScope c sc = Some s" "sEnabled s"
    using assms by (auto simp: checkRequest_def bindR_Inr split: option.splits if_splits)
  show "plain mac'"
    using assms by (auto simp: checkRequest_def bindR_Inr intro: ParseMAC_plain split: option.splits if_splits)
qed

context bolt_laws
begin

section \<open>Allocation\<close>

lemma allocateTx_grows:
  assumes run: "allocateTx B c s client mac claimed requested commit now st = (Done b, st')"
    and c: "scopeOk c s" "namedDevices c" and plain: "plain client" "client \<noteq> []" "plain mac" "plain requested"
    and now: "sane st \<Longrightarrow> saneTime now"
  shows "grows B now {} st st'"
proof (rule growsI)
  assume ok: "wholeOk B (db st)" and sane: "sane st"
  note res = allocateTx_Done [OF wholeOk_parts(1) [OF ok] c plain now [OF sane] run]
  have free: "freeFor B (db st) (sID s) client now (bAddress b)"
    using res(1) available_iff [OF wholeOk_parts(2) [OF ok]] by simp
  consider kind where "save B b kind st = (Done (), st')"
      "commit \<or> (\<forall>x. bindingAt B (db st) (keyOf b) = Some x \<longrightarrow> \<not> heldBy x client now)"
    | "st' = st" using res(6) by blast
  then show "grows B now {} st st'"
  proof cases
    case 1
    show ?thesis
    proof (rule grows_save [OF 1(1) res(4)])
      fix x other
      assume at: "bindingAt B (db st) (keyOf b) = Some x" and held: "heldBy x other now"
      have "bClient x = client"
        using free at held heldBy_live [OF held] res(2) by (auto simp: freeFor_def keyOf_def heldBy_def)
      then have "other = client" "commit" using held 1(2) at by (auto simp: heldBy_def)
      then show "heldBy b other now" using res(3,5) c(1) by (simp add: heldBy_def scopeOk_def)
    qed
  qed (simp add: grows_refl)
qed

lemma Allocate_grows:
  assumes run: "Allocate B c sc client mac claimed requested commit st = (r, st')"
    and c: "configOk c" and plain: "plain requested" and ok: "wholeOk B (db st)" "sane st"
  shows "wholeOk B (db st') \<and> keeps B (wall st (reads st)) {} (db st) (db st')"
proof (cases "checkRequest c sc client mac")
  case (Inl e)
  then show ?thesis using run ok by (auto simp: Allocate_def prog_defs keeps_refl)
next
  case (Inr p)
  obtain s mac' where p: "p = (s, mac')" by (cases p)
  note req = checkRequest_Inr [OF Inr [unfolded p]]
  have s: "scopeOk c s" using configOk_scope [OF c req(1)] by simp
  let ?st = "st\<lparr>reads := Suc (reads st)\<rparr>"
  have "Update B (allocateTx B c s client mac' claimed requested commit (wall st (reads st))) ?st = (r, st')"
    using run Inr p by (simp add: Allocate_def prog_defs bookNow_def)
  from Update_grows [OF this, of "wall st (reads st)" "{}"]
    allocateTx_grows [OF _ s configOk_named [OF c] req(2-4) plain, of claimed commit "wall st (reads st)" ?st]
  show ?thesis using ok by (simp add: sane_def)
qed

section \<open>Release and decline\<close>

lemma releaseTx_grows:
  assumes run: "releaseTx B sc client ip decline now st = (Done u, st')"
    and now: "sane st \<Longrightarrow> saneTime now"
  shows "grows B now {(bindingKey sc ip, client)} st st'"
proof (rule growsI)
  assume ok: "wholeOk B (db st)" and sane: "sane st"
  note book = wholeOk_parts(2) [OF ok]
  obtain b kind b' where b: "readBinding B sc ip (db st) = Inr b" "bClient b = client" "now < bEnd b"
      "bState b = ''active'' \<or> bState b = ''offered''"
    and saved: "save B b' kind st = (Done (), st')"
    and b': "b' = b\<lparr>bState := ''declined'', bEnd := now + 600\<rparr> \<or> b' = b\<lparr>bState := ''released'', bEnd := now\<rparr>"
    using run by (auto simp: releaseTx_def book_run split: if_splits)
  have at: "bindingAt B (db st) (bindingKey sc ip) = Some b"
    using b bookOk_read [OF book] by (auto simp: zeroBinding_def split: option.splits)
  have key: "keyOk b" "keyOf b = bindingKey sc ip" using bookOk_at [OF book at] by auto
  have "int64 (now + 600)" "int64 now" using now [OF sane] by (auto intro: saneTime_int64)
  then have "keyOk b'" "keyOf b' = bindingKey sc ip" using key b' by (auto simp: keyOk_def keyOf_def)
  then show "grows B now {(bindingKey sc ip, client)} st st'"
    by (intro grows_save [OF saved]) (use at b(2) in \<open>auto simp: heldBy_def\<close>)
qed

lemma Release_grows:
  assumes run: "Release B sc client ip decline st = (r, st')" and ok: "wholeOk B (db st)" "sane st"
  shows "wholeOk B (db st') \<and> keeps B (wall st (reads st)) {(bindingKey sc ip, client)} (db st) (db st')"
proof -
  let ?st = "st\<lparr>reads := Suc (reads st)\<rparr>"
  have "Update B (releaseTx B sc client ip decline (wall st (reads st))) ?st = (r, st')"
    using run by (simp add: Release_def prog_defs bookNow_def)
  from Update_grows [OF this, of "wall st (reads st)" "{(bindingKey sc ip, client)}"] releaseTx_grows
  show ?thesis using ok by (simp add: sane_def)
qed

section \<open>Expiry\<close>

lemma derived_expiry: "(expiryBucket, k, v) \<in> set (derived b) \<Longrightarrow> liveState (bState b) \<and> k = expiryKey b"
  using index_bucket [of expiryBucket k b] other_buckets(2,4) by (auto simp: derived_mem)

lemma grows_stale:
  assumes del: "bktDelete B expiryBucket k (db s) = (Done u, t)"
    and stale: "\<And>j b. wholeOk B (db s) \<Longrightarrow> bindingAt B (db s) j = Some b \<Longrightarrow> liveState (bState b) \<Longrightarrow> expiryKey b \<noteq> k"
  shows "grows B now given s (s\<lparr>db := t\<rparr>)"
proof -
  note get = del_get [OF del]
  have at: "bindingAt B t = bindingAt B (db s)"
    using other_buckets(8) by (intro ext) (simp add: bindingAt_def get)
  have "wholeOk B t" if ok: "wholeOk B (db s)"
  proof -
    have "bookOk B t"
      unfolding bookOk_def at
    proof (intro conjI ballI allI impI)
      fix j raw
      assume "bktGet B leaseBucket j t = Some raw"
      then show "\<exists>b. unmarshalBinding raw = Inr b \<and> keyOk b \<and> keyOf b = j"
        using wholeOk_parts(2) [OF ok] other_buckets(8) by (simp add: get bookOk_def)
    next
      fix bk j v
      assume bk: "bk \<in> set derivedBuckets"
      show "bktGet B bk j t = Some v \<longleftrightarrow>
          (\<exists>i b. bindingAt B (db s) i = Some b \<and> (bk, j, v) \<in> set (derived b))"
      proof (cases "bk = expiryBucket \<and> j = k")
        case True
        then have "(bk, j, v) \<notin> set (derived b)" if "bindingAt B (db s) i = Some b" for i b
          using stale [OF ok that] derived_expiry [of j v b] by auto
        then show ?thesis using True by (auto simp: get)
      next
        case False
        then show ?thesis using wholeOk_parts(2) [OF ok] bk by (auto simp: get bookOk_def)
      qed
    qed
    moreover have "assocOk B t" using wholeOk_parts(3) [OF ok] by (simp add: assocOk_def get bucket_defs)
    moreover have "bktGet B eventBucket j t = bktGet B eventBucket j (db s)" for j by (simp add: get bucket_defs)
    then have "logOk B t" using ok logOk_cong [of B t "db s", OF _ del_seq [OF del] at] by (simp add: wholeOk_def)
    ultimately show ?thesis by (simp add: wholeOk_def ledgerOk_def)
  qed
  then show ?thesis by (simp add: grows_def keeps_same at)
qed

lemma expireOne_grows:
  assumes run: "expireOne B k s = (Done u, s')" and due: "asInt64 (getUint64 k) \<le> now"
  shows "grows B now {} s s'"
proof (rule growsI)
  assume ok: "wholeOk B (db s)"
  note book = wholeOk_parts(2) [OF ok]
  let ?b = "bindingAt B (db s) (drop 8 k)"
  have read: "(case bktGet B leaseBucket (drop 8 k) (db s) of None \<Rightarrow> Fail ''absent'' | Some r \<Rightarrow> unmarshalBinding r) =
      (case ?b of None \<Rightarrow> Fail ''absent'' | Some b \<Rightarrow> Inr b)"
  proof (cases "bktGet B leaseBucket (drop 8 k) (db s)")
    case (Some raw)
    then obtain b where "unmarshalBinding raw = Inr b" using book unfolding bookOk_def by blast
    then show ?thesis by (simp add: bindingAt_def Some)
  qed (simp add: bindingAt_def)
  have step: "(case (case ?b of None \<Rightarrow> Fail ''absent'' | Some b \<Rightarrow> Inr b) of
         Inl _ \<Rightarrow> inTx (bktDelete B expiryBucket k)
       | Inr b \<Rightarrow>
           if \<not> liveState (bState b) \<or> bEnd b \<noteq> asInt64 (getUint64 k)
           then inTx (bktDelete B expiryBucket k)
           else save B (b\<lparr>bState := ''expired''\<rparr>) ''expire'') s = (Done u, s')"
    using run by (simp only: expireOne_def bindM_Done getS_Done read [symmetric]) auto
  have parts: "drop 8 (expiryKey b) = j \<and> asInt64 (getUint64 (expiryKey b)) = bEnd b" if "bindingAt B (db s) j = Some b" for j b
    using bookOk_at [OF book that] expiryKey_parts [of b] by (auto simp: keyOk_def)
  show "grows B now {} s s'"
  proof (cases "\<exists>b. ?b = Some b \<and> liveState (bState b) \<and> bEnd b = asInt64 (getUint64 k)")
    case True
    then obtain b where b: "?b = Some b" "liveState (bState b)" "bEnd b = asInt64 (getUint64 k)" by blast
    have saved: "save B (b\<lparr>bState := ''expired''\<rparr>) ''expire'' s = (Done (), s')"
      using step b by simp
    show ?thesis
    proof (rule grows_save [OF saved])
      show "keyOk (b\<lparr>bState := ''expired''\<rparr>)" using bookOk_at(1) [OF book b(1)] by (simp add: keyOk_def)
    next
      fix x other
      assume at: "bindingAt B (db s) (keyOf (b\<lparr>bState := ''expired''\<rparr>)) = Some x" and held: "heldBy x other now"
      have "keyOf (b\<lparr>bState := ''expired''\<rparr>) = drop 8 k" using bookOk_at(2) [OF book b(1)] by (simp add: keyOf_def)
      then show "heldBy (b\<lparr>bState := ''expired''\<rparr>) other now"
        using at held b due by (simp add: heldBy_def)
    qed
  next
    case False
    obtain t where del: "bktDelete B expiryBucket k (db s) = (Done (), t)" and s': "s' = s\<lparr>db := t\<rparr>"
      using step False by (cases ?b) (auto simp: inTx_Done)
    have "expiryKey b \<noteq> k" if "bindingAt B (db s) j = Some b" "liveState (bState b)" for j b
      using parts [OF that(1)] that False by auto
    then show ?thesis unfolding s' by (rule grows_stale [OF del])
  qed
qed

lemma Expire_grows:
  assumes run: "Expire B st = (r, st')" and ok: "wholeOk B (db st)" "sane st"
  shows "wholeOk B (db st') \<and> keeps B (wall st (reads st)) {} (db st) (db st')"
proof -
  let ?st = "st\<lparr>reads := Suc (reads st)\<rparr>" and ?now = "wall st (reads st)"
  have upd: "Update B (bindM (getS (\<lambda>s. dueKeys B ?now (db s))) (eachM (expireOne B))) ?st = (r, st')"
    using run by (simp add: Expire_def prog_defs bookNow_def)
  have "grows B ?now {} ?st t"
    if "bindM (getS (\<lambda>s. dueKeys B ?now (db s))) (eachM (expireOne B)) ?st = (Done a, t)" for a t
  proof -
    have each: "eachM (expireOne B) (dueKeys B ?now (db st)) ?st = (Done a, t)" using that by (simp add: prog_defs)
    show ?thesis
      by (rule grows_eachM [OF each], rule expireOne_grows)
        (auto simp: dueKeys_def dest!: in_set_takeD set_takeWhileD)
  qed
  from Update_grows [OF upd this] show ?thesis using ok by (simp add: sane_def)
qed

section \<open>Audit and observations\<close>

lemma audit_grows:
  assumes run: "audit B kind message st = (r, st')" and ok: "wholeOk B (db st)" "sane st"
  shows "wholeOk B (db st') \<and> keeps B now {} (db st) (db st')"
proof -
  let ?e = "zeroEvent\<lparr>evTime := wall st (reads st), evKind := kind, evMessage := message\<rparr>"
  have "grows B now {} st t" if body: "bindM (inTx (bktNext B eventBucket)) (\<lambda>i. bindM bookNow (\<lambda>tm.
      inTx (bktPut B eventBucket (putUint64 i)
        (Json (encEvent (zeroEvent\<lparr>evID := i, evTime := tm, evKind := kind, evMessage := message\<rparr>)))))) st = (Done a, t)"
    for a t
  proof -
    have e: "?e\<lparr>evID := i\<rparr> = zeroEvent\<lparr>evID := i, evTime := wall st (reads st), evKind := kind, evMessage := message\<rparr>" for i
      by simp
    obtain d where d: "appendEvent B ?e (db st) = (Done a, d)" and t: "t = (st\<lparr>db := d\<rparr>)\<lparr>reads := Suc (reads st)\<rparr>"
      using body unfolding appendEvent_def e by (auto simp: book_run)
    have "grows B now {} st (st\<lparr>db := d\<rparr>)"
      by (rule grows_append [OF d])
        (auto simp: eventInts_def zeroEvent_def zeroBinding_def intro: saneTime_int64 dest: sane_now)
    then show ?thesis unfolding t by (rule grows_trans) (simp add: grows_refl)
  qed
  from Update_grows [OF run [unfolded audit_def] this] ok show ?thesis by simp
qed

end

end
