(* ===== verification/Book_Upkeep.thy ===== *)
theory Book_Upkeep
  imports Book_Operations
begin

text \<open>
  The same for the operations that keep identities and foreign leases: observations, repairs
  with their associations, and imports.
\<close>

section \<open>Observations\<close>

lemma decField_int64: "decField decInt n kvs cur = Inr i \<Longrightarrow> int64 cur \<Longrightarrow> int64 i"
proof (induction kvs arbitrary: cur)
  case (Cons kv kvs)
  have one: "int64 x" if "decInt cur j = Inr x" "int64 cur" for j x
    using that by (cases j) (auto simp: int64_def mismatch_def split: if_splits)
  show ?case using Cons by (cases kv) (auto split: if_splits sum.splits dest: one)
qed simp

lemma decObservation_ints: "decObservation zeroObservation j = Inr x \<Longrightarrow> observationInts x"
  unfolding decObservation_def decStruct_def decObj_def foldR_fields
  by (cases j) (auto simp: mismatch_def bindR_Inr observationInts_def zeroObservation_def dest!: decField_int64 intro: saneTime_int64)

lemma unmarshalObservation_ints: "unmarshalObservation raw = Inr x \<Longrightarrow> observationInts x"
  by (auto simp: unmarshalObservation_def bindR_Inr dest: decObservation_ints)

context bolt_laws
begin

lemma grows_observationEvent:
  assumes "bindM bookNow (\<lambda>tm. inTx (appendEvent B (observationEvent tm kind x))) s = (Done u, s')"
    "sane s \<Longrightarrow> observationInts x"
  shows "grows B now {} s s'"
proof -
  let ?s = "s\<lparr>reads := Suc (reads s)\<rparr>"
  obtain t where t: "appendEvent B (observationEvent (wall s (reads s)) kind x) (db ?s) = (Done u, t)"
    and s': "s' = ?s\<lparr>db := t\<rparr>"
    using assms(1) by (auto simp: book_run)
  have "grows B now {} ?s s'"
    unfolding s'
  proof (rule grows_append [OF t])
    fix i :: nat
    assume "sane ?s" "i < 2 ^ 64"
    then show "eventInts ((observationEvent (wall s (reads s)) kind x)\<lparr>evID := i\<rparr>)"
      using assms(2) saneTime_int64(2,3)
      by (auto simp: eventInts_def observationEvent_def zeroEvent_def zeroBinding_def sane_def)
  qed (simp add: observationEvent_def zeroEvent_def zeroBinding_def)
  then show ?thesis by (rule grows_tick)
qed

lemma prevObservation_ints: "prevObservation old = Some p \<Longrightarrow> observationInts p"
  by (auto simp: prevObservation_def dest: unmarshalObservation_ints split: option.splits sum.splits)

lemma recordObservation_grows:
  assumes run: "recordObservation B x s = (Done u, s')" and x: "sane s \<Longrightarrow> observationInts x"
  shows "grows B now {} s s'"
proof (rule growsI)
  assume sane: "sane s"
  note ints = x [OF sane]
  obtain v t where put: "bktPut B observationBucket (bindingKey (obScope x) (obAddress x)) (Json (encObservation x)) (db s) = (Done v, t)"
    and rest: "(case prevObservation (bktGet B observationBucket (bindingKey (obScope x) (obAddress x)) (db s)) of
         None \<Rightarrow> bindM bookNow (\<lambda>tm. inTx (appendEvent B (observationEvent tm ''observation'' x)))
       | Some prev \<Rightarrow>
           if \<not> supersedes x prev then ret ()
           else
             bindM (if 0 < obUntil prev
                    then bindM bookNow (\<lambda>tm. inTx (appendEvent B
                      (observationEvent tm ''observation-end'' (endedObservation x prev))))
                    else ret ()) (\<lambda>_.
             bindM bookNow (\<lambda>tm. inTx (appendEvent B (observationEvent tm ''observation'' x)))))
      (s\<lparr>db := t\<rparr>) = (Done u, s')"
    using run unfolding recordObservation_def Let_def bindM_Done [of "getS _"] bindM_Done [of "inTx (bktPut _ _ _ _)"]
      getS_Done inTx_Done by (elim exE conjE, hypsubst, blast)
  note first = grows_far [OF far_buckets(2) put]
  have "grows B now {} (s\<lparr>db := t\<rparr>) s'"
  proof (cases "prevObservation (bktGet B observationBucket (bindingKey (obScope x) (obAddress x)) (db s))")
    case None
    then show ?thesis using rest grows_observationEvent [OF _ ints] by simp
  next
    case (Some prev)
    have ended: "observationInts (endedObservation x prev)"
      using prevObservation_ints [OF Some] ints by (simp add: endedObservation_def observationInts_def)
    show ?thesis
    proof (cases "supersedes x prev")
      case True
      then obtain v m where a: "(if 0 < obUntil prev then bindM bookNow (\<lambda>tm. inTx (appendEvent B
            (observationEvent tm ''observation-end'' (endedObservation x prev)))) else ret ()) (s\<lparr>db := t\<rparr>) = (Done v, m)"
        and b: "bindM bookNow (\<lambda>tm. inTx (appendEvent B (observationEvent tm ''observation'' x))) m = (Done u, s')"
        using rest Some by (auto simp: bindM_Done [of "if _ then _ else _"])
      have "grows B now {} (s\<lparr>db := t\<rparr>) m"
        using a grows_observationEvent [OF _ ended] by (auto simp: grows_refl split: if_splits)
      then show ?thesis by (rule grows_trans) (rule grows_observationEvent [OF b ints])
    qed (use rest Some in \<open>simp add: grows_refl\<close>)
  qed
  then show "grows B now {} s s'" by (rule grows_trans [OF first])
qed

lemma observeOne_grows:
  assumes run: "observeOne B c ttl x s = (Done u, s')" and ttl: "0 \<le> ttl" "ttl \<le> 3600"
  shows "grows B now {} s s'"
proof -
  obtain x1 where rec: "recordObservation B (x1\<lparr>obSeen := wall s (reads s), obUntil := wall s (reads s) + ttl\<rparr>)
      (s\<lparr>reads := Suc (reads s)\<rparr>) = (Done u, s')"
    using run by (auto simp: observeOne_def book_run)
  show ?thesis
    by (rule grows_tick [OF recordObservation_grows [OF rec]])
      (use ttl saneTime_int64(1,2) [of "wall s (reads s)"] in \<open>auto simp: observationInts_def sane_def\<close>)
qed

lemma observeAll_grows:
  assumes run: "observeAll B c xs ttl st = (r, st')" and ttl: "0 \<le> ttl" "ttl \<le> 3600"
    and ok: "wholeOk B (db st)" "sane st"
  shows "wholeOk B (db st') \<and> keeps B now {} (db st) (db st')"
proof (cases "10000 < length xs")
  case True
  then show ?thesis using run ok by (auto simp: observeAll_def prog_defs keeps_refl)
next
  case False
  then have upd: "Update B (eachM (observeOne B c ttl) xs) st = (r, st')" using run by (simp add: observeAll_def)
  show ?thesis
  proof (rule Update_grows [OF upd _ ok])
    fix a t
    assume body: "eachM (observeOne B c ttl) xs st = (Done a, t)"
    show "grows B now {} st t" by (rule grows_eachM [OF body]) (rule observeOne_grows [OF _ ttl])
  qed
qed

section \<open>Repairs\<close>

lemma nextAssociation_ok:
  assumes "\<And>x. a = Some x \<Longrightarrow> associationInts x" "labelPattern (irpName r)" "saneTime now"
  shows "associationInts (nextAssociation a r now)" "nameOk (asName (storedAssociation (nextAssociation a r now)))"
    "associationInts (storedAssociation (nextAssociation a r now))"
proof -
  show ints: "associationInts (nextAssociation a r now)"
    using assms(1,3) saneTime_int64(2,3)
    by (auto simp: nextAssociation_def associationInts_def versionInts_def versionOf_def zeroAssociation_def Let_def
        split: option.splits)
  have name: "asName (nextAssociation a r now) = irpName r" by (simp add: nextAssociation_def Let_def)
  show "nameOk (asName (storedAssociation (nextAssociation a r now)))"
    using nameOk_simps(1) [OF assms(2)] plain_stored [of "irpName r"]
    by (simp add: storedAssociation_def name nameOk_def)
  show "associationInts (storedAssociation (nextAssociation a r now))"
    using ints by (auto simp: associationInts_def storedAssociation_def versionInts_def storedVersion_def list_all_iff)
qed

lemma assocOk_write:
  assumes "assocOk B t" "\<And>k. bktGet B associationBucket k t' = (if k = j then v else bktGet B associationBucket k t)"
    "\<And>raw. v = Some raw \<Longrightarrow> \<exists>a. bindR (unmarshal raw) (decAssociation zeroAssociation) = Inr a \<and> nameOk (asName a) \<and> associationInts a"
  shows "assocOk B t'"
  using assms by (auto simp: assocOk_def split: if_splits)

lemma grows_association:
  assumes get: "\<And>bk k. bktGet B bk k t = (if bk = associationBucket \<and> k = j then v else bktGet B bk k (db s))"
    and seq: "bktSeq B eventBucket t = bktSeq B eventBucket (db s)"
    and v: "\<And>raw. wholeOk B (db s) \<Longrightarrow> sane s \<Longrightarrow> v = Some raw \<Longrightarrow>
      \<exists>a. bindR (unmarshal raw) (decAssociation zeroAssociation) = Inr a \<and> nameOk (asName a) \<and> associationInts a"
  shows "grows B now given s (s\<lparr>db := t\<rparr>)"
proof -
  have near: "bktGet B bk k t = bktGet B bk k (db s)" if "bk \<noteq> associationBucket" for bk k using get that by simp
  have other: "leaseBucket \<noteq> associationBucket" "\<And>bk. bk \<in> set derivedBuckets \<Longrightarrow> bk \<noteq> associationBucket"
    "eventBucket \<noteq> associationBucket"
    by (auto simp: derivedBuckets_def indexBuckets_def bucket_defs)
  note book = bookOk_cong [of B t "db s", OF near [OF other(1)] near [OF other(2)]]
  have log: "logOk B t = logOk B (db s)" by (rule logOk_cong [OF near [OF other(3)] seq book(2)])
  have "assocOk B t" if "wholeOk B (db s)" "sane s"
    by (rule assocOk_write [OF wholeOk_parts(3) [OF that(1)], of t j v]) (use get v that in auto)
  then show ?thesis by (simp add: grows_def keeps_same book wholeOk_def ledgerOk_def log)
qed

lemma putAssociation_grows:
  assumes run: "putAssociation B r s = (Done u, s')" and name: "labelPattern (irpName r)"
  shows "grows B now given s s'"
proof (rule growsI)
  assume ok: "wholeOk B (db s)" and sane: "sane s"
  consider "s' = s" | t where "bktDelete B associationBucket (irpClient r) (db s) = (Done u, t)" "s' = s\<lparr>db := t\<rparr>"
    | a t where "readAssociation B (irpClient r) (db s) = Inr a" "s' = (s\<lparr>reads := Suc (reads s)\<rparr>)\<lparr>db := t\<rparr>"
      "bktPut B associationBucket (irpClient r) (Json (encAssociation (nextAssociation a r (wall s (reads s))))) (db s) = (Done u, t)"
    using run by (auto simp: putAssociation_def book_run split: if_splits)
  then show "grows B now given s s'"
  proof cases
    case 2
    show ?thesis
      unfolding 2(2) by (rule grows_association [OF del_get [OF 2(1)] del_seq [OF 2(1)]]) simp
  next
    case 3
    let ?a = "nextAssociation a r (wall s (reads s))"
    obtain a' where a': "readAssociation B (irpClient r) (db s) = Inr a'" "\<And>x. a' = Some x \<Longrightarrow> associationInts x"
      using assocOk_read [OF wholeOk_parts(3) [OF ok]] by blast
    have "a' = a" using a'(1) 3(1) by simp
    note nxt = nextAssociation_ok [OF a'(2) [unfolded this] name sane_now [OF sane]]
    have "grows B now given (s\<lparr>reads := Suc (reads s)\<rparr>) s'"
      unfolding 3(2)
    proof (rule grows_association)
      show "bktGet B bk k t = (if bk = associationBucket \<and> k = irpClient r then Some (Json (encAssociation ?a))
          else bktGet B bk k (db (s\<lparr>reads := Suc (reads s)\<rparr>)))" for bk k
        using put_get [OF 3(3)] by simp
      show "bktSeq B eventBucket t = bktSeq B eventBucket (db (s\<lparr>reads := Suc (reads s)\<rparr>))"
        using put_seq [OF 3(3)] by simp
      show "\<exists>x. bindR (unmarshal raw) (decAssociation zeroAssociation) = Inr x \<and> nameOk (asName x) \<and> associationInts x"
        if "Some (Json (encAssociation ?a)) = Some raw" for raw
        using that nxt decAssociation_encAssociation [OF nxt(1)] by (auto simp: unmarshal_def)
    qed
    then show ?thesis by (rule grows_tick)
  qed (simp add: grows_refl)
qed

lemma repairOne_grows:
  assumes run: "repairOne B c r s = (Done u, s')"
  shows "grows B now {} s s'"
proof (rule growsI)
  assume ok: "wholeOk B (db s)"
  note book = wholeOk_parts(2) [OF ok]
  have name: "labelPattern (irpName r)" using run by (auto simp: repairOne_def split: if_splits)
  obtain b m v n where b: "readBinding B (irpScope r) (irpAddress r) (db s) = Inr b" "bState b = ''active''"
    and saved: "save B (b\<lparr>bDevice := irpDevice r, bName := irpName r, bNodeID := irpNodeID r,
        bEvidence := ''operator repair: '' @ irpReason r\<rparr>) ''identity-repair'' (s\<lparr>reads := n\<rparr>) = (Done v, m)"
    and put: "putAssociation B r m = (Done u, s')"
    using run by (auto simp: repairOne_def book_run split: if_splits)
  have at: "bindingAt B (db s) (bindingKey (irpScope r) (irpAddress r)) = Some b"
    using b bookOk_read [OF book] by (auto simp: zeroBinding_def split: option.splits)
  note key = bookOk_at [OF book at]
  have "grows B now {} (s\<lparr>reads := n\<rparr>) m"
  proof (rule grows_save [OF saved])
    show "keyOk (b\<lparr>bDevice := irpDevice r, bName := irpName r, bNodeID := irpNodeID r,
        bEvidence := ''operator repair: '' @ irpReason r\<rparr>)"
      using key(1) nameOk_simps(1) [OF name] by (simp add: keyOk_def nameOk_def)
  qed (use at key(2) in \<open>auto simp: keyOf_def heldBy_def\<close>)
  then show "grows B now {} s s'"
    by (rule grows_trans [OF grows_tick]) (rule putAssociation_grows [OF put name])
qed

lemma Repair_grows:
  assumes run: "Repair B c changes st = (r, st')" and ok: "wholeOk B (db st)" "sane st"
  shows "wholeOk B (db st') \<and> keeps B now {} (db st) (db st')"
proof (cases "changes = [] \<or> 256 < length changes")
  case True
  then show ?thesis using run ok by (auto simp: Repair_def prog_defs keeps_refl)
next
  case False
  then have upd: "Update B (eachM (repairOne B c) changes) st = (r, st')" using run by (simp add: Repair_def)
  show ?thesis
  proof (rule Update_grows [OF upd _ ok])
    fix a t
    assume body: "eachM (repairOne B c) changes st = (Done a, t)"
    show "grows B now {} st t" by (rule grows_eachM [OF body]) (rule repairOne_grows)
  qed
qed

section \<open>Imports\<close>

lemma adoptDUID_grows:
  assumes "inTx (adoptDUID B duidOk c value) s = (Done u, s')"
  shows "grows B now given s s'"
proof -
  obtain t1 t raw v where one: "bktCreate B metaBucket (db s) = (Done v, t1)"
    and two: "bktPut B metaBucket ''duid'' (Text raw) t1 = (Done u, t)" and s': "s' = s\<lparr>db := t\<rparr>"
    using assms by (auto simp: adoptDUID_def inTx_Done bindM_Done split: if_splits)
  have "grows B now given s (s\<lparr>db := t1\<rparr>)" by (rule grows_create [OF one])
  moreover have "grows B now given (s\<lparr>db := t1\<rparr>) ((s\<lparr>db := t1\<rparr>)\<lparr>db := t\<rparr>)"
    by (rule grows_far [OF far_buckets(1)]) (use two in simp)
  ultimately show ?thesis unfolding s' by (auto intro: grows_trans)
qed

end

lemma importMAC_plain: "plain (importMAC l)"
  by (auto simp: importMAC_def dest: ParseMAC_plain split: option.splits)

lemma checkImport_Inr:
  assumes "checkImport c l s p = Inr u"
  shows "plain (ilAddress l)" "plain (importClient s l)"
proof -
  obtain ip where "ParseAddr (ilAddress l) = Some ip" "addrZone ip = []"
    using assms by (auto simp: checkImport_def importAddressOk_def Contains_def split: if_splits option.splits)
  then show "plain (ilAddress l)" by (rule ParseAddr_plain)
  show "plain (importClient s l)"
    using assms by (auto simp: checkImport_def refuse_def intro: validClient_plain split: if_splits)
qed

text \<open>What an imported lease looks like, before its state and attribution.\<close>

lemma importBase_fields:
  "bScope (importBase s l now fin) = ilScope l" "bAddress (importBase s l now fin) = ilAddress l"
  "bClient (importBase s l now fin) = importClient s l" "bMAC (importBase s l now fin) = importMAC l"
  "bOrigin (importBase s l now fin) = ''dnsmasq-import''" "bStart (importBase s l now fin) = now"
  "bEnd (importBase s l now fin) = fin" "bPreferredEnd (importBase s l now fin) = 0"
  "bName (importBase s l now fin) = deviceID (ilScope l) (importClient s l)"
  by (simp_all add: importBase_def zeroBinding_def Let_def)

definition importedActive :: "config \<Rightarrow> scope \<Rightarrow> importedLease \<Rightarrow> int \<Rightarrow> int \<Rightarrow> binding \<Rightarrow> binding" where
  "importedActive c s l now fin old =
     (let client = importClient s l;
          b = (importBase s l now fin)\<lparr>bClaimedName := ilHostname l, bState := ''active''\<rparr>;
          b = (if sIs6 s then b\<lparr>bPreferredEnd := fin\<rparr> else b);
          b = (if heldBy old client now
               then b\<lparr>bDevice := bDevice old, bName := bName old, bNodeID := bNodeID old,
                      bEvidence := bEvidence old, bStart := bStart old\<rparr> else b)
      in reserveLease c (findReservation s client (bMAC b)) b)"

lemma importActive_saves:
  "importActive B c s l now fin old =
     (if importLive old now \<and> bClient old = importClient s l \<and> bState old = ''active'' \<and> fin \<le> bEnd old then ret ()
      else if importLive old now \<and> (bClient old \<noteq> importClient s l \<or> bState old = ''declined'')
      then raise (Error ''import conflicts with live binding'')
      else save B (importedActive c s l now fin old) ''import'')"
  by (simp only: importActive_def importedActive_def Let_def)

lemma reserveLease_fields:
  "f \<in> {bScope, bAddress, bClient, bMAC, bState, bOrigin} \<Longrightarrow> f (reserveLease c r b) = f b"
  "g \<in> {bStart, bEnd, bPreferredEnd} \<Longrightarrow> g (reserveLease c r b) = g b"
  by (auto simp: reserveLease_def Let_def split: option.splits)

lemma importedActive_fields:
  "bScope (importedActive c s l now fin old) = ilScope l" "bAddress (importedActive c s l now fin old) = ilAddress l"
  "bClient (importedActive c s l now fin old) = importClient s l" "bMAC (importedActive c s l now fin old) = importMAC l"
  "bState (importedActive c s l now fin old) = ''active''" "bOrigin (importedActive c s l now fin old) = ''dnsmasq-import''"
  "bEnd (importedActive c s l now fin old) = fin" "bPreferredEnd (importedActive c s l now fin old) \<in> {0, fin}"
  "bStart (importedActive c s l now fin old) \<in> {now, bStart old}"
  by (simp_all add: importedActive_def Let_def reserveLease_fields importBase_fields)

lemma importedActive_name:
  assumes "scopeOk c s" "namedDevices c" "nameOk (bName old) \<or> \<not> heldBy old (importClient s l) now"
  shows "nameOk (bName (importedActive c s l now fin old))"
  unfolding importedActive_def Let_def
  by (rule reserveLease_name [OF _ assms(1,2)]) (use assms(3) in \<open>auto simp: importBase_fields nameOk_simps\<close>)

context bolt_laws
begin

lemma importOne_run:
  assumes "importOne B c duid now l s = (Done u, s')"
  obtains "s' = s"
  | sc p fin old where "cScope c (ilScope l) = Some sc" "ParsePrefix (sSubnet sc) = Some p" "checkImport c l sc p = Inr ()"
      "fin = (if ilExpiry l = 0 then 253402300799 else ilExpiry l)" "now < fin" "0 \<le> ilExpiry l"
      "readBinding B (ilScope l) (ilAddress l) (db s) = Inr old"
      "importQuarantine B sc l now fin old s = (Done u, s') \<or> importActive B c sc l now fin old s = (Done u, s')"
proof -
  obtain sc p where sc: "cScope c (ilScope l) = Some sc" "ParsePrefix (sSubnet sc) = Some p" "0 \<le> ilExpiry l"
    and run: "bindM (liftR (checkImport c l sc p)) (\<lambda>_.
                  let fin = (if ilExpiry l = 0 then 253402300799 else ilExpiry l)
                  in if fin \<le> now then ret ()
                     else bindM (readTx (readBinding B (ilScope l) (ilAddress l))) (\<lambda>old.
                       if isQuarantineMarker sc l (importMAC l) then importQuarantine B sc l now fin old
                       else importActive B c sc l now fin old)) s = (Done u, s')"
    using assms by (auto simp: importOne_def bindM_Done [of "getS _"] getS_Done panic_def split: if_splits option.splits)
  define fin where "fin = (if ilExpiry l = 0 then 253402300799 else ilExpiry l)"
  have check: "checkImport c l sc p = Inr ()" using run by (auto simp: bindM_Done)
  show ?thesis
  proof (cases "fin \<le> now")
    case True
    then have "s' = s" using run check by (simp add: bindM_Done Let_def fin_def [symmetric])
    then show ?thesis by (rule that(1))
  next
    case False
    then obtain old where "readBinding B (ilScope l) (ilAddress l) (db s) = Inr old"
      "(if isQuarantineMarker sc l (importMAC l) then importQuarantine B sc l now fin old
        else importActive B c sc l now fin old) s = (Done u, s')"
      using run check by (auto simp: bindM_Done Let_def fin_def [symmetric] readTx_Done)
    then show ?thesis using that(2) [OF sc(1,2) check fin_def _ sc(3)] False by (auto split: if_splits)
  qed
qed

lemma importOne_grows:
  assumes run: "importOne B c duid now l s = (Done u, s')" and c: "configOk c" and fin: "int64 (ilExpiry l)"
    and now: "sane s \<Longrightarrow> saneTime now"
  shows "grows B now {} s s'"
  using run
proof (cases rule: importOne_run)
  case (2 sc p fin old)
  show ?thesis
  proof (rule growsI)
    assume ok: "wholeOk B (db s)" and sane: "sane s"
    note book = wholeOk_parts(2) [OF ok]
    have sc: "scopeOk c sc" "sID sc = ilScope l" using configOk_scope [OF c 2(1)] by auto
    have label: "labelPattern (ilScope l)" using sc by (simp add: scopeOk_def)
    note plain = checkImport_Inr [OF 2(3)] importMAC_plain [of l] labelPattern_plain [OF label]
    have fin64: "int64 fin" using fin 2(4) by (auto simp: int64_def)
    have now64: "int64 now" by (rule saneTime_int64(2) [OF now [OF sane]])
    let ?k = "bindingKey (ilScope l) (ilAddress l)"
    have old: "old = (case bindingAt B (db s) ?k of None \<Rightarrow> zeroBinding | Some x \<Rightarrow> x)"
      using 2(7) bookOk_read [OF book] by simp
    have oldKey: "keyOk old \<or> old = zeroBinding" using old bookOk_at(1) [OF book] by (auto split: option.splits)
    have here: "x = old" if "bindingAt B (db s) ?k = Some x" for x using old that by simp
    from 2(8) show "grows B now {} s s'"
    proof
      assume q: "importQuarantine B sc l now fin old s = (Done u, s')"
      let ?b = "(importBase sc l now fin)\<lparr>bState := ''declined'', bEvidence := ''quarantine restored from exported lease file''\<rparr>"
      have key: "keyOk ?b"
        using plain fin64 now64 nameOk_simps(2) [of "ilScope l" "importClient sc l"] saneTime_int64(3)
        by (simp add: keyOk_def importBase_fields nameOk_def)
      have k: "keyOf ?b = ?k" by (simp add: keyOf_def importBase_fields)
      show ?thesis
      proof (cases "save B ?b ''import'' s = (Done u, s')")
        case True
        have "\<not> (now < bEnd old \<and> bState old = ''active'')" using q by (auto simp: importQuarantine_def True split: if_splits)
        then show ?thesis by (intro grows_save [OF True key]) (auto simp: k heldBy_def dest!: here)
      qed (use q in \<open>auto simp: importQuarantine_def grows_refl split: if_splits\<close>)
    next
      assume a: "importActive B c sc l now fin old s = (Done u, s')"
      let ?b = "importedActive c sc l now fin old"
      have name: "nameOk (bName ?b)"
        by (rule importedActive_name [OF sc(1) configOk_named [OF c]])
          (use oldKey in \<open>auto simp: keyOk_def nameOk_def heldBy_def zeroBinding_def\<close>)
      have start: "int64 (bStart old)" using oldKey saneTime_int64(3) by (auto simp: keyOk_def zeroBinding_def)
      have key: "keyOk ?b"
        using plain fin64 now64 start name saneTime_int64(3) importedActive_fields [of c sc l now fin old]
        by (auto simp: keyOk_def nameOk_def)
      have k: "keyOf ?b = ?k" by (simp add: keyOf_def importedActive_fields)
      show ?thesis
      proof (cases "importLive old now \<and> bClient old \<noteq> importClient sc l")
        case True
        then show ?thesis using a by (auto simp: importActive_saves split: if_splits)
      next
        case False
        then have own: "bClient old = importClient sc l" if "now < bEnd old" "bState old = ''active''"
          using that by (simp add: importLive_def)
        show ?thesis
        proof (cases "save B ?b ''import'' s = (Done u, s')")
          case True
          show ?thesis
            by (rule grows_save [OF True key]) (auto simp: k heldBy_def importedActive_fields own 2(5) dest!: here)
        qed (use a in \<open>auto simp: importActive_saves grows_refl split: if_splits\<close>)
      qed
    qed
  qed
qed (simp add: grows_refl)

lemma ImportDocument_grows:
  assumes run: "ImportDocument B duidOk c doc st = (r, st')" and c: "configOk c"
    and fin: "\<forall>l \<in> set (docLeases doc). int64 (ilExpiry l)" and ok: "wholeOk B (db st)" "sane st"
  shows "wholeOk B (db st') \<and> keeps B (wall st (reads st)) {} (db st) (db st')"
proof (cases "10000 < length (docLeases doc)")
  case True
  then show ?thesis using run ok by (auto simp: ImportDocument_def prog_defs keeps_refl)
next
  case False
  let ?st = "st\<lparr>reads := Suc (reads st)\<rparr>" and ?now = "wall st (reads st)"
  let ?body = "bindM (if docServerDUID doc \<noteq> [] then inTx (adoptDUID B duidOk c (docServerDUID doc)) else ret ()) (\<lambda>_.
      eachM (importOne B c (docServerDUID doc) ?now) (docLeases doc))"
  have upd: "Update B ?body ?st = (r, st')"
    using run False by (simp add: ImportDocument_def bindM_def [of bookNow] bookNow_def)
  have "grows B ?now {} ?st t" if body: "?body ?st = (Done a, t)" for a t
  proof -
    obtain m v where one: "(if docServerDUID doc \<noteq> [] then inTx (adoptDUID B duidOk c (docServerDUID doc)) else ret ()) ?st = (Done v, m)"
      and two: "eachM (importOne B c (docServerDUID doc) ?now) (docLeases doc) m = (Done a, t)"
      using body by (auto simp: bindM_Done)
    have first: "grows B ?now {} ?st m"
      using one adoptDUID_grows by (auto simp: grows_refl split: if_splits)
    show ?thesis
    proof (rule growsI)
      assume "wholeOk B (db ?st)" "sane ?st"
      then have now: "saneTime ?now" by (simp add: sane_def)
      have "grows B ?now {} m t"
        by (rule grows_eachM [OF two], rule importOne_grows [OF _ c]) (use fin now in auto)
      then show "grows B ?now {} ?st t" by (rule grows_trans [OF first])
    qed
  qed
  from Update_grows [OF upd this] show ?thesis using ok by (simp add: sane_def)
qed

end

end
