(* ===== verification/Book_Reach.thy ===== *)
theory Book_Reach
  imports Book_Upkeep
begin

text \<open>
  The reachable ledgers: a fresh store is opened, and then the operations follow in any order,
  each with any outcome.
\<close>

section \<open>Opening a fresh store\<close>

definition blank :: "'t bolt \<Rightarrow> 't \<Rightarrow> bool" where
  "blank B t = ((\<forall>bk k. bktGet B bk k t = None) \<and> (\<forall>bk. bktSeq B bk t = 0))"

lemma blank_wholeOk: "blank B t \<Longrightarrow> wholeOk B t"
  by (simp add: blank_def wholeOk_def ledgerOk_def bookOk_def assocOk_def logOk_def bindingAt_def fun_eq_iff)

context bolt_laws
begin

lemma blank_entries: "blank B t \<Longrightarrow> bktEntries B bk t = []"
  using entries_get [of _ _ bk t] by (cases "bktEntries B bk t") (auto simp: blank_def)

lemma blank_creates: "eachM (bktCreate B) bks t = (Done u, t') \<Longrightarrow> blank B t \<Longrightarrow> blank B t'"
proof (induction bks arbitrary: t)
  case (Cons bk bks)
  obtain v m where one: "bktCreate B bk t = (Done v, m)" and rest: "eachM (bktCreate B) bks m = (Done u, t')"
    using Cons.prems(1) by (auto simp: bindM_Done)
  have "blank B m" using Cons.prems(2) create_get [OF one] create_seq [OF one] by (simp add: blank_def)
  then show ?case by (rule Cons.IH [OF rest])
qed simp

lemma blank_backfill:
  assumes "blank B t"
  shows "backfillIndexes B t = (Done (), t)" "backfillExpiry B t = (Done (), t)" "backfillNames B t = (Done (), t)"
  by (simp_all add: backfillIndexes_def backfillExpiry_def backfillNames_def blank_entries [OF assms] ret_def)

lemma Open_blank:
  assumes run: "Open B st = (Done u, st')" and blank: "blank B (db st)"
  shows "blank B (db st')"
proof -
  let ?bks = "[leaseBucket, eventBucket, nodeBucket, observationBucket, associationBucket, expiryBucket] @ indexBuckets"
  let ?fill = "\<lambda>p f. if p then f else ret ()"
  obtain a b v t where body: "bindM (eachM (bktCreate B) ?bks) (\<lambda>_. bindM (?fill a (backfillIndexes B)) (\<lambda>_.
       bindM (?fill b (backfillExpiry B)) (\<lambda>_ u. if \<not> bktHas B dnsBucket u
         then bindM (bktCreate B dnsBucket) (\<lambda>_. backfillNames B) u else ret () u))) (db st) = (Done v, t)"
    and st': "st' = st\<lparr>db := t\<rparr>"
    using Update_Done [OF run [unfolded Open_def]] unfolding inTx_Done Let_def by blast
  obtain w m where one: "eachM (bktCreate B) ?bks (db st) = (Done w, m)"
    and two: "bindM (?fill a (backfillIndexes B)) (\<lambda>_.
       bindM (?fill b (backfillExpiry B)) (\<lambda>_ u. if \<not> bktHas B dnsBucket u
         then bindM (bktCreate B dnsBucket) (\<lambda>_. backfillNames B) u else ret () u)) m = (Done v, t)"
    using body by (auto simp only: bindM_Done [of "eachM _ _"])
  have m: "blank B m" by (rule blank_creates [OF one blank])
  have "(if \<not> bktHas B dnsBucket m then bindM (bktCreate B dnsBucket) (\<lambda>_. backfillNames B) m else ret () m) = (Done v, t)"
    using two blank_backfill [OF m] by (cases a; cases b) (simp_all add: bindM_def [of "ret ()"] bindM_def [of "backfillIndexes B"] bindM_def [of "backfillExpiry B"] ret_def)
  then show ?thesis
  proof (cases "bktHas B dnsBucket m")
    case True
    then show ?thesis using \<open>(if _ then _ else _) = _\<close> m st' by simp
  next
    case False
    then obtain x n where create: "bktCreate B dnsBucket m = (Done x, n)" and names: "backfillNames B n = (Done v, t)"
      using \<open>(if _ then _ else _) = _\<close> by (auto simp: bindM_Done)
    have n: "blank B n" using m create_get [OF create] create_seq [OF create] by (simp add: blank_def)
    then show ?thesis using names blank_backfill(3) [OF n] st' by simp
  qed
qed

end

section \<open>Steps\<close>

text \<open>
  One operation at the instant \<open>now\<close> its transaction read, with any outcome.  \<open>given\<close> are the
  leases that the operation gives back for their own client.  The text of a requested address
  is plain: the packet layer prints it.
\<close>

inductive bookStep ::
  "'t bolt \<Rightarrow> (string \<Rightarrow> bool) \<Rightarrow> config \<Rightarrow> int \<Rightarrow> (string \<times> string) set \<Rightarrow> 't book \<Rightarrow> 't book \<Rightarrow> bool"
  for B duidOk c where
  allocated: "Allocate B c sc client mac claimed requested commit st = (r, st') \<Longrightarrow> plain requested \<Longrightarrow> sane st \<Longrightarrow>
    bookStep B duidOk c (wall st (reads st)) {} st st'"
| released: "Release B sc client ip decline st = (r, st') \<Longrightarrow> sane st \<Longrightarrow>
    bookStep B duidOk c (wall st (reads st)) {(bindingKey sc ip, client)} st st'"
| expired: "Expire B st = (r, st') \<Longrightarrow> sane st \<Longrightarrow> bookStep B duidOk c (wall st (reads st)) {} st st'"
| imported: "ImportDocument B duidOk c doc st = (r, st') \<Longrightarrow> list_all (\<lambda>l. int64 (ilExpiry l)) (docLeases doc) \<Longrightarrow>
    sane st \<Longrightarrow> bookStep B duidOk c (wall st (reads st)) {} st st'"
| repaired: "Repair B c changes st = (r, st') \<Longrightarrow> sane st \<Longrightarrow> bookStep B duidOk c now {} st st'"
| observed: "Observe B c xs st = (r, st') \<Longrightarrow> sane st \<Longrightarrow> bookStep B duidOk c now {} st st'"
| reported: "ObserveSwitch B c xs ttl st = (r, st') \<Longrightarrow> sane st \<Longrightarrow> bookStep B duidOk c now {} st st'"
| audited: "audit B kind message st = (r, st') \<Longrightarrow> sane st \<Longrightarrow> bookStep B duidOk c now {} st st'"
| clocked: "db st' = db st \<Longrightarrow> bookStep B duidOk c now {} st st'"

inductive_cases bookStepE: "bookStep B duidOk c now given st st'"

definition bookMoves :: "'t bolt \<Rightarrow> (string \<Rightarrow> bool) \<Rightarrow> config \<Rightarrow> 't book \<Rightarrow> 't book \<Rightarrow> bool" where
  "bookMoves B duidOk c st st' = (\<exists>now given. bookStep B duidOk c now given st st')"

context bolt_laws
begin

lemma ObserveSwitch_grows:
  assumes "ObserveSwitch B c xs ttl st = (r, st')" "wholeOk B (db st)" "sane st"
  shows "wholeOk B (db st') \<and> keeps B now {} (db st) (db st')"
proof (cases "ttl < 10 \<or> 3600 < ttl \<or> list_ex (\<lambda>x. 128 < length (obDetail x)) xs")
  case True
  then show ?thesis using assms by (auto simp: ObserveSwitch_def prog_defs keeps_refl split: if_splits)
next
  case False
  then have "observeAll B c (map (\<lambda>x. x\<lparr>obOrigin := ''switch-snooping''\<rparr>) xs) ttl st = (r, st')"
    using assms(1) by (simp add: ObserveSwitch_def)
  from observeAll_grows [OF this _ _ assms(2,3)] False show ?thesis by simp
qed

lemma bookStep_grows:
  assumes "bookStep B duidOk c now given st st'" "configOk c" "wholeOk B (db st)"
  shows "wholeOk B (db st') \<and> keeps B now given (db st) (db st')"
  using assms(1)
proof cases
  case (allocated sc client mac claimed requested commit r)
  show ?thesis unfolding allocated(1,2) by (rule Allocate_grows [OF allocated(3) assms(2) allocated(4) assms(3) allocated(5)])
next
  case (released sc client ip decline r)
  show ?thesis unfolding released(1,2) by (rule Release_grows [OF released(3) assms(3) released(4)])
next
  case (expired r)
  show ?thesis unfolding expired(1,2) by (rule Expire_grows [OF expired(3) assms(3) expired(4)])
next
  case (imported doc r)
  show ?thesis
    unfolding imported(1,2)
    by (rule ImportDocument_grows [OF imported(3) assms(2) _ assms(3) imported(5)])
      (use imported(4) in \<open>simp add: list_all_iff\<close>)
next
  case (repaired changes r)
  show ?thesis unfolding repaired(1) by (rule Repair_grows [OF repaired(2) assms(3) repaired(3)])
next
  case (observed xs r)
  show ?thesis
    unfolding observed(1) by (rule observeAll_grows [OF observed(2) [unfolded Observe_def] _ _ assms(3) observed(3)]) simp_all
next
  case (reported xs ttl r)
  show ?thesis unfolding reported(1) by (rule ObserveSwitch_grows [OF reported(2) assms(3) reported(3)])
next
  case (audited kind message r)
  show ?thesis unfolding audited(1) by (rule audit_grows [OF audited(2) assms(3) audited(3)])
next
  case clocked
  then show ?thesis using assms(3) by (simp add: keeps_refl)
qed

lemma bookMoves_wholeOk:
  assumes "(bookMoves B duidOk c)\<^sup>*\<^sup>* st st'" "configOk c" "wholeOk B (db st)"
  shows "wholeOk B (db st')"
  using assms by induction (auto simp: bookMoves_def dest: bookStep_grows)

end

end
