(* ===== verification/Book_Expiry.thy ===== *)
theory Book_Expiry
  imports Book_Reach
begin

text \<open>
  Expiry is exact: the keys of the expiry index are ordered by the end of their binding, so the
  scan finds every binding that has ended, and only those change.
\<close>

section \<open>Big-endian keys sort like numbers\<close>

lemma char_of_less: "a < 256 \<Longrightarrow> b < 256 \<Longrightarrow> (char_of a < (char_of b :: char)) \<longleftrightarrow> a < (b :: nat)"
  by (simp add: less_char_def)

lemma beBytes_less:
  "m mod 256 ^ k < n mod 256 ^ k \<Longrightarrow> map char_of (beBytes k m) @ r < (map char_of (beBytes k n) @ r' :: string)"
proof (induction k)
  case (Suc k)
  let ?a = "m div 256 ^ k mod 256" and ?b = "n div 256 ^ k mod 256"
  have split: "x mod 256 ^ Suc k = (x div 256 ^ k mod 256) * 256 ^ k + x mod 256 ^ k" for x :: nat
    using mod_mult2_eq [of x "256 ^ k" 256] by (simp add: mult.commute add.commute)
  have lt: "?a * 256 ^ k + m mod 256 ^ k < ?b * 256 ^ k + n mod 256 ^ k"
    using Suc.prems split by metis
  consider "?a < ?b" | "?a = ?b" | "?b < ?a" by linarith
  then show ?case
  proof cases
    case 1
    then have "(char_of ?a :: char) < char_of ?b" by (subst char_of_less) simp_all
    then show ?thesis by (simp add: beBytes_Suc)
  next
    case 2
    then show ?thesis using lt Suc.IH by (simp add: beBytes_Suc)
  next
    case 3
    then have "Suc ?b * 256 ^ k \<le> ?a * 256 ^ k" by (intro mult_le_mono1) simp
    moreover have "n mod 256 ^ k < (256 :: nat) ^ k" by simp
    ultimately show ?thesis using lt by simp
  qed
qed simp

lemma putUint64_mono: "m < 2 ^ 64 \<Longrightarrow> n < 2 ^ 64 \<Longrightarrow> putUint64 m @ r \<le> putUint64 n @ r' \<Longrightarrow> m \<le> n"
proof (rule ccontr)
  assume b: "m < 2 ^ 64" "n < 2 ^ 64" and le: "putUint64 m @ r \<le> putUint64 n @ r'" and "\<not> m \<le> n"
  have "putUint64 n @ r' < putUint64 m @ r"
    unfolding putUint64_def by (rule beBytes_less) (use b \<open>\<not> m \<le> n\<close> in simp)
  then show False using le by simp
qed

lemma expiryKey_mono:
  assumes "int64 (bEnd a)" "int64 (bEnd b)" "0 \<le> bEnd a" "0 \<le> bEnd b" "expiryKey a \<le> expiryKey b"
  shows "bEnd a \<le> bEnd b"
proof -
  have "asUint64 (bEnd x) < 2 ^ 64" if "0 \<le> bEnd x" "int64 (bEnd x)" for x
    using that by (simp add: asUint64_def int64_def)
  then have "asUint64 (bEnd a) \<le> asUint64 (bEnd b)"
    using assms by (intro putUint64_mono [OF _ _ assms(5) [unfolded expiryKey_def]])
  then show ?thesis using assms by (simp add: asUint64_def int64_def)
qed

lemma takeWhile_sorted:
  "sorted_wrt (<) xs \<Longrightarrow> (\<And>x y. x \<in> set xs \<Longrightarrow> y \<in> set xs \<Longrightarrow> x < y \<Longrightarrow> P y \<Longrightarrow> P x) \<Longrightarrow>
     takeWhile P xs = filter P xs"
proof (induction xs)
  case (Cons x xs)
  have "takeWhile P xs = filter P xs"
    by (rule Cons.IH) (use Cons.prems in auto)
  then show ?case
  proof (cases "P x")
    case True
    then show ?thesis using \<open>takeWhile P xs = filter P xs\<close> by simp
  next
    case False
    then have "\<forall>y \<in> set xs. \<not> P y" using Cons.prems by auto
    then show ?thesis using False by simp
  qed
qed simp

section \<open>What expiry does\<close>

definition expired :: "int \<Rightarrow> binding \<Rightarrow> binding" where
  "expired now x = (if liveState (bState x) \<and> bEnd x \<le> now then stored (x\<lparr>bState := ''expired''\<rparr>) else x)"

context bolt_laws
begin

lemma expiry_get:
  assumes "bookOk B t"
  shows "bktGet B expiryBucket k t \<noteq> None \<longleftrightarrow> (\<exists>b. bindingAt B t (drop 8 k) = Some b \<and> liveState (bState b) \<and> expiryKey b = k)"
proof -
  have "bktGet B expiryBucket k t = Some v \<longleftrightarrow> (\<exists>j b. bindingAt B t j = Some b \<and> (expiryBucket, k, v) \<in> set (derived b))" for v
    using assms other_buckets(11) unfolding bookOk_def by blast
  moreover have "(expiryBucket, k, v) \<in> set (derived b) \<longleftrightarrow> liveState (bState b) \<and> expiryKey b = k \<and> v = mark" for b v
    using index_bucket [of expiryBucket k b] other_buckets(2,4) by (auto simp: derived_mem)
  moreover have "drop 8 (expiryKey b) = j" if "bindingAt B t j = Some b" for j b
    using bookOk_at [OF assms that] expiryKey_parts(2) [of b] by (simp add: keyOk_def)
  ultimately show ?thesis by (metis not_None_eq)
qed

lemma dueKeys_all:
  assumes ok: "bookOk B t" and ends: "\<forall>j b. bindingAt B t j = Some b \<longrightarrow> 0 \<le> bEnd b"
    and few: "length (filter (\<lambda>k. asInt64 (getUint64 k) \<le> now) (map fst (bktEntries B expiryBucket t))) \<le> 1000"
  shows "set (dueKeys B now t) = {k. \<exists>b. bindingAt B t (drop 8 k) = Some b \<and> liveState (bState b) \<and> expiryKey b = k \<and> bEnd b \<le> now}"
    "distinct (dueKeys B now t)"
proof -
  let ?ks = "map fst (bktEntries B expiryBucket t)" and ?due = "\<lambda>k. asInt64 (getUint64 k) \<le> now"
  have mem: "k \<in> set ?ks \<longleftrightarrow> (\<exists>b. bindingAt B t (drop 8 k) = Some b \<and> liveState (bState b) \<and> expiryKey b = k)" for k
    using expiry_get [OF ok, of k] entries_get [of k _ expiryBucket t] by force
  have end64: "int64 (bEnd b)" if "bindingAt B t j = Some b" for j b
    using bookOk_at(1) [OF ok that] by (simp add: keyOk_def)
  have "?due x" if xy: "x \<in> set ?ks" "y \<in> set ?ks" "x < y" "?due y" for x y
  proof -
    obtain a b where a: "bindingAt B t (drop 8 x) = Some a" "expiryKey a = x"
      and b: "bindingAt B t (drop 8 y) = Some b" "expiryKey b = y" using xy(1,2) mem by blast
    have "bEnd a \<le> bEnd b"
      by (rule expiryKey_mono [OF end64 [OF a(1)] end64 [OF b(1)] ends [rule_format, OF a(1)] ends [rule_format, OF b(1)]]) (use a b xy(3) in simp)
    then show ?thesis
      using xy(4) expiryKey_parts(1) [OF end64 [OF a(1)]] expiryKey_parts(1) [OF end64 [OF b(1)]] a(2) b(2) by simp
  qed
  from takeWhile_sorted [OF entries_sorted this]
  have keys: "dueKeys B now t = filter ?due ?ks" using few by (simp add: dueKeys_def)
  show "distinct (dueKeys B now t)" unfolding keys using entries_distinct by simp
  show "set (dueKeys B now t) = {k. \<exists>b. bindingAt B t (drop 8 k) = Some b \<and> liveState (bState b) \<and> expiryKey b = k \<and> bEnd b \<le> now}"
    unfolding keys using mem end64 expiryKey_parts(1) by fastforce
qed

lemma expireOne_effect:
  assumes ok: "wholeOk B (db s)" and b: "bindingAt B (db s) (drop 8 k) = Some b" "liveState (bState b)" "expiryKey b = k"
    and run: "expireOne B k s = (Done u, s')"
  shows "bindingAt B (db s') = (bindingAt B (db s))(drop 8 k := Some (stored (b\<lparr>bState := ''expired''\<rparr>)))"
proof -
  note book = wholeOk_parts(2) [OF ok]
  have key: "keyOk b" "keyOf b = drop 8 k" by (rule bookOk_at [OF book b(1)])+
  have "bEnd b = asInt64 (getUint64 k)" using key expiryKey_parts(1) [of b] b(3) by (simp add: keyOk_def)
  moreover obtain raw where "bktGet B leaseBucket (drop 8 k) (db s) = Some raw" "unmarshalBinding raw = Inr b"
    using b(1) by (auto simp: bindingAt_def split: option.splits sum.splits)
  ultimately have saved: "save B (b\<lparr>bState := ''expired''\<rparr>) ''expire'' s = (Done u, s')"
    using run b(2) by (simp add: expireOne_def bindM_Done getS_Done)
  have "keyOk (b\<lparr>bState := ''expired''\<rparr>)" "keyOf (b\<lparr>bState := ''expired''\<rparr>) = drop 8 k"
    using key by (simp_all add: keyOk_def keyOf_def)
  then show ?thesis using save_effect(2) [OF book _ saved] by simp
qed

lemma expireEach_effect:
  assumes "eachM (expireOne B) ks s = (Done u, s')" "wholeOk B (db s)" "sane s" "distinct (map (drop 8) ks)"
    "\<And>k. k \<in> set ks \<Longrightarrow> \<exists>b. bindingAt B (db s) (drop 8 k) = Some b \<and> liveState (bState b) \<and> expiryKey b = k"
    "\<And>k. k \<in> set ks \<Longrightarrow> asInt64 (getUint64 k) \<le> now"
  shows "bindingAt B (db s') j = (if j \<in> drop 8 ` set ks
    then map_option (\<lambda>b. stored (b\<lparr>bState := ''expired''\<rparr>)) (bindingAt B (db s) j) else bindingAt B (db s) j)"
  using assms
proof (induction ks arbitrary: s)
  case (Cons k ks)
  obtain v m where one: "expireOne B k s = (Done v, m)" and rest: "eachM (expireOne B) ks m = (Done u, s')"
    using Cons.prems(1) by (auto simp: bindM_Done)
  have due: "asInt64 (getUint64 k) \<le> now" by (rule Cons.prems(6)) simp
  obtain b where b: "bindingAt B (db s) (drop 8 k) = Some b" "liveState (bState b)" "expiryKey b = k"
    using Cons.prems(5) [of k] by auto
  note eff = expireOne_effect [OF Cons.prems(2) b one]
  have ok: "wholeOk B (db m)" "sane m"
    using expireOne_grows [OF one due] Cons.prems(2,3) by (auto simp: grows_def sane_def)
  have "bindingAt B (db s') j = (if j \<in> drop 8 ` set ks
      then map_option (\<lambda>b. stored (b\<lparr>bState := ''expired''\<rparr>)) (bindingAt B (db m) j) else bindingAt B (db m) j)"
  proof (rule Cons.IH [OF rest ok])
    fix k'
    assume k': "k' \<in> set ks"
    then have "drop 8 k' \<noteq> drop 8 k" using Cons.prems(4) by (auto simp: image_iff)
    then show "\<exists>b. bindingAt B (db m) (drop 8 k') = Some b \<and> liveState (bState b) \<and> expiryKey b = k'"
      using Cons.prems(5) [of k'] k' by (simp add: eff)
  qed (use Cons.prems(4,6) in auto)
  then show ?case using Cons.prems(4) b(1) by (auto simp: eff)
qed simp

lemma Expire_effect:
  assumes run: "Expire B st = (Done u, st')" and ok: "wholeOk B (db st)" "sane st"
    and ends: "\<forall>j b. bindingAt B (db st) j = Some b \<longrightarrow> 0 \<le> bEnd b"
    and few: "length (filter (\<lambda>k. asInt64 (getUint64 k) \<le> wall st (reads st)) (map fst (bktEntries B expiryBucket (db st)))) \<le> 1000"
  shows "bindingAt B (db st') j = map_option (expired (wall st (reads st))) (bindingAt B (db st) j)"
proof -
  let ?st = "st\<lparr>reads := Suc (reads st)\<rparr>" and ?now = "wall st (reads st)"
  let ?ks = "dueKeys B ?now (db st)"
  note book = wholeOk_parts(2) [OF ok(1)]
  note keys = dueKeys_all [OF book ends few]
  have "Update B (bindM (getS (\<lambda>s. dueKeys B ?now (db s))) (eachM (expireOne B))) ?st = (Done u, st')"
    using run by (simp add: Expire_def prog_defs bookNow_def)
  from Update_Done [OF this] have each: "eachM (expireOne B) ?ks ?st = (Done u, st')" by (simp add: prog_defs)
  have inj: "inj_on (drop 8) (set ?ks)"
  proof (rule inj_onI)
    fix x y
    assume "x \<in> set ?ks" "y \<in> set ?ks" and same: "drop 8 x = drop 8 y"
    then obtain a b where "bindingAt B (db st) (drop 8 x) = Some a" "expiryKey a = x"
      "bindingAt B (db st) (drop 8 y) = Some b" "expiryKey b = y" unfolding keys(1) by blast
    then show "x = y" by (simp add: same)
  qed
  have "bindingAt B (db st') j = (if j \<in> drop 8 ` set ?ks
      then map_option (\<lambda>b. stored (b\<lparr>bState := ''expired''\<rparr>)) (bindingAt B (db ?st) j) else bindingAt B (db ?st) j)"
  proof (rule expireEach_effect [OF each, where now = ?now])
    show "wholeOk B (db ?st)" "sane ?st" using ok by (simp_all add: sane_def)
    show "distinct (map (drop 8) ?ks)" using keys(2) inj by (simp add: distinct_map)
    show "\<exists>b. bindingAt B (db ?st) (drop 8 k) = Some b \<and> liveState (bState b) \<and> expiryKey b = k" if "k \<in> set ?ks" for k
      using that unfolding keys(1) by auto
    show "asInt64 (getUint64 k) \<le> ?now" if "k \<in> set ?ks" for k
      using that unfolding dueKeys_def by (auto dest!: in_set_takeD set_takeWhileD)
  qed
  moreover have "j \<in> drop 8 ` set ?ks \<longleftrightarrow> (\<exists>b. bindingAt B (db st) j = Some b \<and> liveState (bState b) \<and> bEnd b \<le> ?now)"
  proof
    assume "\<exists>b. bindingAt B (db st) j = Some b \<and> liveState (bState b) \<and> bEnd b \<le> ?now"
    then obtain b where b: "bindingAt B (db st) j = Some b" "liveState (bState b)" "bEnd b \<le> ?now" by blast
    have "drop 8 (expiryKey b) = j"
      using bookOk_at [OF book b(1)] expiryKey_parts(2) [of b] by (simp add: keyOk_def)
    then have "expiryKey b \<in> set ?ks" unfolding keys(1) using b by blast
    then show "j \<in> drop 8 ` set ?ks" using \<open>drop 8 (expiryKey b) = j\<close> by blast
  next
    assume "j \<in> drop 8 ` set ?ks"
    then obtain k where "k \<in> set ?ks" "j = drop 8 k" by blast
    then show "\<exists>b. bindingAt B (db st) j = Some b \<and> liveState (bState b) \<and> bEnd b \<le> ?now"
      unfolding keys(1) by blast
  qed
  ultimately show ?thesis by (cases "bindingAt B (db st) j") (auto simp: expired_def)
qed

end

end
