(* ===== verification/Book_Standby.thy ===== *)
theory Book_Standby
  imports Book_Expiry
begin

text \<open>
  The warm standby.  The event query of the leader returns the next part of its log, in order
  and complete; applying that part moves the mirror from one prefix of the leader's history to
  a longer one.  A mirror that has applied the whole log is the leader's ledger.
\<close>

section \<open>Reading the log\<close>

text \<open>
  Puts that leave bindings alone, and a snapshot whose associations carry names of the ledger.
\<close>

definition quietPut :: "string \<Rightarrow> bytes \<Rightarrow> bool" where
  "quietPut bk v = (farBucket bk \<or> bk = associationBucket \<and>
     (\<exists>a. bindR (unmarshal v) (decAssociation zeroAssociation) = Inr a \<and> nameOk (asName a) \<and> associationInts a))"

definition snapshotNamed :: "snapshot \<Rightarrow> bool" where
  "snapshotNamed sn = (\<forall>a \<in> set (snAssociations sn). nameOk (asName a) \<and> associationInts a)"

lemma putUint64_less: "m < n \<Longrightarrow> n < 2 ^ 64 \<Longrightarrow> putUint64 m < putUint64 n"
  unfolding putUint64_def using beBytes_less [of "m mod 2 ^ 64" 8 "n mod 2 ^ 64" "[]" "[]"] by simp

lemma putUint64_sorted: "n < 2 ^ 64 \<Longrightarrow> sorted_wrt (<) (map putUint64 [1..<Suc n])"
  by (auto simp: sorted_wrt_map sorted_wrt_iff_nth_less intro!: putUint64_less simp del: upt_Suc)

lemma filter_dropWhile: "(\<And>x. x \<in> set xs \<Longrightarrow> Q x \<Longrightarrow> \<not> P x) \<Longrightarrow> filter P (dropWhile Q xs) = filter P xs"
  by (induction xs) auto

lemma filter_above: "filter (\<lambda>i. a < i) [1..<Suc n] = [Suc a..<Suc n]"
proof (induction n)
  case (Suc n)
  then show ?case by (cases "a < Suc n") (auto simp: upt_Suc_append)
qed simp

lemma collectEvents_take:
  assumes "\<And>i. i \<in> set js \<Longrightarrow> i < 2 ^ 64 \<and> bindR (unmarshal (raw i)) (decEvent zeroEvent) = Inr (e i)"
    "int (length out) \<le> limit"
  shows "collectEvents after limit out (map (\<lambda>i. (putUint64 i, raw i)) js) =
    Inr (take (nat limit) (out @ map e (filter (\<lambda>i. after < i) js)))"
  using assms
proof (induction js arbitrary: out)
  case Nil
  then show ?case by simp
next
  case (Cons i js)
  have i: "getUint64 (putUint64 i) = i" using Cons.prems(1) [of i] by simp
  show ?case
  proof (cases "int (length out) < limit")
    case True
    then show ?thesis
      using Cons.prems Cons.IH [of out] Cons.IH [of "out @ [e i]"] i by (auto simp: not_le)
  next
    case False
    then have "nat limit = length out" using Cons.prems(2) by simp
    then show ?thesis using False by simp
  qed
qed

context bolt_laws
begin

lemma event_entries:
  assumes log: "logOk B t" and few: "bktSeq B eventBucket t < 2 ^ 63"
  shows "bktEntries B eventBucket t = map (\<lambda>i. (putUint64 i, the (eventAt B t i))) [1..<Suc (bktSeq B eventBucket t)]"
proof -
  let ?n = "bktSeq B eventBucket t" and ?es = "bktEntries B eventBucket t"
  note facts = log [unfolded logOk_def, rule_format, OF few]
  have mem: "k \<in> fst ` set ?es \<longleftrightarrow> bktGet B eventBucket k t \<noteq> None" for k
    using entries_get [of k _ eventBucket t] by force
  have "set (map fst ?es) = set (map putUint64 [1..<Suc ?n])"
  proof (intro set_eqI iffI)
    fix k
    assume "k \<in> set (map fst ?es)"
    then obtain i where "1 \<le> i" "i \<le> ?n" "k = putUint64 i" using mem facts by auto
    then show "k \<in> set (map putUint64 [1..<Suc ?n])" by (auto simp del: upt_Suc)
  next
    fix k
    assume "k \<in> set (map putUint64 [1..<Suc ?n])"
    then obtain i where i: "1 \<le> i" "i \<le> ?n" "k = putUint64 i" by (auto simp del: upt_Suc)
    then obtain e where "eventNo B t i = Some e" using facts by blast
    then have "bktGet B eventBucket k t \<noteq> None" using i by (auto simp: eventNo_def eventAt_def split: option.splits)
    then show "k \<in> set (map fst ?es)" using mem by auto
  qed
  then have keys: "map fst ?es = map putUint64 [1..<Suc ?n]"
    by (intro strict_sorted_equal [OF putUint64_sorted entries_sorted]) (use few in simp)
  have "?es = map (\<lambda>k. (k, the (bktGet B eventBucket k t))) (map fst ?es)"
    unfolding map_map by (rule map_idI [symmetric]) (auto simp: entries_get)
  also have "\<dots> = map (\<lambda>i. (putUint64 i, the (eventAt B t i))) [1..<Suc ?n]"
    unfolding keys map_map comp_def eventAt_def ..
  finally show ?thesis .
qed

lemma Events_Done:
  assumes log: "logOk B (db st)" and few: "bktSeq B eventBucket (db st) < 2 ^ 63" and after: "after < 2 ^ 64"
    and run: "Events B after limit st = (Done evs, st')"
  shows "evs = take (nat limit) (map (\<lambda>i. the (eventNo B (db st) i)) [Suc after..<Suc (bktSeq B eventBucket (db st))])"
    "1 \<le> limit"
proof -
  let ?t = "db st"
  let ?n = "bktSeq B eventBucket ?t"
  note facts = log [unfolded logOk_def, rule_format, OF few]
  show limit: "1 \<le> limit" using run by (auto simp: Events_def split: if_splits)
  have res: "collectEvents after limit [] (seekFrom B eventBucket (putUint64 after) ?t) = Inr evs"
    using run by (auto simp: Events_def View_def readTx_def split: if_splits option.splits prod.splits sum.splits)
  define js where "js = dropWhile (\<lambda>i. putUint64 i < putUint64 after) [1..<Suc ?n]"
  have sub: "set js \<subseteq> {1..?n}" unfolding js_def by (auto dest!: set_dropWhileD)
  have seek: "seekFrom B eventBucket (putUint64 after) ?t = map (\<lambda>i. (putUint64 i, the (eventAt B ?t i))) js"
    by (simp add: seekFrom_def event_entries [OF log few] dropWhile_map comp_def js_def del: upt_Suc)
  have decode: "i < 2 ^ 64 \<and> bindR (unmarshal (the (eventAt B ?t i))) (decEvent zeroEvent) = Inr (the (eventNo B ?t i))"
    if "i \<in> set js" for i
  proof -
    have i: "1 \<le> i" "i \<le> ?n" using that sub by auto
    then obtain e where "eventNo B ?t i = Some e" using facts by blast
    then show ?thesis using i few by (auto simp: eventNo_def split: option.splits sum.splits)
  qed
  have "filter (\<lambda>i. after < i) js = [Suc after..<Suc ?n]"
    unfolding js_def filter_above [symmetric]
  proof (rule filter_dropWhile)
    fix i
    assume "i \<in> set [1..<Suc ?n]" "putUint64 i < putUint64 after"
    then show "\<not> after < i" using putUint64_less [of after i] few by auto
  qed
  then show "evs = take (nat limit) (map (\<lambda>i. the (eventNo B ?t i)) [Suc after..<Suc ?n])"
    using res collectEvents_take [of js "\<lambda>i. the (eventAt B ?t i)" "\<lambda>i. the (eventNo B ?t i)" "[]" limit after, OF decode]
      limit by (simp add: seek)
qed

section \<open>Applying the log\<close>

text \<open>A change that leaves every binding alone.\<close>

lemma bindingAt_put: "bktPut B bk k v t = (Done u, t') \<Longrightarrow> bk \<noteq> leaseBucket \<Longrightarrow> bindingAt B t' = bindingAt B t"
  by (rule ext) (simp add: bindingAt_def put_get)

lemma bindingAt_delete: "bktDelete B bk k t = (Done u, t') \<Longrightarrow> bk \<noteq> leaseBucket \<Longrightarrow> bindingAt B t' = bindingAt B t"
  by (rule ext) (simp add: bindingAt_def del_get)

lemma bindingAt_create: "bktCreate B bk t = (Done u, t') \<Longrightarrow> bindingAt B t' = bindingAt B t"
  by (rule ext) (simp add: bindingAt_def create_get)

lemma bindingAt_append:
  assumes "appendEvent B e t = (Done u, t')"
  shows "bindingAt B t' = bindingAt B t"
proof -
  obtain i m where one: "bktNext B eventBucket t = (Done i, m)"
    and two: "bktPut B eventBucket (putUint64 i) (Json (encEvent (e\<lparr>evID := i\<rparr>))) m = (Done (), t')"
    using assms by (auto simp: appendEvent_def bindM_Done)
  have "bindingAt B m = bindingAt B t" by (rule ext) (simp add: bindingAt_def next_get [OF one])
  then show ?thesis using bindingAt_put [OF two] other_buckets(6) by simp
qed

lemma applyEvent_effect:
  assumes run: "applyEvent B ev s = (Done u, s')" and ok: "wholeOk B (db s)" "sane s"
    and ev: "eventInts ev" "keyedEvent ev"
  shows "wholeOk B (db s') \<and> wall s' = wall s \<and> bindingAt B (db s') = applyLogged ev (bindingAt B (db s))"
proof (cases "evObservation ev")
  case None
  show ?thesis
  proof (cases "bScope (evBinding ev) = []")
    case True
    then show ?thesis using run None ok by (simp add: applyEvent_def applyLogged_def)
  next
    case False
    then have saved: "save B (evBinding ev) (evKind ev) s = (Done u, s')" using run None by (simp add: applyEvent_def)
    have key: "keyOk (evBinding ev)" "stored (evBinding ev) = evBinding ev" using ev(2) False by (simp_all add: keyedEvent_def)
    have "grows B 0 UNIV s s'" by (rule grows_save [OF saved key(1)]) simp
    then show ?thesis
      using ok save_effect(2) [OF wholeOk_parts(2) [OF ok(1)] key(1) saved] key(2) None False
      by (simp add: grows_def applyLogged_def)
  qed
next
  case (Some x)
  obtain v m where one: "(if evKind ev = ''observation''
      then inTx (bktPut B observationBucket (bindingKey (obScope x) (obAddress x)) (Json (encObservation x))) else ret ()) s = (Done v, m)"
    and two: "inTx (appendEvent B (observationEvent (evTime ev) (evKind ev) x)) m = (Done u, s')"
    using run Some by (auto simp: applyEvent_def bindM_Done [of "if _ then _ else _"])
  have first: "grows B 0 UNIV s m \<and> bindingAt B (db m) = bindingAt B (db s)"
    using one grows_far [OF far_buckets(2), of _ _ s] bindingAt_put
    by (auto simp: inTx_Done grows_refl bucket_defs split: if_splits)
  obtain t where t: "appendEvent B (observationEvent (evTime ev) (evKind ev) x) (db m) = (Done u, t)" "s' = m\<lparr>db := t\<rparr>"
    using two by (auto simp: inTx_Done)
  have "grows B 0 UNIV m s'"
    unfolding t(2)
  proof (rule grows_append [OF t(1)])
    show "eventInts ((observationEvent (evTime ev) (evKind ev) x)\<lparr>evID := i\<rparr>)" if "i < 2 ^ 64" for i
      using ev(1) Some that saneTime_int64(3) by (simp add: eventInts_def observationEvent_def zeroEvent_def zeroBinding_def)
  qed (simp add: observationEvent_def zeroEvent_def zeroBinding_def)
  then have "grows B 0 UNIV s s'" using first grows_trans by blast
  then show ?thesis using ok first bindingAt_append [OF t(1)] t(2) Some by (simp add: grows_def applyLogged_def)
qed

lemma applyEvents_effect:
  assumes "applyEvents B cursor evs s = (Done n, s')" "wholeOk B (db s)" "sane s"
    "sorted_wrt (<) (cursor # map evID evs)" "\<forall>ev \<in> set evs. eventInts ev \<and> keyedEvent ev"
  shows "wholeOk B (db s') \<and> wall s' = wall s \<and> bindingAt B (db s') = fold applyLogged evs (bindingAt B (db s)) \<and>
    n = last (cursor # map evID evs)"
  using assms
proof (induction evs arbitrary: cursor s)
  case (Cons ev evs)
  obtain v m where one: "applyEvent B ev s = (Done v, m)" and rest: "applyEvents B (evID ev) evs m = (Done n, s')"
    using Cons.prems(1,4) by (auto simp: bindM_Done split: if_splits)
  have ev: "wholeOk B (db m) \<and> wall m = wall s \<and> bindingAt B (db m) = applyLogged ev (bindingAt B (db s))"
    by (rule applyEvent_effect [OF one Cons.prems(2,3)]) (use Cons.prems(5) in auto)
  then have "wholeOk B (db m)" "sane m" using Cons.prems(3) by (simp_all add: sane_def)
  from Cons.IH [OF rest this] show ?case using Cons.prems(4,5) ev by simp
qed simp

lemma clearBucket_effect:
  assumes "eachM (bktDelete B bk) ks t = (Done u, t')" "bk = nodeBucket \<or> bk = associationBucket" "wholeOk B t"
  shows "wholeOk B t' \<and> bindingAt B t' = bindingAt B t"
  using assms
proof (induction ks arbitrary: t)
  case (Cons k ks)
  obtain v m where one: "bktDelete B bk k t = (Done v, m)" and rest: "eachM (bktDelete B bk) ks m = (Done u, t')"
    using Cons.prems(1) by (auto simp: bindM_Done)
  let ?s = "\<lparr>db = t, wall = (\<lambda>_. 0), reads = 0\<rparr>"
  have sane: "sane ?s" by (simp add: sane_def saneTime_def)
  have at: "bindingAt B m = bindingAt B t" by (rule bindingAt_delete [OF one]) (use Cons.prems(2) in \<open>auto simp: bucket_defs\<close>)
  have "wholeOk B m"
  proof (cases "bk = associationBucket")
    case True
    have "grows B 0 UNIV ?s (?s\<lparr>db := m\<rparr>)"
      by (rule grows_association [where v = None and j = k]) (use one True del_get [OF one] del_seq [OF one] in auto)
    then show ?thesis using Cons.prems(3) sane by (simp add: grows_def)
  next
    case False
    then have "farBucket bk" using Cons.prems(2) far_buckets by auto
    then have "bktGet B c j m = bktGet B c j t" if "\<not> farBucket c" for c j using del_get [OF one] that by auto
    from wholeOk_cong(1) [of B m t, OF this del_seq [OF one]] show ?thesis using Cons.prems(3) by simp
  qed
  from Cons.IH [OF rest Cons.prems(2) this] show ?case using at by simp
qed simp

lemma quietPut_effect:
  assumes put: "bktPut B bk k v t = (Done u, t')" and quiet: "quietPut bk v" and ok: "wholeOk B t"
  shows "wholeOk B t' \<and> bindingAt B t' = bindingAt B t"
proof -
  let ?s = "\<lparr>db = t, wall = (\<lambda>_. 0), reads = 0\<rparr>"
  have sane: "sane ?s" by (simp add: sane_def saneTime_def)
  have "bk \<noteq> leaseBucket" using quiet by (auto simp: quietPut_def farBucket_def asideBucket_def bucket_defs)
  moreover have "grows B 0 UNIV ?s (?s\<lparr>db := t'\<rparr>)"
  proof (cases "farBucket bk")
    case True
    show ?thesis by (rule grows_far [OF True]) (use put in simp)
  next
    case False
    then show ?thesis
      by (intro grows_association [where v = "Some v" and j = k])
        (use put_get [OF put] put_seq [OF put] quiet in \<open>auto simp: quietPut_def\<close>)
  qed
  ultimately show ?thesis using ok sane bindingAt_put [OF put] by (simp add: grows_def)
qed

lemma quietPuts_effect:
  assumes "eachM (\<lambda>x. bktPut B bk (key x) (val x)) xs t = (Done u, t')" "\<forall>x \<in> set xs. quietPut bk (val x)" "wholeOk B t"
  shows "wholeOk B t' \<and> bindingAt B t' = bindingAt B t"
  using assms
proof (induction xs arbitrary: t)
  case (Cons x xs)
  obtain v m where one: "bktPut B bk (key x) (val x) t = (Done v, m)"
    and rest: "eachM (\<lambda>x. bktPut B bk (key x) (val x)) xs m = (Done u, t')"
    using Cons.prems(1) by (auto simp: bindM_Done)
  have "wholeOk B m \<and> bindingAt B m = bindingAt B t"
    by (rule quietPut_effect [OF one _ Cons.prems(3)]) (use Cons.prems(2) in simp)
  then show ?case using Cons.IH [OF rest] Cons.prems(2) by simp
qed simp

lemma create_effect:
  assumes "bktCreate B bk t = (Done u, t')" "wholeOk B t"
  shows "wholeOk B t' \<and> bindingAt B t' = bindingAt B t"
  using wholeOk_cong [of B t' t, OF create_get [OF assms(1)] create_seq [OF assms(1)]] assms(2) by simp

lemma association_quiet: "nameOk (asName a) \<Longrightarrow> associationInts a \<Longrightarrow> quietPut associationBucket (Json (encAssociation a))"
  using decAssociation_encAssociation [of a] plain_stored [of "asName a"]
  by (auto simp: quietPut_def unmarshal_def storedAssociation_def nameOk_def associationInts_def versionInts_def
      storedVersion_def list_all_iff)

lemma applySnapshot_effect:
  assumes run: "applySnapshot B sn t = (Done u, t')" and named: "snapshotNamed sn" and ok: "wholeOk B t"
  shows "wholeOk B t' \<and> bindingAt B t' = bindingAt B t"
proof -
  obtain v1 t1 v2 t2 v3 t3 v4 t4 where one: "bktCreate B metaBucket t = (Done v1, t1)"
    and two: "(if snServerDUID sn \<noteq> [] then bindM (liftR (decodeHex (dropColons (snServerDUID sn)))) (\<lambda>raw.
        bktPut B metaBucket ''duid'' (Text raw)) else ret ()) t1 = (Done v2, t2)"
    and three: "eachM (clearBucket B) [nodeBucket, associationBucket] t2 = (Done v3, t3)"
    and four: "eachM (\<lambda>n. bktPut B nodeBucket (nID n) (Json (encNode n))) (snNodes sn) t3 = (Done v4, t4)"
    and five: "eachM (\<lambda>a. bktPut B associationBucket (asClient a) (Json (encAssociation a))) (snAssociations sn) t4 = (Done u, t')"
    using run unfolding applySnapshot_def bindM_Done [of "bktCreate B _"] bindM_Done [of "if _ then _ else _"]
      bindM_Done [of "eachM (clearBucket B) _"] bindM_Done [of "eachM (\<lambda>n. bktPut B nodeBucket (nID n) (Json (encNode n))) _"]
    by blast
  have s1: "wholeOk B t1 \<and> bindingAt B t1 = bindingAt B t" by (rule create_effect [OF one ok])
  have s2: "wholeOk B t2 \<and> bindingAt B t2 = bindingAt B t1"
  proof (cases "snServerDUID sn = []")
    case True
    then show ?thesis using two s1 by simp
  next
    case False
    then obtain raw where "bktPut B metaBucket ''duid'' (Text raw) t1 = (Done v2, t2)" using two by (auto simp: bindM_Done)
    from quietPut_effect [OF this] show ?thesis using s1 far_buckets(1) by (simp add: quietPut_def)
  qed
  obtain v m where a: "clearBucket B nodeBucket t2 = (Done v, m)" and b: "clearBucket B associationBucket m = (Done v3, t3)"
    using three by (auto simp: bindM_Done)
  have s3: "wholeOk B m \<and> bindingAt B m = bindingAt B t2"
    by (rule clearBucket_effect [OF a [unfolded clearBucket_def]]) (use s2 in simp_all)
  have s4: "wholeOk B t3 \<and> bindingAt B t3 = bindingAt B m"
    by (rule clearBucket_effect [OF b [unfolded clearBucket_def]]) (use s3 in simp_all)
  have s5: "wholeOk B t4 \<and> bindingAt B t4 = bindingAt B t3"
    by (rule quietPuts_effect [OF four]) (use s4 far_buckets(3) in \<open>simp_all add: quietPut_def\<close>)
  have "wholeOk B t' \<and> bindingAt B t' = bindingAt B t4"
    by (rule quietPuts_effect [OF five]) (use s5 named association_quiet in \<open>auto simp: snapshotNamed_def\<close>)
  then show ?thesis using s1 s2 s3 s4 s5 by simp
qed

text \<open>One synchronisation: the events, the snapshot, the cursor.\<close>

lemma ApplyReplicated_effect:
  assumes run: "ApplyReplicated B evs sn s = (Done n, s')" and ok: "wholeOk B (db s)" "sane s"
    and evs: "sorted_wrt (<) (ReplicaCursor B s # map evID evs)" "\<forall>ev \<in> set evs. eventInts ev \<and> keyedEvent ev"
    and sn: "\<forall>x. sn = Some x \<longrightarrow> snapshotNamed x"
  shows "wholeOk B (db s') \<and> bindingAt B (db s') = fold applyLogged evs (bindingAt B (db s)) \<and>
    n = last (ReplicaCursor B s # map evID evs) \<and>
    bktGet B metaBucket replicaCursorKey (db s') = Some (Text (putUint64 n)) \<and> bktHas B metaBucket (db s')"
proof -
  let ?c = "ReplicaCursor B s"
  have "Update B (bindM (applyEvents B ?c evs) (\<lambda>cursor.
     bindM (case sn of None \<Rightarrow> ret () | Some x \<Rightarrow> inTx (applySnapshot B x)) (\<lambda>_.
     bindM (inTx (bktCreate B metaBucket)) (\<lambda>_.
     bindM (inTx (bktPut B metaBucket replicaCursorKey (Text (putUint64 cursor)))) (\<lambda>_. ret cursor))))) s = (Done n, s')"
    using run by (simp add: ApplyReplicated_def bindM_Done getS_Done)
  from Update_Done [OF this] obtain m1 m2 t3 t4 u2 u3 u4 where
    one: "applyEvents B ?c evs s = (Done n, m1)" and two: "(case sn of None \<Rightarrow> ret () | Some x \<Rightarrow> inTx (applySnapshot B x)) m1 = (Done u2, m2)"
    and three: "bktCreate B metaBucket (db m2) = (Done u3, t3)"
    and four: "bktPut B metaBucket replicaCursorKey (Text (putUint64 n)) t3 = (Done u4, t4)" and s': "db s' = t4"
    by (auto simp: bindM_Done inTx_Done)
  note e1 = applyEvents_effect [OF one ok evs]
  have e2: "wholeOk B (db m2) \<and> bindingAt B (db m2) = bindingAt B (db m1)"
    using two e1 sn by (cases sn) (auto simp: inTx_Done dest!: applySnapshot_effect)
  have e3: "wholeOk B t3 \<and> bindingAt B t3 = bindingAt B (db m2)" by (rule create_effect [OF three]) (use e2 in simp)
  have e4: "wholeOk B t4 \<and> bindingAt B t4 = bindingAt B t3"
    by (rule quietPut_effect [OF four]) (use e3 far_buckets(1) in \<open>simp_all add: quietPut_def\<close>)
  show ?thesis
    unfolding s' using e1 e2 e3 e4 put_get [OF four] put_has [OF four] create_has [OF three] by simp
qed

end

section \<open>Following the leader\<close>

lemma replay_extend:
  assumes "\<And>i. n < i \<Longrightarrow> i \<le> m \<Longrightarrow> f i = Some (e i)" "n \<le> m"
  shows "replay f m = fold applyLogged (map e [Suc n..<Suc m]) (replay f n)"
  using assms(2,1)
proof (induction m rule: dec_induct)
  case (step k)
  then show ?case by (simp add: upt_Suc_append)
qed simp

lemma take_upt_min: "take k [Suc n..<Suc m] = [Suc n..<Suc (min m (n + k))]"
  by (cases "n + k \<le> m") (simp_all add: take_upt min_def del: upt_Suc)

lemma logged_events:
  assumes "logOk B t" "bktSeq B eventBucket t < 2 ^ 63" "m \<le> bktSeq B eventBucket t"
    and e: "e = (\<lambda>i. the (eventNo B t i))"
  shows "\<forall>ev \<in> set (map e [Suc n..<Suc m]). eventInts ev \<and> keyedEvent ev"
    "map evID (map e [Suc n..<Suc m]) = [Suc n..<Suc m]"
    "n \<le> m \<Longrightarrow> replay (eventNo B t) m = fold applyLogged (map e [Suc n..<Suc m]) (replay (eventNo B t) n)"
proof -
  have each: "eventNo B t i = Some (e i) \<and> evID (e i) = i \<and> eventInts (e i) \<and> keyedEvent (e i)" if i: "n < i" "i \<le> m" for i
  proof -
    have "1 \<le> i" "i \<le> bktSeq B eventBucket t" using i assms(3) by auto
    then obtain x where "eventNo B t i = Some x" "evID x = i" "eventInts x" "keyedEvent x"
      using assms(1,2) unfolding logOk_def by blast
    then show ?thesis by (simp add: e)
  qed
  show "\<forall>ev \<in> set (map e [Suc n..<Suc m]). eventInts ev \<and> keyedEvent ev" using each by (auto simp del: upt_Suc)
  show "map evID (map e [Suc n..<Suc m]) = [Suc n..<Suc m]"
    unfolding map_map by (rule map_idI) (use each in \<open>auto simp del: upt_Suc\<close>)
  show "n \<le> m \<Longrightarrow> replay (eventNo B t) m = fold applyLogged (map e [Suc n..<Suc m]) (replay (eventNo B t) n)"
    by (rule replay_extend) (use each in auto)
qed

lemma standby_follows:
  assumes laws: "bolt_laws B" "bolt_laws B'"
    and leader: "wholeOk B (db L)" "bktSeq B eventBucket (db L) < 2 ^ 63"
    and mirror: "wholeOk B' (db S)" "sane S" "ReplicaCursor B' S = n" "n \<le> bktSeq B eventBucket (db L)"
      "bindingAt B' (db S) = replay (eventNo B (db L)) n"
    and page: "Events B n limit L = (Done evs, L')"
    and sync: "ApplyReplicated B' evs sn S = (Done m, S')" "\<forall>x. sn = Some x \<longrightarrow> snapshotNamed x"
  shows "m = min (bktSeq B eventBucket (db L)) (n + nat limit)"
    "wholeOk B' (db S')" "bindingAt B' (db S') = replay (eventNo B (db L)) m"
    "bktGet B' metaBucket replicaCursorKey (db S') = Some (Text (putUint64 m))"
    "m = bktSeq B eventBucket (db L) \<Longrightarrow> bindingAt B' (db S') = bindingAt B (db L)"
proof -
  let ?q = "bktSeq B eventBucket (db L)"
  define e where "e = (\<lambda>i. the (eventNo B (db L) i))"
  define k where "k = min ?q (n + nat limit)"
  have log: "logOk B (db L)" using leader(1) by (simp add: wholeOk_def)
  have "evs = take (nat limit) (map e [Suc n..<Suc ?q])"
    unfolding e_def by (rule bolt_laws.Events_Done(1) [OF laws(1) log leader(2) _ page]) (use mirror(4) leader(2) in simp)
  then have evs: "evs = map e [Suc n..<Suc k]" by (simp add: take_map take_upt_min k_def del: upt_Suc)
  have nk: "n \<le> k" "k \<le> ?q" using mirror(4) by (simp_all add: k_def)
  note facts = logged_events [OF log leader(2) nk(2) e_def, of n]
  have ids: "map evID evs = [Suc n..<Suc k]" unfolding evs by (rule facts(2))
  have order: "sorted_wrt (<) (ReplicaCursor B' S # map evID evs)"
    unfolding ids mirror(3) by (auto simp: sorted_wrt_upt simp del: upt_Suc)
  have last: "last (n # [Suc n..<Suc k]) = k" using nk(1) by (cases "n = k") (auto simp: upt_Suc_append)
  note res = bolt_laws.ApplyReplicated_effect [OF laws(2) sync(1) mirror(1,2) order _ sync(2), unfolded evs, OF facts(1)]
  have "m = k" using res ids last mirror(3) unfolding evs by metis
  then show "m = min ?q (n + nat limit)" by (simp add: k_def)
  show "wholeOk B' (db S')" "bktGet B' metaBucket replicaCursorKey (db S') = Some (Text (putUint64 m))" using res by auto
  show replayed: "bindingAt B' (db S') = replay (eventNo B (db L)) m"
    using res facts(3) [OF nk(1)] mirror(5) \<open>m = k\<close> by simp
  show "bindingAt B' (db S') = bindingAt B (db L)" if "m = ?q"
    using replayed that log leader(2) by (simp add: logOk_def)
qed

end
