(* ===== verification/Book_Delegation.thy ===== *)
theory Book_Delegation
  imports Book_Standby
begin

text \<open>
  The arithmetic of delegated prefixes: the byte-wise addition with carry is addition on the
  128-bit address, and the prefixes of a pool are canonical, inside the pool and distinct.
\<close>

section \<open>The carry loop\<close>

fun little :: "nat list \<Rightarrow> nat" where
  "little [] = 0"
| "little (b # bs) = b + 256 * little bs"

lemma little_bound: "list_all (\<lambda>b. b < 256) bs \<Longrightarrow> little bs < 256 ^ length bs"
  by (induction bs) auto

lemma addCarry_adds:
  "list_all (\<lambda>b. b < 256) bs \<Longrightarrow> c < 2 ^ 64 \<Longrightarrow>
     little (addCarry c bs) = (little bs + c) mod 256 ^ length bs \<and>
     list_all (\<lambda>b. b < 256) (addCarry c bs) \<and> length (addCarry c bs) = length bs"
proof (induction bs arbitrary: c)
  case (Cons b bs)
  show ?case
  proof (cases "c = 0")
    case True
    then show ?thesis using Cons.prems little_bound [of "b # bs"] by simp
  next
    case False
    define sum where "sum = b + c mod 256"
    define c' where "c' = c div 256 + sum div 256"
    have m: "c mod 256 < 256" and b: "b < 256" using Cons.prems(1) by simp_all
    have "sum < 2 * 256" unfolding sum_def using b m by linarith
    then have "sum div 256 < 2" by (rule less_mult_imp_div_less)
    moreover have "c div 256 < 2 ^ 56" using Cons.prems(2) by (intro less_mult_imp_div_less) simp
    ultimately have small: "c' < 2 ^ 64" by (simp add: c'_def)
    then have IH: "little (addCarry c' bs) = (little bs + c') mod 256 ^ length bs \<and>
        list_all (\<lambda>b. b < 256) (addCarry c' bs) \<and> length (addCarry c' bs) = length bs"
      using Cons.IH [of c'] Cons.prems(1) by simp
    have step: "addCarry c (b # bs) = sum mod 256 # addCarry c' bs"
      using False small by (simp add: sum_def c'_def Let_def)
    have total: "b + 256 * little bs + c = sum mod 256 + 256 * (little bs + c')"
      using mod_mult_div_eq [of c 256] mod_mult_div_eq [of sum 256] by (simp add: c'_def sum_def algebra_simps)
    have wrap: "(sum mod 256 + 256 * x) mod (256 * 256 ^ n) = sum mod 256 + 256 * (x mod 256 ^ n)" for x n
      using mod_mult2_eq [of "sum mod 256 + 256 * x" 256 "256 ^ n"] by (simp add: add.commute)
    have "(little (b # bs) + c) mod 256 ^ length (b # bs) = little (sum mod 256 # addCarry c' bs)"
      unfolding little.simps total list.size add_0_right add_Suc_right power_Suc wrap using IH by simp
    then show ?thesis unfolding step using IH by simp
  qed
qed simp

lemma ofBytes_snoc: "ofBytes (xs @ [y]) = ofBytes xs * 256 + y" "ofBytes [] = 0"
  by (simp_all add: ofBytes_def)

lemma ofBytes_append: "ofBytes (xs @ ys) = ofBytes xs * 256 ^ length ys + ofBytes ys"
proof (induction ys rule: rev_induct)
  case (snoc y ys)
  have "ofBytes (xs @ ys @ [y]) = ofBytes (xs @ ys) * 256 + y" using ofBytes_snoc(1) [of "xs @ ys" y] by simp
  then show ?case by (simp add: snoc.IH ofBytes_snoc(1) distrib_right)
qed (simp add: ofBytes_snoc)

lemma ofBytes_rev: "ofBytes (rev bs) = little bs"
  by (induction bs) (simp_all add: ofBytes_snoc)

lemma ofBytes_be: "ofBytes (beBytes k n) = n mod 256 ^ k"
  using ofBytes_beBytes [of 0 k n] by (simp add: ofBytes_def)

lemma beBytes_take: "m \<le> k \<Longrightarrow> take m (beBytes k n) = beBytes m (n div 256 ^ (k - m))"
  by (rule nth_equalityI) (auto simp: beBytes_def div_mult2_eq [symmetric] power_add [symmetric])

lemma beBytes_drop: "m \<le> k \<Longrightarrow> drop m (beBytes k n) = beBytes (k - m) n"
  by (rule nth_equalityI) (auto simp: beBytes_def add.commute)

section \<open>The prefixes of a pool\<close>

lemma unat_128: "n < 2 ^ 128 \<Longrightarrow> unat (of_nat n :: 128 word) = n"
  by (simp add: unsigned_of_nat take_bit_eq_mod)

lemma prefixAt_sum:
  assumes len: "32 \<le> len" "len \<le> 64" and i: "i < 2 ^ 16" and a: "as16 (pfxAddr pool) < 2 ^ 128"
    and fits: "as16 (pfxAddr pool) + i * 2 ^ (128 - len) < 2 ^ 128"
  shows "prefixAt pool len i = \<lparr>pfxAddr = V6 (of_nat (as16 (pfxAddr pool) + i * 2 ^ (128 - len))) [], pfxBits = len\<rparr>"
proof -
  define A where "A = as16 (pfxAddr pool)"
  define q where "q = (128 - len) div 8"
  define c where "c = i * 2 ^ ((128 - len) mod 8)"
  have q: "q \<le> 12" "15 - q = 15 - (128 - len) div 8" using len by (simp_all add: q_def)
  have "(2 :: nat) ^ ((128 - len) mod 8) < 2 ^ 8" by (rule power_strict_increasing) auto
  then have "c < 2 ^ 16 * 2 ^ 8"
    unfolding c_def by (intro mult_strict_mono i) auto
  then have c: "c < 2 ^ 64" by simp
  let ?raw = "beBytes 16 A"
  have idx: "Suc (15 - q) = 16 - q" "16 - (16 - q) = q" using q(1) by auto
  have top: "take (Suc (15 - q)) ?raw = beBytes (16 - q) (A div 256 ^ q)"
    using beBytes_take [of "16 - q" 16 A] by (simp add: idx)
  have rest: "drop (Suc (15 - q)) ?raw = beBytes q A"
    using beBytes_drop [of "16 - q" 16 A] by (simp add: idx)
  have bytes: "list_all (\<lambda>b. b < 256) (rev (beBytes (16 - q) (A div 256 ^ q)))"
    using beBytes_bound [of "16 - q" "A div 256 ^ q"] by simp
  note carry = addCarry_adds [OF bytes c]
  have pow: "(256 :: nat) ^ q * 2 ^ ((128 - len) mod 8) = 2 ^ (128 - len)"
  proof -
    have "(256 :: nat) ^ q = 2 ^ (8 * q)" by (simp add: power_mult)
    then show ?thesis by (simp add: q_def power_add [symmetric])
  qed
  have split: "(256 :: nat) ^ (16 - q) * 256 ^ q = 2 ^ 128"
  proof -
    have "(256 :: nat) ^ (16 - q) * 256 ^ q = 256 ^ 16" using q by (simp add: power_add [symmetric])
    then show ?thesis by simp
  qed
  have ci: "c * 256 ^ q = i * 2 ^ (128 - len)" using pow by (simp add: c_def mult.assoc mult.commute)
  have A: "A div 256 ^ q * 256 ^ q + A mod 256 ^ q = A" by (rule div_mult_mod_eq)
  have low: "A div 256 ^ q + c < 256 ^ (16 - q)"
  proof -
    have "(A div 256 ^ q + c) * 256 ^ q \<le> A + i * 2 ^ (128 - len)" using A ci by (simp add: distrib_right)
    then have "(A div 256 ^ q + c) * 256 ^ q < 256 ^ (16 - q) * 256 ^ q" using fits split by (simp add: A_def)
    then show ?thesis by simp
  qed
  have "ofBytes (rev (addCarry c (rev (take (Suc (15 - q)) ?raw))) @ drop (Suc (15 - q)) ?raw) =
      (A div 256 ^ q + c) * 256 ^ q + A mod 256 ^ q"
    unfolding top rest ofBytes_append ofBytes_rev
    using carry low by (simp add: ofBytes_be ofBytes_rev [of "rev _", simplified, symmetric])
  also have "\<dots> = A + i * 2 ^ (128 - len)" using A ci by (simp add: distrib_right)
  finally show ?thesis
    using c by (simp add: prefixAt_def Let_def A_def q_def c_def)
qed

lemma pool_member:
  assumes pool: "delegationOk p pd pool" and i: "i < poolSize pool (nat (pdLength pd))"
    and len: "len = nat (pdLength pd)" and A: "A = as16 (pfxAddr pool)"
  shows "prefixAt pool len i = \<lparr>pfxAddr = V6 (of_nat (A + i * 2 ^ (128 - len))) [], pfxBits = len\<rparr>"
    "A + i * 2 ^ (128 - len) < 2 ^ 128" "inPool pool len (prefixAt pool len i)"
proof -
  obtain w z where w: "pfxAddr pool = V6 w z" using pool by (auto simp: delegationOk_def Is6_def split: addr.splits)
  define b where "b = pfxBits pool"
  have bounds: "32 \<le> len" "len \<le> 64" "b < len" "len - b \<le> 16"
    using pool len by (auto simp: delegationOk_def b_def)
  have Aw: "A = unat w" by (simp add: A as16_def w)
  have A128: "A < 2 ^ 128" unfolding Aw using unsigned_less [of w, where 'a = nat] by simp
  let ?m = "2 ^ (128 - b) :: nat" and ?s = "2 ^ (128 - len) :: nat"
  have "pfxAddr pool = pfxAddr (Masked pool)" using pool by (simp add: delegationOk_def)
  then have word: "of_nat (maskVal 128 b A) = w" by (simp add: Masked_def w maskAddr_def b_def Aw)
  have "maskVal 128 b A \<le> A" by (simp add: maskVal_def)
  then have "maskVal 128 b A < 2 ^ 128" using A128 by linarith
  from unat_128 [OF this] have mask: "A div ?m * ?m = A" unfolding word by (simp add: maskVal_def Aw)
  have ms: "?m = 2 ^ (len - b) * ?s" using bounds by (simp add: power_add [symmetric])
  have i': "i < 2 ^ (len - b)" using i by (simp add: poolSize_def len b_def)
  then have small: "i * ?s < ?m" unfolding ms by simp
  have "Suc (A div ?m) * ?m \<le> 2 ^ 128"
  proof -
    have "A div ?m < 2 ^ b" using A128 bounds by (intro less_mult_imp_div_less) (simp add: power_add [symmetric])
    then have "Suc (A div ?m) * ?m \<le> 2 ^ b * ?m" by (intro mult_le_mono1) simp
    then show ?thesis using bounds by (simp add: power_add [symmetric])
  qed
  then show fits: "A + i * ?s < 2 ^ 128" using small mask by simp
  have "(2 :: nat) ^ (len - b) \<le> 2 ^ 16" using bounds(4) by (intro power_increasing) auto
  then have i16: "i < 2 ^ 16" using i' by linarith
  show at: "prefixAt pool len i = \<lparr>pfxAddr = V6 (of_nat (A + i * ?s)) [], pfxBits = len\<rparr>"
    unfolding A by (rule prefixAt_sum [OF bounds(1,2) i16]) (use A128 fits A in simp_all)
  have val: "unat (of_nat (A + i * ?s) :: 128 word) = A + i * ?s" using fits by (rule unat_128)
  have "(A + i * ?s) div ?m = (i * ?s + A div ?m * ?m) div ?m" by (simp only: mask add.commute)
  also have "\<dots> = A div ?m + i * ?s div ?m" by (rule div_mult_self1) simp
  also have "i * ?s div ?m = 0" using small by (rule div_less)
  finally have high: "(A + i * ?s) div ?m = A div ?m" by simp
  have low: "(A + i * ?s) div ?s * ?s = A + i * ?s"
  proof -
    have "A = A div ?m * (2 ^ (len - b) * ?s)" using mask unfolding ms [symmetric] by simp
    then have "A + i * ?s = (A div ?m * 2 ^ (len - b) + i) * ?s" by (simp only: distrib_right mult.assoc)
    then show ?thesis by simp
  qed
  define N where "N = A + i * ?s"
  show "inPool pool len (prefixAt pool len i)"
    using val low high
    unfolding at inPool_def N_def [symmetric]
    by (simp add: Masked_def maskAddr_def maskVal_def Contains_def addrZone_def bitLen_def addrVal_def w Aw b_def)
qed

lemma pool_distinct:
  assumes "delegationOk p pd pool" "i < poolSize pool (nat (pdLength pd))" "j < poolSize pool (nat (pdLength pd))"
    "prefixAt pool (nat (pdLength pd)) i = prefixAt pool (nat (pdLength pd)) j"
  shows "i = j"
proof -
  let ?A = "as16 (pfxAddr pool)" and ?s = "2 ^ (128 - nat (pdLength pd)) :: nat"
  note mi = pool_member [OF assms(1,2) refl refl] and mj = pool_member [OF assms(1,3) refl refl]
  have "(of_nat (?A + i * ?s) :: 128 word) = of_nat (?A + j * ?s)" using assms(4) mi(1) mj(1) by simp
  then have "?A + i * ?s = ?A + j * ?s"
    using unat_128 [OF mi(2)] unat_128 [OF mj(2)] by metis
  then show ?thesis by simp
qed

end
