(* ===== verification/Book_Grants.thy ===== *)
theory Book_Grants
  imports Book_Delegation
begin

text \<open>
  The outcome of an allocation as a whole: what a returned lease guarantees, and that an
  operation that returns an error has not touched the ledger.
\<close>

context bolt_laws
begin

lemma Allocate_Done:
  assumes run: "Allocate B c sc client mac claimed requested commit st = (Done b, st')"
    and c: "configOk c" and plain: "plain requested" and ok: "wholeOk B (db st)" "sane st"
  obtains s mac' where "cScope c sc = Some s" "sEnabled s" "bScope b = sc" "bClient b = client"
    "allowed s client mac' (bAddress b)" "freeFor B (db st) sc client (wall st (reads st)) (bAddress b)"
    "commit \<longrightarrow> bAddress b = requested \<and> bState b = ''active'' \<and> bEnd b = wall st (reads st) + sLeaseSeconds s \<and>
       bindingAt B (db st') = (bindingAt B (db st))(bindingKey sc requested \<mapsto> stored b)"
    "\<forall>k. k \<noteq> bindingKey sc (bAddress b) \<longrightarrow> bindingAt B (db st') k = bindingAt B (db st) k"
proof -
  let ?st = "st\<lparr>reads := Suc (reads st)\<rparr>" and ?now = "wall st (reads st)"
  obtain s mac' where req: "checkRequest c sc client mac = Inr (s, mac')"
    and upd: "Update B (allocateTx B c s client mac' claimed requested commit ?now) ?st = (Done b, st')"
    using run by (auto simp: Allocate_def bindM_Done bookNow_Done)
  note facts = checkRequest_Inr [OF req]
  have s: "scopeOk c s" "sID s = sc" using configOk_scope [OF c facts(1)] by auto
  have whole: "wholeOk B (db ?st)" using ok(1) by simp
  note book = wholeOk_parts(2) [OF whole]
  note res = allocateTx_Done [OF wholeOk_parts(1) [OF whole] s(1) configOk_named [OF c] facts(2-4) plain
      sane_now [OF ok(2)] Update_Done [OF upd]]
  have avail: "allowed s client mac' (bAddress b)" "freeFor B (db st) sc client ?now (bAddress b)"
    using res(1) available_iff [OF book] s(2) by auto
  have key: "keyOf b = bindingKey sc (bAddress b)" using res(2) s(2) by (simp add: keyOf_def)
  have saved: "bindingAt B (db st') = (bindingAt B (db st))(keyOf b \<mapsto> stored b)" if "save B b kind ?st = (Done (), st')" for kind
    using save_effect(2) [OF book res(4) that] by simp
  have "\<forall>k. k \<noteq> bindingKey sc (bAddress b) \<longrightarrow> bindingAt B (db st') k = bindingAt B (db st) k"
    using res(6) saved key by auto
  moreover have "commit \<longrightarrow> bAddress b = requested \<and> bState b = ''active'' \<and> bEnd b = ?now + sLeaseSeconds s \<and>
       bindingAt B (db st') = (bindingAt B (db st))(bindingKey sc requested \<mapsto> stored b)"
    using res(5,6) saved key by auto
  ultimately show ?thesis
    using that [OF facts(1,5) _ res(3) avail] res(2) s(2) by simp
qed

end

lemma liftR_Err: "liftR x s = (Err e, s') \<Longrightarrow> s' = s"
  by (auto simp: prog_defs split: sum.splits)

lemma bindM_Err: "bindM m k s = (Err e, s') \<longleftrightarrow> m s = (Err e, s') \<or> (\<exists>a t. m s = (Done a, t) \<and> k a t = (Err e, s'))"
  by (auto simp: bindM_def split: prod.splits outcome.splits)

lemma bookNow_Err: "bookNow s \<noteq> (Err e, s')"
  by (simp add: bookNow_def)

text \<open>An operation that fails leaves the database alone.\<close>

definition failsClean :: "('t book, 'a) prog \<Rightarrow> bool" where
  "failsClean m = (\<forall>s e s'. m s = (Err e, s') \<longrightarrow> db s' = db s)"

lemma failsClean_raise: "failsClean (raise e)" "failsClean (ret a)" "failsClean panic"
  by (auto simp: failsClean_def prog_defs panic_def)

lemma failsClean_get: "(\<And>a. failsClean (f a)) \<Longrightarrow> failsClean (bindM (getS g) f)"
  unfolding failsClean_def by (auto simp: bindM_Err getS_def)

lemma failsClean_now: "(\<And>n. failsClean (f n)) \<Longrightarrow> failsClean (bindM bookNow f)"
  unfolding failsClean_def by (fastforce simp: bindM_Err bookNow_Done bookNow_Err)

lemma failsClean_check: "(\<And>a. failsClean (f a)) \<Longrightarrow> failsClean (bindM (liftR x) f)"
  unfolding failsClean_def by (auto simp: bindM_Err dest: liftR_Err)

context bolt_laws
begin

lemma failsClean_Update: "failsClean (Update B body)"
  using Update_Err by (fastforce simp: failsClean_def)

lemmas clean_rules = failsClean_raise failsClean_now failsClean_check failsClean_get failsClean_Update

lemma operations_fail_clean:
  "failsClean (Allocate B c sc client mac claimed requested commit)" "failsClean (Release B sc client ip decline)"
  "failsClean (Expire B)" "failsClean (ImportDocument B duidOk c doc)" "failsClean (Repair B c changes)"
  "failsClean (observeAll B c xs ttl)" "failsClean (audit B kind message)"
  "failsClean (AllocatePrefix B s pd client duid hint via commit)" "failsClean (releasePrefix B s client)"
  "failsClean (ApplyReplicated B events sn)"
proof -
  show "failsClean (Allocate B c sc client mac claimed requested commit)"
    unfolding Allocate_def by (rule failsClean_check) (auto intro: clean_rules split: prod.splits)
  show "failsClean (ImportDocument B duidOk c doc)"
    unfolding ImportDocument_def by (auto intro: clean_rules)
  show "failsClean (AllocatePrefix B s pd client duid hint via commit)"
    unfolding AllocatePrefix_def by (auto intro: clean_rules split: option.splits)
qed (auto simp: Release_def Expire_def Repair_def observeAll_def audit_def releasePrefix_def ApplyReplicated_def
    intro: clean_rules)

section \<open>Choosing an address always returns\<close>

lemma chooseAddress_returns:
  assumes ok: "bookOk B (db st)" and s: "scopeOk c s" and client: "plain client"
  shows "fst (chooseAddress B s client mac now requested commit st) \<noteq> Died"
proof -
  have label: "plain (sID s)" using s labelPattern_plain by (auto simp: scopeOk_def)
  obtain mine where mine: "liveByClient B (sID s) client (db st) = Inr mine"
    using live_client [OF ok label client] by blast
  have usable: "\<exists>u. available B s client mac now x (db st) = Inr u" for x
    using available_iff [OF ok] by blast
  obtain p where p: "poolOk s p" using s by (auto simp: scopeOk_def)
  obtain lo hi where b: "ParseAddr (sStart s) = Some lo" "ParseAddr (sEnd s) = Some hi" "poolFits 0 lo hi"
    by (rule poolOk_bounds [OF p])
  obtain r where r: "poolScan B s client mac now (db st) 0 lo hi = Inr r" "r \<noteq> Unbounded"
    using poolScan_result [OF ok b(3)] by blast
  obtain u where u: "available B s client mac now requested (db st) = Inr u" using usable by blast
  obtain v where v: "available B s client mac now (rediscover s client mac now requested mine) (db st) = Inr v"
    using usable by blast
  show ?thesis
    using mine u v b(1,2) r
    by (cases commit; cases u; cases v; cases r)
      (simp_all add: chooseAddress_def bindM_def readTx_def liftR_def ret_def raise_def)
qed

end

end
