(* ===== verification/Book_Demo.thy ===== *)
theory Book_Demo
  imports Book_Reach "HOL-Library.Code_Target_Nat"
begin

text \<open>
  A small address book on the in-memory store: one IPv4 network with a validated
  configuration, opened and holding one active lease.
\<close>

definition lanScope :: scope where
  "lanScope = zeroScope\<lparr>sID := ''lan'', sInterface := ''eth0'', sSubnet := ''192.168.1.0/24'',
     sServer := ''192.168.1.1'', sStart := ''192.168.1.100'', sEnd := ''192.168.1.103'',
     sRouter := ''192.168.1.1'', sZone := ''home.example'', sLeaseSeconds := 3600, sEnabled := True\<rparr>"

definition lanConfig :: config where
  "lanConfig = zeroConfig\<lparr>cScopes := [lanScope]\<rparr>"

definition newBook :: "mem book" where
  "newBook = \<lparr>db = [], wall = (\<lambda>_. 1000), reads = 0\<rparr>"

definition openBook :: "mem book" where
  "openBook = snd (Open memBolt newBook)"

definition aliceLease :: binding where
  "aliceLease = zeroBinding\<lparr>bScope := ''lan'', bAddress := ''192.168.1.100'', bClient := ''mac:02:00:00:00:00:01'',
     bMAC := ''02:00:00:00:00:01'', bDevice := ''alice'', bName := ''alice'', bState := ''active'', bOrigin := ''dhcpv4'',
     bStart := 900, bEnd := 4500\<rparr>"

definition aliceBook :: "mem book" where
  "aliceBook = snd (save memBolt aliceLease ''grant'' openBook)"

lemma lan_valid: "configOk lanConfig"
  unfolding configOk_def by code_simp

lemma mem_laws: "bolt_laws memBolt" "reliable_bolt memBolt"
  by unfold_locales

lemma new_blank: "blank memBolt (db newBook)"
  by (simp add: blank_def newBook_def memBolt_def memPairs_def memBucket_def)

lemma open_done: "Open memBolt newBook = (Done (), openBook)"
proof -
  have "fst (Open memBolt newBook) = Done ()" by code_simp
  then show ?thesis by (simp add: openBook_def prod_eq_iff)
qed

lemma open_blank: "blank memBolt (db openBook)"
  by (rule mem.Open_blank [OF open_done new_blank])

lemma open_ok: "wholeOk memBolt (db openBook)"
  by (rule blank_wholeOk [OF open_blank])

lemma open_db: "openBook = newBook\<lparr>db := db openBook\<rparr>"
proof -
  obtain t where "openBook = newBook\<lparr>db := t\<rparr>"
    using mem.Update_Done [OF open_done [unfolded Open_def]] unfolding inTx_Done by blast
  then show ?thesis by (metis book.select_convs(1) book.surjective book.update_convs(1))
qed

lemma open_code [code]:
  "openBook = newBook\<lparr>db := map (\<lambda>b. (b, 0, [])) ([leaseBucket, eventBucket, nodeBucket, observationBucket,
     associationBucket, expiryBucket] @ indexBuckets @ [dnsBucket])\<rparr>"
proof -
  have "db openBook = map (\<lambda>b. (b, 0, [])) ([leaseBucket, eventBucket, nodeBucket, observationBucket,
      associationBucket, expiryBucket] @ indexBuckets @ [dnsBucket])"
    by code_simp
  then show ?thesis using open_db by metis
qed

lemma open_wall: "wall openBook = (\<lambda>_. 1000)"
  by (subst open_db) (simp add: newBook_def)

lemma open_sane: "sane openBook"
  by (simp add: sane_def saneTime_def open_wall)

lemma alice_key: "keyOk aliceLease" "stored aliceLease = aliceLease"
  by code_simp+

lemma alice_saved: "save memBolt aliceLease ''grant'' openBook = (Done (), aliceBook)"
proof -
  have "fst (save memBolt aliceLease ''grant'' openBook) = Done ()" by code_simp
  then show ?thesis by (simp add: aliceBook_def prod_eq_iff)
qed

lemma alice_grows: "grows memBolt 1000 {} openBook aliceBook"
proof (rule mem.grows_save [OF alice_saved alice_key(1)])
  fix x :: binding and other
  assume "bindingAt memBolt (db openBook) (keyOf aliceLease) = Some x"
  then show "heldBy aliceLease other 1000" using open_blank by (simp add: bindingAt_def blank_def)
qed

lemma alice_ok: "wholeOk memBolt (db aliceBook)" "sane aliceBook" "wall aliceBook = wall openBook"
  using alice_grows open_ok open_sane by (auto simp: grows_def sane_def)

lemma alice_wall: "wall aliceBook i = 1000"
  by (simp add: alice_ok(3) open_wall)

lemma alice_holds: "holds memBolt (db aliceBook) 1000 ''lan/192.168.1.100'' ''mac:02:00:00:00:00:01''"
proof -
  have key: "keyOf aliceLease = ''lan/192.168.1.100''" "heldBy aliceLease ''mac:02:00:00:00:00:01'' 1000"
    by code_simp+
  have "bindingAt memBolt (db aliceBook) (keyOf aliceLease) = Some aliceLease"
    using mem.save_effect(2) [OF wholeOk_parts(2) [OF open_ok] alice_key(1) alice_saved] alice_key(2) by simp
  then show ?thesis using key by (auto simp: holds_def)
qed

lemma allocate_step:
  assumes "plain requested" "sane st" "wall st (reads st) = now"
  shows "bookStep B duidOk c now {} st (snd (Allocate B c sc client mac claimed requested commit st))"
  unfolding assms(3) [symmetric] by (rule bookStep.allocated [OF surjective_pairing assms(1,2)])

end
