(* ===== verification/Book_Properties.thy ===== *)
theory Book_Properties
  imports Book_Grants Book_Demo
begin

text \<open>
  The properties of the address book, over every store that keeps the documented laws, with
  witnesses on the in-memory store.
\<close>

section \<open>Leases\<close>










text \<open>
  C19. A discovery finds an address whenever one is free: when some address of the pool of a
  validated scope is allowed to the client and held by nobody else, the choice returns one,
  and what it returns is allowed and free.
\<close>

theorem discovery_finds_a_free_address:
  assumes "bolt_laws B" "configOk c" "wholeOk B (db st)" "cScope c sc = Some s" "plain client" "plain requested"
    "findReservation s client mac = None" "inRange s x" "addrZone x = []"
    "allowed s client mac (addrString x)" "freeFor B (db st) sc client now (addrString x)"
  shows "\<exists>ip. chooseAddress B s client mac now requested False st = (Done ip, st) \<and>
    allowed s client mac ip \<and> freeFor B (db st) sc client now ip"
proof -
  note book = wholeOk_parts(2) [OF assms(3)]
  have s: "scopeOk c s" "sID s = sc" using configOk_scope [OF assms(2,4)] by auto
  have "available B s client mac now (addrString x) (db st) = Inr True"
    using available_iff [OF book] assms(10,11) s(2) by simp
  then obtain ip where ip: "chooseAddress B s client mac now requested False st = (Done ip, st)"
    using bolt_laws.discovery_total [OF assms(1) book s(1) assms(5,7-9)] by blast
  then have "available B s client mac now ip (db st) = Inr True"
    using bolt_laws.chooseAddress_Done(2) [OF assms(1) book s(1) assms(5,6)] by blast
  then show ?thesis using ip available_iff [OF book] s(2) by auto
qed

theorem discovery_finds_a_free_address_witness:
  "\<exists>ip. chooseAddress memBolt lanScope ''mac:02:00:00:00:00:02'' ''02:00:00:00:00:02'' 1000 [] False aliceBook = (Done ip, aliceBook) \<and>
     freeFor memBolt (db aliceBook) ''lan'' ''mac:02:00:00:00:00:02'' 1000 ip"
proof -
  let ?x = "V4 3232235877"
  have facts: "cScope lanConfig ''lan'' = Some lanScope" "plain ''mac:02:00:00:00:00:02''" "plain []"
    "findReservation lanScope ''mac:02:00:00:00:00:02'' ''02:00:00:00:00:02'' = None" "inRange lanScope ?x" "addrZone ?x = []"
    "allowed lanScope ''mac:02:00:00:00:00:02'' ''02:00:00:00:00:02'' (addrString ?x)"
    by code_simp+
  have "bktGet memBolt leaseBucket (bindingKey ''lan'' (addrString ?x)) (db aliceBook) = None" by code_simp
  then have "freeFor memBolt (db aliceBook) ''lan'' ''mac:02:00:00:00:00:02'' 1000 (addrString ?x)"
    by (simp add: freeFor_def bindingAt_def)
  from discovery_finds_a_free_address [OF mem_laws(1) lan_valid alice_ok(1) facts this] show ?thesis by blast
qed

text \<open>
  C20. Choosing an address always returns: for a validated scope the scan of the pool ends within
  its 65536 steps and the code never reaches one of its panics.
\<close>

theorem choosing_an_address_returns:
  assumes "bolt_laws B" "configOk c" "wholeOk B (db st)" "cScope c sc = Some s" "plain client"
  shows "fst (chooseAddress B s client mac now requested commit st) \<noteq> Died"
  using bolt_laws.chooseAddress_returns [OF assms(1) wholeOk_parts(2) [OF assms(3)]] configOk_scope [OF assms(2,4)] assms(5)
  by blast

theorem choosing_an_address_returns_witness:
  "fst (chooseAddress memBolt lanScope ''mac:02:00:00:00:00:02'' ''02:00:00:00:00:02'' 1000 ''10.0.0.1'' False aliceBook) \<noteq> Died"
proof -
  have "cScope lanConfig ''lan'' = Some lanScope" "plain ''mac:02:00:00:00:00:02''" by code_simp+
  from choosing_an_address_returns [OF mem_laws(1) lan_valid alice_ok(1) this] show ?thesis .
qed

section \<open>Queries and expiry\<close>

text \<open>
  C21. The secondary indexes answer like a scan of the whole ledger: the live bindings of a
  client in a scope, the live bindings of an address and the active holders of a name are
  exactly the stored bindings with that property.
\<close>

theorem index_queries_are_scans:
  assumes "bolt_laws B" "wholeOk B t" "plain sc" "plain client" "plain ad" "plain name" "name \<noteq> []"
  shows "(\<exists>out. liveByClient B sc client t = Inr out \<and>
      set out = {b. bindingAt B t (keyOf b) = Some b \<and> liveState (bState b) \<and> bClient b = client \<and> bScope b = sc}) \<and>
    (\<exists>out. liveByAddress B ad t = Inr out \<and>
      set out = {b. bindingAt B t (keyOf b) = Some b \<and> liveState (bState b) \<and> bAddress b = ad}) \<and>
    (\<exists>out. activeByName B name t = Inr out \<and>
      set out = {b. bindingAt B t (keyOf b) = Some b \<and> bState b = ''active'' \<and> bName b = name})"
  using bolt_laws.live_client [OF assms(1) wholeOk_parts(2) [OF assms(2)] assms(3,4)]
    bolt_laws.live_address [OF assms(1) wholeOk_parts(2) [OF assms(2)] assms(5)]
    bolt_laws.active_name [OF assms(1) wholeOk_parts(2) [OF assms(2)] assms(6,7)]
  by (intro conjI)

theorem index_queries_are_scans_witness:
  "\<exists>out. activeByName memBolt ''alice'' (db aliceBook) = Inr out \<and>
     set out = {b. bindingAt memBolt (db aliceBook) (keyOf b) = Some b \<and> bState b = ''active'' \<and> bName b = ''alice''}"
  by (rule index_queries_are_scans [OF mem_laws(1) alice_ok(1), of "[]" "[]" "[]" "''alice''",
        THEN conjunct2, THEN conjunct2])
    simp_all


lemma alice_only: "bindingAt memBolt (db aliceBook) = [''lan/192.168.1.100'' \<mapsto> aliceLease]"
proof -
  have "keyOf aliceLease = ''lan/192.168.1.100''" by code_simp
  moreover have "bindingAt memBolt (db openBook) = Map.empty" using open_blank by (simp add: blank_def bindingAt_def fun_eq_iff)
  ultimately show ?thesis
    using mem.save_effect(2) [OF wholeOk_parts(2) [OF open_ok] alice_key(1) alice_saved] alice_key(2) by simp
qed



section \<open>The standby\<close>

text \<open>
  C23. A standby refines its leader: when its ledger is the leader's history up to its cursor,
  applying the next page of the leader's events makes it the history up to the new cursor,
  which is stored with it.  The new cursor is as far as the page reaches, and when that is the
  end of the log the two ledgers are equal.
\<close>

theorem standby_follows_leader:
  assumes "bolt_laws B" "bolt_laws B'" "wholeOk B (db L)" "bktSeq B eventBucket (db L) < 2 ^ 63"
    "wholeOk B' (db S)" "sane S" "ReplicaCursor B' S = n" "n \<le> bktSeq B eventBucket (db L)"
    "bindingAt B' (db S) = replay (eventNo B (db L)) n" "Events B n limit L = (Done evs, L')"
    "ApplyReplicated B' evs sn S = (Done m, S')" "\<forall>x. sn = Some x \<longrightarrow> snapshotNamed x"
  shows "m = min (bktSeq B eventBucket (db L)) (n + nat limit) \<and> wholeOk B' (db S') \<and>
    bindingAt B' (db S') = replay (eventNo B (db L)) m \<and>
    bktGet B' metaBucket replicaCursorKey (db S') = Some (Text (putUint64 m)) \<and>
    (m = bktSeq B eventBucket (db L) \<longrightarrow> bindingAt B' (db S') = bindingAt B (db L))"
  using standby_follows [OF assms] by blast

definition alicePage :: "event list" where
  "alicePage = (case fst (Events memBolt 0 1000 aliceBook) of Done evs \<Rightarrow> evs | _ \<Rightarrow> [])"

theorem standby_follows_leader_witness:
  "bindingAt memBolt (db (snd (ApplyReplicated memBolt alicePage None openBook))) ''lan/192.168.1.100'' = Some aliceLease"
proof -
  let ?S = "snd (ApplyReplicated memBolt alicePage None openBook)"
  have "fst (Events memBolt 0 1000 aliceBook) = Done alicePage" by code_simp
  then have page: "Events memBolt 0 1000 aliceBook = (Done alicePage, snd (Events memBolt 0 1000 aliceBook))"
    by (simp add: prod_eq_iff)
  have "fst (ApplyReplicated memBolt alicePage None openBook) = Done 1" by code_simp
  then have sync: "ApplyReplicated memBolt alicePage None openBook = (Done 1, ?S)" by (simp add: prod_eq_iff)
  have start: "ReplicaCursor memBolt openBook = 0" and seq: "bktSeq memBolt eventBucket (db aliceBook) = 1" by code_simp+
  have empty: "bindingAt memBolt (db openBook) = replay (eventNo memBolt (db aliceBook)) 0"
    using open_blank by (simp add: blank_def bindingAt_def fun_eq_iff)
  have "bindingAt memBolt (db ?S) = bindingAt memBolt (db aliceBook)"
    by (rule standby_follows_leader [OF mem_laws(1) mem_laws(1) alice_ok(1) _ open_ok open_sane start _ empty page sync,
          THEN conjunct2, THEN conjunct2, THEN conjunct2, THEN conjunct2, rule_format])
      (simp_all add: seq)
  then show ?thesis by (simp add: alice_only)
qed

section \<open>Delegated prefixes\<close>

text \<open>
  C24. The prefixes of a delegation pool are what they should be: the byte-wise carry computes
  the address of the pool plus the index times the size of a prefix, without overflow; every
  prefix is canonical and inside the pool; and different indexes give different prefixes.
\<close>

theorem delegated_prefixes_partition_the_pool:
  assumes "delegationOk p pd pool" "i < poolSize pool (nat (pdLength pd))"
  shows "prefixAt pool (nat (pdLength pd)) i =
      \<lparr>pfxAddr = V6 (of_nat (as16 (pfxAddr pool) + i * 2 ^ (128 - nat (pdLength pd)))) [], pfxBits = nat (pdLength pd)\<rparr> \<and>
    as16 (pfxAddr pool) + i * 2 ^ (128 - nat (pdLength pd)) < 2 ^ 128 \<and>
    inPool pool (nat (pdLength pd)) (prefixAt pool (nat (pdLength pd)) i) \<and>
    (\<forall>j < poolSize pool (nat (pdLength pd)). prefixAt pool (nat (pdLength pd)) j = prefixAt pool (nat (pdLength pd)) i \<longrightarrow> j = i)"
  using pool_member [OF assms refl refl] pool_distinct [OF assms(1) _ assms(2)] by blast

definition demoPD :: pdConfig where
  "demoPD = \<lparr>pdPrefix = ''2001:db8:100::/40'', pdLength = 56, pdRoute = True\<rparr>"

definition demoPool :: prefix where
  "demoPool = the (ParsePrefix ''2001:db8:100::/40'')"

definition demoSubnet :: prefix where
  "demoSubnet = the (ParsePrefix ''2001:db8:1:2::/64'')"

theorem delegated_prefixes_partition_the_pool_witness:
  "inPool demoPool 56 (prefixAt demoPool 56 65535)"
proof -
  have pool: "delegationOk demoSubnet demoPD demoPool" by code_simp
  have "poolSize demoPool 56 = 65536" by code_simp
  then have i: "65535 < poolSize demoPool (nat (pdLength demoPD))" by (simp add: demoPD_def)
  have len: "nat (pdLength demoPD) = 56" by (simp add: demoPD_def)
  show ?thesis
    by (rule delegated_prefixes_partition_the_pool [OF pool i, unfolded len, THEN conjunct2, THEN conjunct2, THEN conjunct1])
qed

section \<open>Records and configuration\<close>

text \<open>
  C25. A binding survives its storage: what is read back from the JSON of a binding with 64-bit
  times is the binding with its text made valid, and a binding with valid text comes back as
  it was.
\<close>

theorem binding_round_trip:
  assumes "int64 (bPreferredEnd b)" "int64 (bStart b)" "int64 (bEnd b)"
  shows "unmarshalBinding (Json (encBinding b)) = Inr (stored b) \<and> stored (stored b) = stored b"
  using decBinding_encBinding [of b] assms by (simp add: unmarshalBinding_def unmarshal_def stored_idem)

theorem binding_round_trip_witness: "unmarshalBinding (Json (encBinding aliceLease)) = Inr aliceLease"
proof -
  have "int64 (bPreferredEnd aliceLease)" "int64 (bStart aliceLease)" "int64 (bEnd aliceLease)" by code_simp+
  from binding_round_trip [OF this] show ?thesis by (simp add: alice_key(2))
qed

text \<open>
  C26. A configuration that parses is well formed: every scope has a canonical subnet, a pool of
  at most 65536 usable addresses in order, lease times within a week, reservations for valid
  clients at usable addresses of declared devices, and a delegation pool that is canonical and
  apart from the subnet; every device has valid names.
\<close>

theorem parsed_configuration_is_well_formed:
  assumes "ParseConfig raw = Inr c"
  shows "(\<forall>s \<in> set (cScopes c). scopeOk c s) \<and> namedDevices c"
proof -
  have "Validate c = Inr ()" using assms by (auto simp: ParseConfig_def bindR_Inr)
  then show ?thesis using Validate_facts by blast
qed

theorem parsed_configuration_is_well_formed_witness:
  "namedDevices (case ParseConfig (Json (JObj [(''scopes'', JArr []), (''devices'', JArr [JObj [(''id'', JStr ''nas''), (''name'', JStr ''files'')]])]))
     of Inr c \<Rightarrow> c | Inl _ \<Rightarrow> zeroConfig)"
proof -
  let ?raw = "Json (JObj [(''scopes'', JArr []), (''devices'', JArr [JObj [(''id'', JStr ''nas''), (''name'', JStr ''files'')]])])"
  have "ParseConfig ?raw = Inr (zeroConfig\<lparr>cDevices := [zeroDevice\<lparr>dID := ''nas'', dName := ''files''\<rparr>]\<rparr>)" by code_simp
  then show ?thesis using parsed_configuration_is_well_formed [of ?raw] by simp
qed

end
