(* ===== verification/Dns_Msg.thy ===== *)
theory Dns_Msg
  imports Go_Netip Go_Path Go_Json
begin

text \<open>
  DNS data as the sources use it: resource records and messages of \<^verbatim>\<open>github.com/miekg/dns\<close>
  with the fields the daemon reads or sets, \<^verbatim>\<open>net.IP\<close> values, and what a plugin handler
  leaves behind.  A \<^verbatim>\<open>net.IP\<close> is an address whose 4-in-6 form is its IPv4 address, which is how
  \<^verbatim>\<open>net.IP\<close> prints and compares it; \<^verbatim>\<open>To4() != nil\<close> is then \<open>Is4\<close>.
\<close>

definition ParseIP :: "string \<Rightarrow> addr option" where
  "ParseIP s = (case ParseAddr s of
       Some a \<Rightarrow> if addrZone a = [] then Some (Unmap a) else None
     | None \<Rightarrow> None)"

section \<open>Text\<close>

lemma lowerChar_idem [simp]: "lowerChar (lowerChar c) = lowerChar c"
proof (cases "CHR ''A'' \<le> c \<and> c \<le> CHR ''Z''")
  case True
  then have n: "65 \<le> (of_char c :: nat)" "(of_char c :: nat) \<le> 90"
    by (simp_all add: less_eq_char_def)
  then have m: "(of_char c + 32 :: nat) < 256" by simp
  have "\<not> (char_of (of_char c + 32 :: nat) \<le> CHR ''Z'')"
    using n m by (simp add: less_eq_char_def)
  then show ?thesis using True by (simp add: lowerChar_def)
next
  case False
  then show ?thesis by (auto simp: lowerChar_def)
qed

lemma toLower_idem [simp]: "toLower (toLower s) = toLower s"
  by (simp add: toLower_def)

lemma lowerChar_star: "lowerChar c = CHR ''*'' \<longleftrightarrow> c = CHR ''*''"
proof
  assume a: "lowerChar c = CHR ''*''"
  show "c = CHR ''*''"
  proof (cases "CHR ''A'' \<le> c \<and> c \<le> CHR ''Z''")
    case True
    then have n: "65 \<le> (of_char c :: nat)" "(of_char c :: nat) \<le> 90" by (simp_all add: less_eq_char_def)
    have "(of_char (char_of (of_char c + 32 :: nat)) :: nat) = 42" using a True by (simp add: lowerChar_def)
    then show ?thesis using n by simp
  next
    case False
    then show ?thesis using a by (auto simp: lowerChar_def)
  qed
next
  assume "c = CHR ''*''"
  then show "lowerChar c = CHR ''*''" by (simp add: lowerChar_def less_eq_char_def)
qed

lemma hasSuffix_iff: "hasSuffix s p \<longleftrightarrow> (\<exists>r. s = r @ p)"
proof -
  have "rev s = rev p @ r \<longleftrightarrow> s = rev r @ p" for r by (metis rev_append rev_rev_ident)
  then show ?thesis by (auto simp: hasSuffix_def hasPrefix_iff) (metis rev_rev_ident)
qed

lemma trimSuffix_append [simp]: "trimSuffix (s @ p) p = s"
  using hasSuffix_iff by (auto simp: trimSuffix_def)

section \<open>Records and messages\<close>

definition ClassINET :: int where "ClassINET = 1"
definition TypeA :: int where "TypeA = 1"
definition TypeNS :: int where "TypeNS = 2"
definition TypeSOA :: int where "TypeSOA = 6"
definition TypePTR :: int where "TypePTR = 12"
definition TypeTXT :: int where "TypeTXT = 16"
definition TypeAAAA :: int where "TypeAAAA = 28"
definition TypeSRV :: int where "TypeSRV = 33"
definition TypeOPT :: int where "TypeOPT = 41"
definition TypeNSEC :: int where "TypeNSEC = 47"
definition TypeANY :: int where "TypeANY = 255"

definition RcodeSuccess :: int where "RcodeSuccess = 0"
definition RcodeFormatError :: int where "RcodeFormatError = 1"
definition RcodeServerFailure :: int where "RcodeServerFailure = 2"
definition RcodeNameError :: int where "RcodeNameError = 3"
definition RcodeNotImplemented :: int where "RcodeNotImplemented = 4"
definition RcodeRefused :: int where "RcodeRefused = 5"

text \<open>
  The dynamic type of a \<^verbatim>\<open>dns.RR\<close> with the payload the sources look at.  A start of authority
  keeps its name server, mailbox and serial number.
\<close>

datatype rdata =
    RA addr | RAAAA addr | RPTR string | RSRV int string | RTXT "string list"
  | RNS string | RSOA string string int | ROther

record rr =
  rrName :: string
  rrType :: int
  rrClass :: int
  rrTtl :: int
  rrData :: rdata

record question =
  qName :: string
  qType :: int
  qClass :: int

text \<open>
  A message as it is received or built field by field; and the reply to a request, which
  \<^verbatim>\<open>SetReply\<close> and \<^verbatim>\<open>SetRcode\<close> start from the request's header: the model keeps what the daemon puts
  into it.
\<close>

record msg =
  mId :: int
  mResponse :: bool
  mOpcode :: int
  mAuthoritative :: bool
  mQuestion :: "question list"
  mAnswer :: "rr list"
  mExtra :: "rr list"

definition newMsg :: msg where
  "newMsg = \<lparr>mId = 0, mResponse = False, mOpcode = 0, mAuthoritative = False, mQuestion = [],
     mAnswer = [], mExtra = []\<rparr>"

record dnsReply =
  reRcode :: int
  reAuthoritative :: bool
  reRecursion :: bool
  reAnswer :: "rr list"
  reNs :: "rr list"
  reExtra :: "rr list"

definition newReply :: dnsReply where
  "newReply = \<lparr>reRcode = RcodeSuccess, reAuthoritative = False, reRecursion = False, reAnswer = [],
     reNs = [], reExtra = []\<rparr>"

text \<open>
  What \<^verbatim>\<open>ServeDNS\<close> leaves: the code it returns, whether it returns an error beside it, and the
  reply it wrote.
\<close>

record served =
  svCode :: int
  svError :: bool
  svWrote :: "dnsReply option"

abbreviation gaveUp :: "int \<Rightarrow> served" where
  "gaveUp c \<equiv> \<lparr>svCode = c, svError = False, svWrote = None\<rparr>"

abbreviation brokeWith :: "int \<Rightarrow> served" where
  "brokeWith c \<equiv> \<lparr>svCode = c, svError = True, svWrote = None\<rparr>"

abbreviation wroteReply :: "int \<Rightarrow> dnsReply \<Rightarrow> served" where
  "wroteReply c r \<equiv> \<lparr>svCode = c, svError = False, svWrote = Some r\<rparr>"

lemmas dns_defs [go_defs] =
  ParseIP_def ClassINET_def TypeA_def TypeNS_def TypeSOA_def TypePTR_def TypeTXT_def TypeAAAA_def
  TypeSRV_def TypeOPT_def TypeNSEC_def TypeANY_def RcodeSuccess_def RcodeFormatError_def
  RcodeServerFailure_def RcodeNameError_def RcodeNotImplemented_def RcodeRefused_def newMsg_def
  newReply_def

section \<open>Service classes\<close>

text \<open>
  The loop that both \<^verbatim>\<open>serviceClass\<close> of the resolver and \<^verbatim>\<open>classOf\<close> of the reflector run over the
  labels of a name, here over the reversed list: the last \<open>_tcp\<close> or \<open>_udp\<close> label after one that
  starts with an underscore.
\<close>

fun lastClass :: "string list \<Rightarrow> string option" where
  "lastClass (p # t # ls) =
     (if (p = ''_tcp'' \<or> p = ''_udp'') \<and> hasPrefix t ''_'' then Some (t @ ''.'' @ p)
      else lastClass (t # ls))"
| "lastClass _ = None"

definition classOfLabels :: "string list \<Rightarrow> string option" where
  "classOfLabels labels =
     (if length labels < 3 \<or> last labels \<noteq> ''local'' then None
      else lastClass (rev (butlast labels)))"

section \<open>Expiring grants\<close>

text \<open>
  The table of hosts that an allowed browse has named: looked up, and extended for two minutes,
  after a sweep and within 4096 entries.  The resolver's \<^verbatim>\<open>Policy.granted\<close> and the reflector's
  \<^verbatim>\<open>filter.hosts\<close> are such tables; instants are nanoseconds.
\<close>

type_synonym grants = "(string \<times> int) list"

definition grantLife :: int where
  "grantLife = 2 * 60 * 1000000000"

definition grantLimit :: nat where
  "grantLimit = 4096"

definition liveGrants :: "int \<Rightarrow> grants \<Rightarrow> grants" where
  "liveGrants now g = filter (\<lambda>(_, expiry). now < expiry) g"

definition putGrant :: "int \<Rightarrow> string \<Rightarrow> grants \<Rightarrow> grants" where
  "putGrant now host g =
     (let live = liveGrants now g
      in if length live < grantLimit then assocPut host (now + grantLife) live else live)"

definition hasGrant :: "int \<Rightarrow> string \<Rightarrow> grants \<Rightarrow> bool" where
  "hasGrant now host g = (case map_of g host of Some expiry \<Rightarrow> now < expiry | None \<Rightarrow> False)"

definition grantsOk :: "grants \<Rightarrow> bool" where
  "grantsOk g \<longleftrightarrow> distinct (map fst g) \<and> length g \<le> grantLimit"

lemma length_assocPut: "length (assocPut k v m) \<le> Suc (length m)"
  by (induction k v m rule: assocPut.induct) auto

lemma map_of_assocPut [simp]: "map_of (assocPut k v m) = (map_of m)(k \<mapsto> v)"
  by (induction k v m rule: assocPut.induct) auto

lemma distinct_liveGrants: "distinct (map fst g) \<Longrightarrow> distinct (map fst (liveGrants now g))"
  unfolding liveGrants_def by (simp add: distinct_map_filter)

lemma grantsOk_Nil [simp]: "grantsOk []"
  by (simp add: grantsOk_def)

lemma grantsOk_putGrant [simp]:
  assumes "grantsOk g"
  shows "grantsOk (putGrant now host g)"
proof -
  have "length (liveGrants now g) \<le> grantLimit"
    using assms unfolding grantsOk_def liveGrants_def
    by (meson le_trans length_filter_le)
  then show ?thesis
    using assms length_assocPut [of host "now + grantLife" "liveGrants now g"]
    by (auto simp: grantsOk_def putGrant_def Let_def distinct_liveGrants distinct_assocPut)
qed

lemma map_of_liveGrants:
  "distinct (map fst g) \<Longrightarrow>
   map_of (liveGrants now g) h = (case map_of g h of Some e \<Rightarrow> if now < e then Some e else None | None \<Rightarrow> None)"
  unfolding liveGrants_def by (induction g) (auto split: option.splits if_splits simp: map_of_eq_None_iff image_iff)

text \<open>After a grant a host is granted only if it was before, or is the one granted now.\<close>

lemma hasGrant_putGrant:
  assumes "grantsOk g" "hasGrant t h (putGrant now host g)"
  shows "hasGrant t h g \<or> h = host \<and> t < now + grantLife"
proof (cases "h = host \<and> length (liveGrants now g) < grantLimit")
  case True
  then show ?thesis using assms by (auto simp: hasGrant_def putGrant_def Let_def)
next
  case False
  then have "map_of (putGrant now host g) h = map_of (liveGrants now g) h"
    by (auto simp: putGrant_def Let_def)
  with assms have "hasGrant t h g"
    unfolding hasGrant_def grantsOk_def
    by (cases "map_of g h") (auto simp: map_of_liveGrants simp del: map_of_eq_Some_iff split: if_splits)
  then show ?thesis ..
qed

lemma hasGrant_later: "hasGrant t h g \<Longrightarrow> t' \<le> t \<Longrightarrow> hasGrant t' h g"
  by (auto simp: hasGrant_def split: option.splits)

lemma hasGrant_Nil [simp]: "\<not> hasGrant t h []"
  by (simp add: hasGrant_def)

text \<open>A grant within the limit makes the host resolvable for the two minutes that follow.\<close>

lemma hasGrant_granted:
  "length (liveGrants now g) < grantLimit \<Longrightarrow> t < now + grantLife \<Longrightarrow> hasGrant t host (putGrant now host g)"
  by (simp add: hasGrant_def putGrant_def)

end
