(* ===== verification/Resolver_Acl.thy ===== *)
theory Resolver_Acl
  imports Dns_Msg Book_Config
begin

text \<open>
  The access policy of the container resolver (\<^verbatim>\<open>internal/resolver/acl.go\<close>): the policy file,
  its validation, the decision on a question, and the hosts an allowed browse grants.
\<close>

section \<open>The policy file\<close>

record aclIdentity =
  idName :: string
  idListen :: string
  idAllowNames :: "string list"
  idAllowServices :: "string list"

record acl =
  aclIdentities :: "aclIdentity list"

definition zeroIdentity :: aclIdentity where
  "zeroIdentity = \<lparr>idName = [], idListen = [], idAllowNames = [], idAllowServices = []\<rparr>"

definition zeroACL :: acl where
  "zeroACL = \<lparr>aclIdentities = []\<rparr>"

definition decIdentity :: "aclIdentity decoder" where
  "decIdentity = decStrict [decInto decString ''name'' idName idName_update,
     decInto decString ''listen'' idListen idListen_update,
     decInto decStrings ''allow_names'' idAllowNames idAllowNames_update,
     decInto decStrings ''allow_services'' idAllowServices idAllowServices_update]"

definition decACL :: "acl decoder" where
  "decACL = decStrict [decInto (decList decIdentity zeroIdentity) ''identities''
     aclIdentities aclIdentities_update]"

definition validName :: "string \<Rightarrow> bool" where
  "validName s = (s \<noteq> [] \<and> length s \<le> 63 \<and>
     list_all (\<lambda>r. isLowerLetter r \<or> isDigit r \<or> r = CHR ''-'') s)"

definition serviceClass :: "string \<Rightarrow> string option" where
  "serviceClass name = classOfLabels (splitOn CHR ''.'' (trimSuffix (toLower name) ''.''))"

definition allowNameOk :: "string \<Rightarrow> bool" where
  "allowNameOk n = (n = ''*'' \<or>
     \<not> (containsAny n [CHR '' '', CHR ''/'', CHR 0x09] \<or> hasPrefix n ''.'' \<or> n = []))"

definition allowServiceOk :: "string \<Rightarrow> bool" where
  "allowServiceOk s = (serviceClass (s @ ''.local.'') = Some (toLower s))"

text \<open>One identity of the list, given the names and listen addresses of those before it.\<close>

definition validateIdentity ::
  "string list \<times> string list \<Rightarrow> aclIdentity \<Rightarrow> (string list \<times> string list) result" where
  "validateIdentity seen i = (case seen of (names, listens) \<Rightarrow>
     bindR (refuse (\<not> validName (idName i) \<or> idName i \<in> set names)
       ''identity name must be a unique lower-case label'') (\<lambda>_.
     case ParseIP (idListen i) of
       None \<Rightarrow> Fail ''listen must be one specific address, never a wildcard''
     | Some ip \<Rightarrow>
         bindR (refuse (IsUnspecified ip \<or> IsMulticast ip)
           ''listen must be one specific address, never a wildcard'') (\<lambda>_.
         bindR (refuse (addrString ip \<in> set listens)
           ''listen address is already another identity's'') (\<lambda>_.
         bindR (refuse (\<not> list_all allowNameOk (idAllowNames i)) ''bad allow_names entry'') (\<lambda>_.
         bindR (refuse (\<not> list_all allowServiceOk (idAllowServices i))
           ''not a service class like _ipp._tcp'') (\<lambda>_.
         Inr (idName i # names, addrString ip # listens)))))))"

definition validateACL :: "acl \<Rightarrow> unit result" where
  "validateACL a =
     bindR (foldR validateIdentity ([], []) (aclIdentities a)) (\<lambda>_. Inr ())"

definition emptyBytes :: "bytes \<Rightarrow> bool" where
  "emptyBytes raw = (case raw of NoBytes \<Rightarrow> True | Text s \<Rightarrow> trimSpace s = [] | Json _ \<Rightarrow> False)"

definition ParseACL :: "bytes \<Rightarrow> acl result" where
  "ParseACL raw =
     (if emptyBytes raw then Inr zeroACL
      else bindR (unmarshal raw) (\<lambda>j.
           bindR (decACL zeroACL j) (\<lambda>a.
           bindR (validateACL a) (\<lambda>_. Inr a))))"

section \<open>Decisions\<close>

record policy =
  pId :: aclIdentity
  pGranted :: grants

definition newPolicy :: "aclIdentity \<Rightarrow> policy" where
  "newPolicy i = \<lparr>pId = i, pGranted = []\<rparr>"

definition nameAllowedBy :: "string \<Rightarrow> string \<Rightarrow> bool" where
  "nameAllowedBy name entry =
     (let allowed = trimSuffix (toLower entry) ''.''
      in allowed = ''*'' \<and> \<not> hasSuffix name ''.local'' \<and> name \<noteq> ''local'' \<or>
         name = allowed \<or> hasSuffix name (CHR ''.'' # allowed))"

definition matchesName :: "policy \<Rightarrow> string \<Rightarrow> bool" where
  "matchesName p name =
     list_ex (nameAllowedBy (trimSuffix (toLower name) ''.'')) (idAllowNames (pId p))"

definition Decide :: "policy \<Rightarrow> int \<Rightarrow> question \<Rightarrow> bool \<times> string" where
  "Decide p now q =
     (if qClass q \<noteq> ClassINET then (False, ''unsupported class'')
      else let name = toLower (qName q)
      in if hasSuffix name ''.local.'' then
           (case serviceClass name of
              Some class \<Rightarrow>
                if list_ex (\<lambda>s. s = class) (idAllowServices (pId p)) then (True, [])
                else (False, ''service class '' @ class @ '' not allowed'')
            | None \<Rightarrow>
                if matchesName p name then (True, [])
                else if hasGrant now name (pGranted p) then (True, [])
                else (False, ''host not offered by any service this identity may browse''))
         else if matchesName p name then (True, [])
         else (False, ''name not allowed''))"

definition GrantHost :: "int \<Rightarrow> string \<Rightarrow> policy \<Rightarrow> policy" where
  "GrantHost now host p = p\<lparr>pGranted := putGrant now (toLower host) (pGranted p)\<rparr>"

definition setPolicies :: "acl \<Rightarrow> (string \<times> policy) list" where
  "setPolicies a = foldl (\<lambda>m i. assocPut (idName i) (newPolicy i) m) [] (aclIdentities a)"

lemmas acl_defs [go_defs] =
  zeroIdentity_def zeroACL_def decIdentity_def decACL_def validName_def serviceClass_def
  classOfLabels_def allowNameOk_def allowServiceOk_def validateIdentity_def validateACL_def
  emptyBytes_def ParseACL_def newPolicy_def nameAllowedBy_def matchesName_def Decide_def
  GrantHost_def setPolicies_def

section \<open>What validation gives\<close>

text \<open>
  A validated policy file has its identities under distinct names and on distinct specific
  addresses.
\<close>

definition identityOk :: "aclIdentity \<Rightarrow> bool" where
  "identityOk i = (validName (idName i) \<and>
     (case ParseIP (idListen i) of Some ip \<Rightarrow> \<not> IsUnspecified ip \<and> \<not> IsMulticast ip | None \<Rightarrow> False) \<and>
     list_all allowNameOk (idAllowNames i) \<and> list_all allowServiceOk (idAllowServices i))"

definition listenKey :: "aclIdentity \<Rightarrow> string" where
  "listenKey i = (case ParseIP (idListen i) of Some ip \<Rightarrow> addrString ip | None \<Rightarrow> [])"

definition aclOk :: "acl \<Rightarrow> bool" where
  "aclOk a \<longleftrightarrow> list_all identityOk (aclIdentities a) \<and> distinct (map idName (aclIdentities a)) \<and>
     distinct (map listenKey (aclIdentities a))"

lemma validateIdentity_Inr:
  "validateIdentity (ns, ls) i = Inr r \<longleftrightarrow>
     identityOk i \<and> idName i \<notin> set ns \<and> listenKey i \<notin> set ls \<and> r = (idName i # ns, listenKey i # ls)"
  by (auto simp: validateIdentity_def identityOk_def listenKey_def bindR_Inr split: option.splits)

lemma foldR_validateIdentity:
  "foldR validateIdentity (ns, ls) is = Inr r \<longleftrightarrow>
     list_all identityOk is \<and> distinct (map idName is) \<and> distinct (map listenKey is) \<and>
     set (map idName is) \<inter> set ns = {} \<and> set (map listenKey is) \<inter> set ls = {} \<and>
     r = (rev (map idName is) @ ns, rev (map listenKey is) @ ls)"
  by (induction "is" arbitrary: ns ls) (auto simp: bindR_Inr validateIdentity_Inr)

lemma validateACL_iff: "validateACL a = Inr u \<longleftrightarrow> aclOk a"
  by (auto simp: validateACL_def bindR_Inr foldR_validateIdentity aclOk_def)

lemma map_of_assocPuts:
  "map_of (foldl (\<lambda>m i. assocPut (f i) (g i) m) m0 xs) k =
     (case map_of (rev (map (\<lambda>i. (f i, g i)) xs)) k of Some v \<Rightarrow> Some v | None \<Rightarrow> map_of m0 k)"
  by (induction xs rule: rev_induct) (auto split: option.splits)

lemma setPolicies_lookup:
  assumes "map_of (setPolicies a) n = Some p"
  shows "\<exists>i \<in> set (aclIdentities a). idName i = n \<and> p = newPolicy i"
  using assms by (auto simp: setPolicies_def map_of_assocPuts split: option.splits dest!: map_of_SomeD)

lemma setPolicies_complete:
  assumes "aclOk a" "i \<in> set (aclIdentities a)"
  shows "map_of (setPolicies a) (idName i) = Some (newPolicy i)"
proof -
  let ?xs = "rev (map (\<lambda>i. (idName i, newPolicy i)) (aclIdentities a))"
  have "map fst ?xs = rev (map idName (aclIdentities a))" by (simp add: rev_map comp_def)
  then have "distinct (map fst ?xs)" using assms(1) by (simp add: aclOk_def)
  moreover have "(idName i, newPolicy i) \<in> set ?xs" using assms(2) by auto
  ultimately have "map_of ?xs (idName i) = Some (newPolicy i)" by simp
  then show ?thesis by (simp add: setPolicies_def map_of_assocPuts)
qed

section \<open>What a decision means\<close>

text \<open>
  A question is allowed exactly in class IN and: for a service name, if its class is listed; for
  any other name, if a listed name covers it; and for a \<open>.local\<close> host also while it is granted.
\<close>

lemma Decide_iff:
  "fst (Decide p now q) \<longleftrightarrow> qClass q = ClassINET \<and>
     (let name = toLower (qName q) in
        (if hasSuffix name ''.local.'' \<and> serviceClass name \<noteq> None
         then the (serviceClass name) \<in> set (idAllowServices (pId p))
         else matchesName p name \<or> hasSuffix name ''.local.'' \<and> hasGrant now name (pGranted p)))"
  by (auto simp: Decide_def Let_def list_ex_iff split: option.splits)

lemma serviceClass_lower [simp]: "serviceClass (toLower n) = serviceClass n"
  by (simp add: serviceClass_def)

end
