(* ===== verification/Resolver.thy ===== *)
theory Resolver
  imports Resolver_Acl Wellknown
begin

text \<open>
  The handlers of the container resolver (\<^verbatim>\<open>internal/resolver/resolver.go\<close>, \<^verbatim>\<open>plugins.go\<close> and the
  handler of \<^verbatim>\<open>acl.go\<close>), the configuration generated for CoreDNS, and starting it.  The LAN client
  and the host's \<^verbatim>\<open>getent\<close> are what the environment answers; CoreDNS itself is a parameter: whether
  it starts, and the plugins between the access check and the LAN lookups, which answer from the
  leases or the cache or pass the request on.
\<close>

section \<open>State and environment\<close>

record resolverState =
  rsPolicies :: "(string \<times> policy) list option"
  rsLan :: bool
  rsNow :: int

definition policyFor :: "resolverState \<Rightarrow> string \<Rightarrow> policy option" where
  "policyFor s name = (case rsPolicies s of Some m \<Rightarrow> map_of m name | None \<Rightarrow> None)"

definition clearPolicies :: "resolverState \<Rightarrow> resolverState" where
  "clearPolicies s = s\<lparr>rsPolicies := None\<rparr>"

text \<open>The identity a request carries in its context: none on the base listener.\<close>

definition identityOf :: "string \<Rightarrow> resolverState \<Rightarrow> policy option" where
  "identityOf ctx s = (if ctx = [] then None else policyFor s ctx)"

text \<open>
  One run of \<^verbatim>\<open>getent ahosts\<close>: out of time, not started, or ended with a code and an output.
\<close>

datatype getent = TimedOut | NotRun | Exited int string

record lanEnv =
  eLookup :: "string \<Rightarrow> addr list result"
  eBrowse :: "string \<Rightarrow> int \<Rightarrow> (rr list \<times> rr list) result"
  eGetent :: "string \<Rightarrow> getent"
  eBusy :: bool
  eTook :: nat

section \<open>Lookups\<close>

definition addHost :: "addr list \<Rightarrow> string \<Rightarrow> addr list" where
  "addHost ips line = (case fieldsOf line of
       [] \<Rightarrow> ips
     | f # _ \<Rightarrow> (case ParseIP f of
           Some ip \<Rightarrow> if addrString ip \<in> addrString ` set ips then ips else ips @ [ip]
         | None \<Rightarrow> ips))"

definition lookupHost :: "lanEnv \<Rightarrow> string \<Rightarrow> addr list result" where
  "lookupHost e name = (case eGetent e name of
       TimedOut \<Rightarrow> Fail ''context deadline exceeded''
     | NotRun \<Rightarrow> Fail ''exec: getent''
     | Exited code output \<Rightarrow>
         if code = 2 then Inr []
         else if code \<noteq> 0 then Fail ''exit status''
         else Inr (foldl addHost [] (splitOn (CHR 0x0A) output)))"

definition lookupLocal :: "lanEnv \<Rightarrow> resolverState \<Rightarrow> string \<Rightarrow> addr list result" where
  "lookupLocal e s name =
     (if rsLan s then (case eLookup e name of Inr ips \<Rightarrow> Inr ips | Inl _ \<Rightarrow> lookupHost e name)
      else lookupHost e name)"

definition errNoLAN :: error where
  "errNoLAN = Error ''no LAN discovery client in this build''"

definition browseLocal :: "lanEnv \<Rightarrow> resolverState \<Rightarrow> string \<Rightarrow> int \<Rightarrow> (rr list \<times> rr list) result" where
  "browseLocal e s name qtype = (if rsLan s then eBrowse e name qtype else Inl errNoLAN)"

section \<open>Handlers\<close>

type_synonym dnsHandler = "string \<Rightarrow> msg \<Rightarrow> resolverState \<Rightarrow> served \<times> resolverState"

definition srvTargets :: "rr list \<Rightarrow> string list" where
  "srvTargets rrs = List.map_filter (\<lambda>r. case rrData r of RSRV _ t \<Rightarrow> Some t | _ \<Rightarrow> None) rrs"

definition grantTargets :: "string \<Rightarrow> rr list \<Rightarrow> resolverState \<Rightarrow> resolverState" where
  "grantTargets ctx rrs s = (case (identityOf ctx s, rsPolicies s) of
       (Some p, Some m) \<Rightarrow>
         s\<lparr>rsPolicies := Some (assocPut ctx (foldl (\<lambda>p t. GrantHost (rsNow s) t p) p (srvTargets rrs)) m)\<rparr>
     | _ \<Rightarrow> s)"

definition serveBrowse :: "lanEnv \<Rightarrow> string \<Rightarrow> question \<Rightarrow> resolverState \<Rightarrow> served \<times> resolverState" where
  "serveBrowse e ctx q s =
     (if eBusy e then (gaveUp RcodeServerFailure, s)
      else let s' = s\<lparr>rsNow := rsNow s + int (eTook e)\<rparr>
      in case browseLocal e s (qName q) (qType q) of
           Inl err \<Rightarrow> if err = errNoLAN then (gaveUp RcodeNotImplemented, s')
                      else (brokeWith RcodeServerFailure, s')
         | Inr (answers, extra) \<Rightarrow>
             (wroteReply RcodeSuccess (newReply\<lparr>reRecursion := True, reAnswer := answers, reExtra := extra,
                reRcode := (if answers = [] then RcodeNameError else RcodeSuccess)\<rparr>),
              grantTargets ctx (answers @ extra) s'))"

definition addressRecords :: "question \<Rightarrow> addr list \<Rightarrow> rr list" where
  "addressRecords q ips = List.map_filter (\<lambda>ip.
     let hdr = (\<lambda>d. \<lparr>rrName = qName q, rrType = qType q, rrClass = ClassINET, rrTtl = 30, rrData = d\<rparr>)
     in if qType q = TypeA \<and> Is4 ip then Some (hdr (RA ip))
        else if qType q = TypeAAAA \<and> \<not> Is4 ip then Some (hdr (RAAAA ip)) else None) ips"

definition serveLocal :: "lanEnv \<Rightarrow> dnsHandler \<Rightarrow> dnsHandler" where
  "serveLocal e nxt ctx r s = (case mQuestion r of
       [q] \<Rightarrow>
         if \<not> hasSuffix (toLower (qName q)) ''.local.'' then nxt ctx r s
         else if qClass q \<noteq> ClassINET then (gaveUp RcodeRefused, s)
         else if serviceClass (qName q) \<noteq> None \<and> qType q \<in> {TypePTR, TypeSRV, TypeTXT}
         then serveBrowse e ctx q s
         else if qType q \<noteq> TypeA \<and> qType q \<noteq> TypeAAAA then (gaveUp RcodeNotImplemented, s)
         else if eBusy e then (gaveUp RcodeServerFailure, s)
         else let s' = s\<lparr>rsNow := rsNow s + int (eTook e)\<rparr>
         in (case lookupLocal e s (trimSuffix (qName q) ''.'') of
               Inl _ \<Rightarrow> (brokeWith RcodeServerFailure, s')
             | Inr ips \<Rightarrow>
                 (wroteReply RcodeSuccess (newReply\<lparr>reRecursion := True, reAnswer := addressRecords q ips,
                    reRcode := (if ips = [] then RcodeNameError else RcodeSuccess)\<rparr>), s'))
     | _ \<Rightarrow> (gaveUp RcodeFormatError, s))"

definition serveACL :: "string \<Rightarrow> dnsHandler \<Rightarrow> dnsHandler" where
  "serveACL name nxt ctx r s = (case (policyFor s name, mQuestion r) of
       (Some p, [q]) \<Rightarrow>
         if fst (Decide p (rsNow s) q) then nxt name r s
         else (wroteReply RcodeRefused (newReply\<lparr>reRcode := RcodeRefused\<rparr>), s)
     | _ \<Rightarrow> (gaveUp RcodeRefused, s))"

text \<open>
  The plugin order of \<^verbatim>\<open>plugins.go\<close> and \<^verbatim>\<open>registry.go\<close>: the access check, the lease answers and
  the cache, the LAN lookups, the forwarder.  \<open>front\<close> is an answer of the leases or the cache;
  \<open>forward\<close> what the forwarder returns.
\<close>

definition answerOr :: "(msg \<Rightarrow> served option) \<Rightarrow> dnsHandler \<Rightarrow> dnsHandler" where
  "answerOr front nxt ctx r s = (case front r of Some a \<Rightarrow> (a, s) | None \<Rightarrow> nxt ctx r s)"

definition baseChain :: "(msg \<Rightarrow> served option) \<Rightarrow> (msg \<Rightarrow> served) \<Rightarrow> lanEnv \<Rightarrow> dnsHandler" where
  "baseChain front forward e = answerOr front (serveLocal e (\<lambda>_ r s. (forward r, s)))"

definition identityChain ::
  "string \<Rightarrow> (msg \<Rightarrow> served option) \<Rightarrow> (msg \<Rightarrow> served) \<Rightarrow> lanEnv \<Rightarrow> dnsHandler" where
  "identityChain name front forward e = serveACL name (baseChain front forward e)"

section \<open>The generated configuration\<close>

definition Quad100 :: string where "Quad100 = ''100.100.100.100''"
definition CloudflareResolver :: string where "CloudflareResolver = ''1.1.1.1''"
definition GoogleResolver :: string where "GoogleResolver = ''8.8.8.8''"

definition Directives :: "bool \<Rightarrow> string list" where
  "Directives leases = (if leases then [''bind'', ''ghostacl'', ''ghostleases'', ''cache'', ''ghostlocal'', ''forward'']
     else [''bind'', ''ghostacl'', ''cache'', ''ghostlocal'', ''forward''])"

definition lf :: string where "lf = [CHR 0x0A]"

definition pluginCorefile :: "bool \<Rightarrow> int \<Rightarrow> string \<Rightarrow> string \<Rightarrow> aclIdentity list \<Rightarrow> string" where
  "pluginCorefile leases port address upstream ids =
     (let targets = joinWith '' '' [upstream, CloudflareResolver, GoogleResolver];
          block = (\<lambda>bnd restrict. ''.:'' @ itoa port @ '' {'' @ lf @ '' bind '' @ bnd @ lf @ restrict @
            (if leases then '' ghostleases'' @ lf else []) @ '' cache 30 {'' @ lf @ '' servfail 5s'' @ lf @
            '' }'' @ lf @ '' ghostlocal'' @ lf @ '' forward . '' @ targets @ '' {'' @ lf @
            '' max_concurrent 128'' @ lf @ '' policy sequential'' @ lf @
            '' failover SERVFAIL REFUSED'' @ lf @ '' }'' @ lf @ ''}'' @ lf)
      in block address [] @ concat (map (\<lambda>i. block (idListen i) ('' ghostacl '' @ idName i @ lf)) ids))"

section \<open>Starting and stopping\<close>

datatype resolverOption = WithACL acl | WithLAN

definition applyOption :: "acl \<times> bool \<Rightarrow> resolverOption \<Rightarrow> acl \<times> bool" where
  "applyOption o1 opt = (case opt of WithACL a \<Rightarrow> (a, snd o1) | WithLAN \<Rightarrow> (fst o1, True))"

text \<open>The runtime directory is the association list of its published files.\<close>

record resolverHost = resolverState +
  rhFiles :: "(string \<times> string) list"
  rhServing :: "string option"

text \<open>
  What the host lets happen: whether CoreDNS accepts a configuration and binds its listeners,
  whether the directory can be made, and whether a file can be written and renamed into place.
\<close>

record startEnv =
  seCaddy :: "string \<Rightarrow> bool"
  seMkdir :: bool
  sePublish :: "string \<Rightarrow> bool"

definition publishedFiles :: "addr \<Rightarrow> acl \<Rightarrow> (string \<times> string) list" where
  "publishedFiles ip a =
     foldl (\<lambda>m i. assocPut (''resolv-'' @ idName i @ ''.conf'')
              (''# Managed by ghostd; resolver for identity '' @ idName i @ '' only.'' @ lf @
               ''nameserver '' @ idListen i @ lf)
              (assocPut (''dns-'' @ idName i @ ''.env'') (''GHOSTD_DNS_ADDRESS='' @ idListen i @ lf) m))
       [(''dns.env'', ''GHOSTD_DNS_ADDRESS='' @ addrString ip @ lf),
        (''resolv.conf'', ''# Managed by ghostd; for clients without Podman service discovery.'' @ lf @
           ''nameserver '' @ addrString ip @ lf)] (aclIdentities a)"

definition publish :: "startEnv \<Rightarrow> string \<times> string \<Rightarrow> (resolverHost, unit) prog" where
  "publish e f = (if sePublish e (fst f) then modS (\<lambda>s. s\<lparr>rhFiles := assocPut (fst f) (snd f) (rhFiles s)\<rparr>)
     else raise (Error ''publish''))"

definition stopServing :: "resolverHost \<Rightarrow> resolverHost" where
  "stopServing s = s\<lparr>rhServing := None, rsPolicies := None, rsLan := False\<rparr>"

definition orStop :: "(resolverHost, unit) prog \<Rightarrow> (resolverHost, unit) prog" where
  "orStop m = bindM (attempt m) (\<lambda>r. case r of
       Inr _ \<Rightarrow> ret ()
     | Inl err \<Rightarrow> bindM (modS stopServing) (\<lambda>_. raise err))"

definition startResolver ::
  "startEnv \<Rightarrow> bool \<Rightarrow> string \<Rightarrow> int \<Rightarrow> string \<Rightarrow> resolverOption list \<Rightarrow> (resolverHost, unit) prog" where
  "startResolver e leases address port upstream opts =
     (case ParseIP address of
        None \<Rightarrow> raise (Error ''invalid DNS bind address'')
      | Some ip \<Rightarrow>
          let (a, lan) = foldl applyOption (zeroACL, False) opts;
              corefile = pluginCorefile leases port (addrString ip) upstream (aclIdentities a)
          in bindM (liftR (validateACL a)) (\<lambda>_.
             if list_ex (\<lambda>i. ParseIP (idListen i) = Some ip) (aclIdentities a)
             then raise (Error ''identity listens on the base resolver address'')
             else bindM (modS (\<lambda>s. s\<lparr>rsPolicies := Some (setPolicies a), rsLan := lan \<or> rsLan s\<rparr>)) (\<lambda>_.
             if \<not> seCaddy e corefile
             then bindM (modS (\<lambda>s. s\<lparr>rsPolicies := None\<rparr>)) (\<lambda>_. raise (Error ''caddy''))
             else bindM (modS (\<lambda>s. s\<lparr>rhServing := Some corefile\<rparr>)) (\<lambda>_.
             bindM (orStop (if seMkdir e then ret () else raise (Error ''mkdir''))) (\<lambda>_.
             orStop (eachM (publish e) (publishedFiles ip a)))))))"

definition stopResolver :: "addr \<Rightarrow> acl \<Rightarrow> resolverHost \<Rightarrow> resolverHost" where
  "stopResolver ip a s =
     stopServing (s\<lparr>rhFiles := filter (\<lambda>(n, _). n \<notin> fst ` set (publishedFiles ip a)) (rhFiles s)\<rparr>)"

lemmas resolver_defs [go_defs] =
  policyFor_def clearPolicies_def identityOf_def addHost_def lookupHost_def lookupLocal_def
  errNoLAN_def browseLocal_def srvTargets_def grantTargets_def serveBrowse_def addressRecords_def
  serveLocal_def serveACL_def answerOr_def baseChain_def identityChain_def Quad100_def
  CloudflareResolver_def GoogleResolver_def Directives_def lf_def pluginCorefile_def
  applyOption_def publishedFiles_def publish_def stopServing_def orStop_def startResolver_def
  stopResolver_def

end
