(* ===== verification/Resolver_Facts.thy ===== *)
theory Resolver_Facts
  imports Resolver
begin

text \<open>
  The running resolver as a transition system: requests on the base listener and on the listeners
  of identities, with everything the LAN, the leases, the cache and the forwarder may answer, and
  time passing in between.  The trace of requests explains every host that an identity may
  resolve.  The second half follows a start through each of its ends.
\<close>

section \<open>Runs\<close>

record asked =
  asListener :: string
  asMsg :: msg
  asEnv :: lanEnv
  asNow :: int

text \<open>
  The instant of a request is that of the answer.  The base listener has the empty name.
\<close>

inductive resolverRun :: "acl \<Rightarrow> asked list \<Rightarrow> resolverState \<Rightarrow> bool" for a where
  started: "resolverRun a [] \<lparr>rsPolicies = Some (setPolicies a), rsLan = lan, rsNow = now\<rparr>"
| tick: "resolverRun a tr s \<Longrightarrow> rsNow s \<le> now \<Longrightarrow> resolverRun a tr (s\<lparr>rsNow := now\<rparr>)"
| base: "resolverRun a tr s \<Longrightarrow> baseChain front forward e [] r s = (out, s') \<Longrightarrow>
    resolverRun a (\<lparr>asListener = [], asMsg = r, asEnv = e, asNow = rsNow s'\<rparr> # tr) s'"
| identity: "resolverRun a tr s \<Longrightarrow> i \<in> set (aclIdentities a) \<Longrightarrow>
    identityChain (idName i) front forward e [] r s = (out, s') \<Longrightarrow>
    resolverRun a (\<lparr>asListener = idName i, asMsg = r, asEnv = e, asNow = rsNow s'\<rparr> # tr) s'"

text \<open>
  A request that browsed the LAN for a service class and was answered with a record that names a
  host as the target of a service.
\<close>

definition offersHost :: "asked \<Rightarrow> string \<Rightarrow> string \<Rightarrow> bool" where
  "offersHost x class host = (case mQuestion (asMsg x) of
       [q] \<Rightarrow> serviceClass (qName q) = Some class \<and> qClass q = ClassINET \<and>
         (case eBrowse (asEnv x) (qName q) (qType q) of
            Inr (answers, extra) \<Rightarrow> host \<in> toLower ` set (srvTargets (answers @ extra))
          | Inl _ \<Rightarrow> False)
     | _ \<Rightarrow> False)"

definition earned :: "asked list \<Rightarrow> aclIdentity \<Rightarrow> int \<Rightarrow> string \<Rightarrow> bool" where
  "earned tr i t host \<longleftrightarrow> (\<exists>x \<in> set tr. asListener x = idName i \<and> t < asNow x + grantLife \<and>
     (\<exists>class \<in> set (idAllowServices i). offersHost x class host))"

text \<open>Every policy is that of its identity, its table is bounded, and every grant is earned.\<close>

definition policyInv :: "asked list \<Rightarrow> aclIdentity \<Rightarrow> policy \<Rightarrow> bool" where
  "policyInv tr i p \<longleftrightarrow> pId p = i \<and> grantsOk (pGranted p) \<and>
     (\<forall>h t. hasGrant t h (pGranted p) \<longrightarrow> earned tr i t h)"

definition policiesInv :: "acl \<Rightarrow> asked list \<Rightarrow> resolverState \<Rightarrow> bool" where
  "policiesInv a tr s \<longleftrightarrow> (\<exists>m. rsPolicies s = Some m \<and>
     (\<forall>n p. map_of m n = Some p \<longrightarrow> n \<noteq> [] \<and>
        (\<exists>i \<in> set (aclIdentities a). idName i = n \<and> policyInv tr i p)) \<and>
     (\<forall>i \<in> set (aclIdentities a). map_of m (idName i) \<noteq> None))"

lemma earned_Cons: "earned tr i t h \<Longrightarrow> earned (x # tr) i t h"
  by (auto simp: earned_def)

lemma policyInv_Cons: "policyInv tr i p \<Longrightarrow> policyInv (x # tr) i p"
  by (auto simp: policyInv_def earned_Cons)

lemma policiesInv_Cons: "policiesInv a tr s \<Longrightarrow> policiesInv a (x # tr) s"
  unfolding policiesInv_def by (blast intro: policyInv_Cons)

lemma policiesInv_now [simp]: "policiesInv a tr (s\<lparr>rsNow := t\<rparr>) = policiesInv a tr s"
  by (simp add: policiesInv_def)

section \<open>Grants are earned\<close>

lemma GrantHost_inv:
  assumes "policyInv tr i p" "\<And>t. t < now + grantLife \<Longrightarrow> earned tr i t (toLower host)"
  shows "policyInv tr i (GrantHost now host p)"
  using assms hasGrant_putGrant [of "pGranted p"]
  by (fastforce simp: policyInv_def GrantHost_def)

lemma GrantHosts_inv:
  assumes "policyInv tr i p" "\<And>t host. host \<in> set hosts \<Longrightarrow> t < now + grantLife \<Longrightarrow> earned tr i t (toLower host)"
  shows "policyInv tr i (foldl (\<lambda>p h. GrantHost now h p) p hosts)"
  using assms by (induction hosts arbitrary: p) (auto intro: GrantHost_inv)

lemma grantTargets_inv:
  assumes inv: "policiesInv a tr s"
    and new: "\<And>i host t. i \<in> set (aclIdentities a) \<Longrightarrow> idName i = ctx \<Longrightarrow> host \<in> set (srvTargets rrs) \<Longrightarrow>
      t < rsNow s + grantLife \<Longrightarrow> earned tr i t (toLower host)"
  shows "policiesInv a tr (grantTargets ctx rrs s)"
proof (cases "identityOf ctx s")
  case None
  then show ?thesis using inv by (simp add: grantTargets_def)
next
  case (Some p)
  obtain m where m: "rsPolicies s = Some m"
    and all: "\<And>n p. map_of m n = Some p \<Longrightarrow> n \<noteq> [] \<and>
        (\<exists>i \<in> set (aclIdentities a). idName i = n \<and> policyInv tr i p)"
    and dom: "\<And>i. i \<in> set (aclIdentities a) \<Longrightarrow> map_of m (idName i) \<noteq> None"
    using inv unfolding policiesInv_def by blast
  have p: "map_of m ctx = Some p" using Some m by (simp add: identityOf_def policyFor_def split: if_splits)
  then obtain i where i: "i \<in> set (aclIdentities a)" "idName i = ctx" "policyInv tr i p" and c: "ctx \<noteq> []"
    using all by blast
  let ?p = "foldl (\<lambda>p t. GrantHost (rsNow s) t p) p (srvTargets rrs)"
  have "policyInv tr i ?p" using i by (intro GrantHosts_inv) (auto intro: new)
  then have "map_of (assocPut ctx ?p m) n = Some q \<Longrightarrow>
      n \<noteq> [] \<and> (\<exists>i \<in> set (aclIdentities a). idName i = n \<and> policyInv tr i q)" for n q
    using all [of n q] i c by (auto split: if_splits)
  moreover have "i \<in> set (aclIdentities a) \<Longrightarrow> map_of (assocPut ctx ?p m) (idName i) \<noteq> None" for i
    using dom [of i] by simp
  ultimately show ?thesis using Some m by (simp add: grantTargets_def policiesInv_def)
qed

text \<open>A request changes the policies only by a browse, for the identity of its context.\<close>

lemma serveLocal_effect:
  assumes "serveLocal e (\<lambda>_ r s. (forward r, s)) ctx r s = (out, s')"
  obtains "rsPolicies s' = rsPolicies s"
  | q answers extra where "mQuestion r = [q]" "qClass q = ClassINET" "serviceClass (qName q) \<noteq> None"
    "eBrowse e (qName q) (qType q) = Inr (answers, extra)"
    "s' = grantTargets ctx (answers @ extra) (s\<lparr>rsNow := rsNow s + int (eTook e)\<rparr>)"
  using assms
  by (fastforce simp: serveLocal_def serveBrowse_def browseLocal_def Let_def
      split: list.splits if_splits sum.splits prod.splits)

lemma grantTargets_now [simp]: "rsNow (grantTargets ctx rrs s) = rsNow s"
  by (auto simp: grantTargets_def split: option.splits)

lemma policiesInv_same: "rsPolicies s' = rsPolicies s \<Longrightarrow> policiesInv a tr s \<Longrightarrow> policiesInv a tr s'"
  by (simp add: policiesInv_def)

lemma baseChain_inv:
  assumes inv: "policiesInv a tr s" and run: "baseChain front forward e ctx r s = (out, s')"
    and may: "\<And>i q. i \<in> set (aclIdentities a) \<Longrightarrow> idName i = ctx \<Longrightarrow> mQuestion r = [q] \<Longrightarrow>
      qClass q = ClassINET \<Longrightarrow> serviceClass (qName q) \<noteq> None \<Longrightarrow> s' \<noteq> s \<Longrightarrow>
      the (serviceClass (qName q)) \<in> set (idAllowServices i)"
    and lst: "lst = ctx"
  shows "policiesInv a (\<lparr>asListener = lst, asMsg = r, asEnv = e, asNow = rsNow s'\<rparr> # tr) s'"
proof (cases "front r")
  case (Some x)
  then show ?thesis using inv run by (auto simp: baseChain_def answerOr_def intro: policiesInv_Cons)
next
  case None
  let ?x = "\<lparr>asListener = lst, asMsg = r, asEnv = e, asNow = rsNow s'\<rparr>"
  have "serveLocal e (\<lambda>_ r s. (forward r, s)) ctx r s = (out, s')"
    using None run by (simp add: baseChain_def answerOr_def)
  then show ?thesis
  proof (cases rule: serveLocal_effect)
    case 1
    then show ?thesis using inv by (blast intro: policiesInv_same policiesInv_Cons)
  next
    case (2 q answers extra)
    show ?thesis
    proof (cases "s' = s")
      case True
      then show ?thesis using inv by (simp add: policiesInv_Cons)
    next
      case False
      obtain c where c: "serviceClass (qName q) = Some c" using 2(3) by blast
      have "earned (?x # tr) i t (toLower host)"
        if "i \<in> set (aclIdentities a)" "idName i = ctx" "host \<in> set (srvTargets (answers @ extra))"
          "t < rsNow s' + grantLife" for i host t
      proof -
        have "c \<in> set (idAllowServices i)" using may that 2(1,2) c False by fastforce
        moreover have "offersHost ?x c (toLower host)" using 2 c that by (simp add: offersHost_def)
        ultimately show ?thesis using that lst by (auto simp: earned_def)
      qed
      then show ?thesis
        using grantTargets_inv [of a "?x # tr" "s\<lparr>rsNow := rsNow s + int (eTook e)\<rparr>" ctx "answers @ extra"]
          policiesInv_Cons [OF inv, of ?x] 2(5) by simp
    qed
  qed
qed

text \<open>A service name that reaches the LAN through an identity's listener is of an allowed class.\<close>

lemma serviceClass_local:
  assumes "serviceClass n \<noteq> None" "hasSuffix (toLower n) ''.local.''" "fst (Decide p now q)" "qName q = n"
  shows "the (serviceClass n) \<in> set (idAllowServices (pId p))"
  using assms by (auto simp: Decide_iff Let_def)

lemma resolverRun_inv:
  assumes "resolverRun a tr s" "aclOk a"
  shows "policiesInv a tr s"
  using assms
proof (induction rule: resolverRun.induct)
  case (started lan now)
  have "\<exists>i \<in> set (aclIdentities a). idName i = n \<and> policyInv [] i p" if "map_of (setPolicies a) n = Some p" for n p
    using setPolicies_lookup [OF that] by (auto simp: policyInv_def newPolicy_def)
  moreover have "n \<noteq> []" if "map_of (setPolicies a) n = Some p" for n p
    using setPolicies_lookup [OF that] started by (auto simp: aclOk_def identityOk_def validName_def list_all_iff)
  ultimately show ?case using started setPolicies_complete by (fastforce simp: policiesInv_def)
next
  case (tick tr s now)
  then show ?case by simp
next
  case (base tr s front forward e r out s')
  have "idName i \<noteq> []" if "i \<in> set (aclIdentities a)" for i
    using that base by (auto simp: aclOk_def identityOk_def validName_def list_all_iff)
  then show ?case using base by (intro baseChain_inv [OF base.IH [OF base.prems] base.hyps(2)]) auto
next
  case (identity tr s i front forward e r out s')
  note inv = identity.IH [OF identity.prems]
  obtain p where p: "policyFor s (idName i) = Some p"
    using inv identity.hyps(2) by (auto simp: policiesInv_def policyFor_def)
  have "pId p = i"
  proof -
    obtain j where "j \<in> set (aclIdentities a)" "idName j = idName i" "pId p = j"
      using p inv by (fastforce simp: policiesInv_def policyFor_def policyInv_def)
    then show ?thesis using identity.prems identity.hyps(2)
      by (auto simp: aclOk_def distinct_map inj_on_def)
  qed
  show ?case
  proof (cases "\<exists>q. mQuestion r = [q] \<and> fst (Decide p (rsNow s) q)")
    case False
    then have "s' = s" using identity.hyps(3) p
      by (auto simp: identityChain_def serveACL_def split: list.splits if_splits)
    then show ?thesis using inv by (simp add: policiesInv_Cons)
  next
    case True
    then obtain q where q: "mQuestion r = [q]" "fst (Decide p (rsNow s) q)" by blast
    then have run: "baseChain front forward e (idName i) r s = (out, s')"
      using identity.hyps(3) p by (simp add: identityChain_def serveACL_def)
    have "the (serviceClass (qName q)) \<in> set (idAllowServices i)"
      if "serviceClass (qName q) \<noteq> None" "s' \<noteq> s" "qClass q = ClassINET"
    proof -
      have "hasSuffix (toLower (qName q)) ''.local.''"
      proof (rule ccontr)
        assume "\<not> ?thesis"
        then have "s' = s" using run q
          by (auto simp: baseChain_def answerOr_def serveLocal_def split: option.splits)
        then show False using that by simp
      qed
      then show ?thesis using serviceClass_local that q \<open>pId p = i\<close> by blast
    qed
    moreover have "j = i" if "j \<in> set (aclIdentities a)" "idName j = idName i" for j
      using that identity.prems identity.hyps(2) by (auto simp: aclOk_def distinct_map inj_on_def)
    ultimately show ?thesis
      using q by (intro baseChain_inv [OF inv run]) auto
  qed
qed

lemma resolverRun_policy:
  assumes "resolverRun a tr s" "aclOk a" "i \<in> set (aclIdentities a)"
  obtains p where "policyFor s (idName i) = Some p" "policyInv tr i p"
proof -
  obtain p j where p: "policyFor s (idName i) = Some p" "j \<in> set (aclIdentities a)" "idName j = idName i" "policyInv tr j p"
    using resolverRun_inv [OF assms(1,2)] assms(3) by (fastforce simp: policiesInv_def policyFor_def)
  moreover have "j = i" using p(2,3) assms(2,3) by (auto simp: aclOk_def distinct_map inj_on_def)
  ultimately show ?thesis using that by blast
qed

text \<open>
  What the configuration alone opens to an identity: a service of a listed class, or another name
  that a listed name covers.
\<close>

definition openTo :: "aclIdentity \<Rightarrow> question \<Rightarrow> bool" where
  "openTo i q = (let name = toLower (qName q) in
     if hasSuffix name ''.local.'' \<and> serviceClass name \<noteq> None
     then the (serviceClass name) \<in> set (idAllowServices i)
     else list_ex (nameAllowedBy (trimSuffix name ''.'')) (idAllowNames i))"

lemma Decide_open:
  "fst (Decide p now q) \<longleftrightarrow> qClass q = ClassINET \<and>
     (openTo (pId p) q \<or> hasSuffix (toLower (qName q)) ''.local.'' \<and> serviceClass (qName q) = None \<and>
       hasGrant now (toLower (qName q)) (pGranted p))"
  by (auto simp: Decide_iff openTo_def matchesName_def Let_def toLower_idem)

section \<open>Starting\<close>

lemma attempt_simps:
  "attempt m s = (Done (Inr a), t) \<longleftrightarrow> m s = (Done a, t)"
  "attempt m s = (Done (Inl e), t) \<longleftrightarrow> m s = (Err e, t)"
  by (auto simp: attempt_def split: prod.splits outcome.splits)

lemma orStop_Done [simp]: "orStop m s = (Done u, t) \<longleftrightarrow> m s = (Done u, t)"
  by (auto simp: orStop_def bindM_def attempt_def ret_def raise_def modS_def
      split: prod.splits outcome.splits sum.splits)

lemma publish_Done:
  "publish e f s = (Done u, t) \<longleftrightarrow> sePublish e (fst f) \<and> t = s\<lparr>rhFiles := assocPut (fst f) (snd f) (rhFiles s)\<rparr>"
  by (auto simp: publish_def modS_def)

text \<open>A published set of files with distinct names is there, and nothing else of the state changed.\<close>

lemma publish_all:
  assumes "eachM (publish e) fs s = (Done u, t)"
  shows "t = s\<lparr>rhFiles := foldl (\<lambda>m f. assocPut (fst f) (snd f) m) (rhFiles s) fs\<rparr>"
  using assms
proof (induction fs arbitrary: s)
  case Nil
  then show ?case by simp
next
  case (Cons f fs)
  then have "eachM (publish e) fs (s\<lparr>rhFiles := assocPut (fst f) (snd f) (rhFiles s)\<rparr>) = (Done u, t)"
    by (auto simp: bindM_Done publish_Done)
  from Cons.IH [OF this] show ?case by simp
qed

lemma map_of_published:
  assumes "distinct (map fst fs)" "(n, c) \<in> set fs"
  shows "map_of (foldl (\<lambda>m f. assocPut (fst f) (snd f) m) m0 fs) n = Some c"
proof -
  have "map_of (rev (map (\<lambda>f. (fst f, snd f)) fs)) n = Some c"
    using assms by (simp add: rev_map [symmetric])
  then show ?thesis by (simp add: map_of_assocPuts)
qed

definition startPlan :: "resolverOption list \<Rightarrow> acl \<times> bool" where
  "startPlan opts = foldl applyOption (zeroACL, False) opts"

lemma startResolver_Done:
  assumes "startResolver e leases address port upstream opts s = (Done u, t)"
  obtains ip a lan where "ParseIP address = Some ip" "startPlan opts = (a, lan)" "aclOk a"
    "\<And>i. i \<in> set (aclIdentities a) \<Longrightarrow> ParseIP (idListen i) \<noteq> Some ip"
    "rsPolicies t = Some (setPolicies a)" "rsNow t = rsNow s"
    "rhServing t = Some (pluginCorefile leases port (addrString ip) upstream (aclIdentities a))"
    "rhFiles t = foldl (\<lambda>m f. assocPut (fst f) (snd f) m) (rhFiles s) (publishedFiles ip a)"
  using assms unfolding startPlan_def [symmetric]
  by (cases "startPlan opts")
    (auto simp: startResolver_def Let_def startPlan_def [symmetric] bindM_Done validateACL_iff modS_def list_ex_iff
      dest!: publish_all split: option.splits if_splits)

text \<open>A start that fails leaves no policy in force and nothing serving.\<close>

lemma orStop_Err: "orStop m s = (Err x, t) \<Longrightarrow> rsPolicies t = None \<and> rhServing t = None"
  by (auto simp: orStop_def bindM_def attempt_def ret_def raise_def modS_def stopServing_def
      split: prod.splits outcome.splits sum.splits)

lemma startResolver_Err:
  assumes "startResolver e leases address port upstream opts s = (Err x, t)"
    "rsPolicies s = None" "rhServing s = None"
  shows "rsPolicies t = None \<and> rhServing t = None"
  using assms
  by (auto simp: startResolver_def Let_def bindM_def liftR_def raise_def ret_def modS_def
      dest: orStop_Err split: option.splits if_splits prod.splits outcome.splits sum.splits)

subsection \<open>The published files\<close>

lemma publishedFiles_distinct: "distinct (map fst (publishedFiles ip a))"
proof -
  have "distinct (map fst (foldl (\<lambda>m i. assocPut (f i) (g i) (assocPut (f' i) (g' i) m)) m0 xs))"
    if "distinct (map fst m0)" for f g f' g' and xs :: "aclIdentity list" and m0 :: "(string \<times> string) list"
    using that by (induction xs arbitrary: m0) (auto intro: distinct_assocPut)
  then show ?thesis unfolding publishedFiles_def by simp
qed

lemma published_pair:
  assumes "distinct (map idName xs)" "i \<in> set xs"
  shows "map_of (foldl (\<lambda>m i. assocPut (''resolv-'' @ idName i @ ''.conf'') (g i)
           (assocPut (''dns-'' @ idName i @ ''.env'') (g' i) m)) m0 xs) (''dns-'' @ idName i @ ''.env'') = Some (g' i)"
  using assms
proof (induction xs arbitrary: m0 rule: rev_induct)
  case Nil
  then show ?case by simp
next
  case (snoc x xs)
  then have "i = x \<or> idName i \<noteq> idName x \<and> i \<in> set xs" by (auto simp: rev_image_eqI)
  then show ?case using snoc by auto
qed

lemma publishedFiles_identity:
  assumes "aclOk a" "i \<in> set (aclIdentities a)"
  shows "(''dns-'' @ idName i @ ''.env'', ''GHOSTD_DNS_ADDRESS='' @ idListen i @ lf) \<in> set (publishedFiles ip a)"
proof -
  have "map_of (publishedFiles ip a) (''dns-'' @ idName i @ ''.env'') = Some (''GHOSTD_DNS_ADDRESS='' @ idListen i @ lf)"
    unfolding publishedFiles_def by (rule published_pair) (use assms in \<open>auto simp: aclOk_def\<close>)
  then show ?thesis by (rule map_of_SomeD)
qed

end
