(* ===== verification/Lease_Dns.thy ===== *)
theory Lease_Dns
  imports Dns_Msg Book_Ledger
begin

text \<open>
  The authoritative answers of the address book (\<^verbatim>\<open>internal/addressbook/dns.go\<close>, the
  \<^verbatim>\<open>ghostleases\<close> plugin): names of a scope's zone and reverse names of its subnet, from the
  leases of the ledger.  \<open>reverseAddr\<close> is \<^verbatim>\<open>dns.ReverseAddr\<close> of the DNS library, empty on an error,
  and \<open>nxt\<close> the handler behind the plugin.
\<close>

section \<open>Reverse names\<close>

definition reverse6 :: "string \<Rightarrow> addr option" where
  "reverse6 name =
     (let parts = splitOn CHR ''.'' (trimSuffix name ''.ip6.arpa.'')
      in if length parts \<noteq> 32 \<or> \<not> list_all (\<lambda>p. length p = 1) parts then None
         else case allSome (map hexVal (concat (rev parts))) of
                Some ds \<Rightarrow> Some (V6 (of_nat (foldl (\<lambda>n d. n * 16 + d) 0 ds)) [])
              | None \<Rightarrow> None)"

definition reverse4 :: "string \<Rightarrow> addr option" where
  "reverse4 name =
     (let parts = splitOn CHR ''.'' (trimSuffix name ''.in-addr.arpa.'')
      in if length parts \<noteq> 4 then None else ParseAddr (joinWith ''.'' (rev parts)))"

definition reverseIP :: "string \<Rightarrow> addr option" where
  "reverseIP name =
     (if hasSuffix name ''.ip6.arpa.'' then reverse6 name
      else if hasSuffix name ''.in-addr.arpa.'' then reverse4 name else None)"

section \<open>Which scope a name belongs to\<close>

text \<open>
  The first scope whose zone covers the name, or whose subnet contains the reversed address.  A
  subnet that does not parse panics; a validated configuration has none.
\<close>

datatype zoneHit = NoZone | Forward scope | Reverse scope addr | BadSubnet

definition inZone :: "string \<Rightarrow> string \<Rightarrow> bool" where
  "inZone name zone = (name = zone @ ''.'' \<or> hasSuffix name (''.'' @ zone @ ''.''))"

fun findZone :: "string \<Rightarrow> scope list \<Rightarrow> zoneHit" where
  "findZone name [] = NoZone"
| "findZone name (s # ss) =
     (if inZone name (sZone s) then Forward s
      else case reverseIP name of
             None \<Rightarrow> findZone name ss
           | Some ip \<Rightarrow> (case ParsePrefix (sSubnet s) of
                 None \<Rightarrow> BadSubnet
               | Some p \<Rightarrow> if Contains p ip then Reverse s ip else findZone name ss))"

text \<open>An alias stands for the name of its device; the name to look up follows it.\<close>

definition resolveAlias :: "config \<Rightarrow> string \<Rightarrow> string \<times> string \<Rightarrow> string \<times> string" where
  "resolveAlias c zone p =
     foldl (\<lambda>p d. foldl (\<lambda>p alias. if fst p = alias then (dName d, dName d @ ''.'' @ zone @ ''.'') else p)
       p (dAliases d)) p (cDevices c)"

definition zoneScopes :: "config \<Rightarrow> string \<Rightarrow> scope list" where
  "zoneScopes c zone = filter (\<lambda>s. sZone s = zone) (cScopes c)"

section \<open>Records\<close>

definition netIP :: "string \<Rightarrow> addr" where
  "netIP a = (case ParseIP a of Some ip \<Rightarrow> ip | None \<Rightarrow> NoAddr)"

definition dnsHeader :: "question \<Rightarrow> int \<Rightarrow> rdata \<Rightarrow> rr" where
  "dnsHeader q ttl d = \<lparr>rrName = qName q, rrType = qType q, rrClass = ClassINET, rrTtl = ttl, rrData = d\<rparr>"

definition leaseTTL :: "int \<Rightarrow> binding \<Rightarrow> int" where
  "leaseTTL now b = (if bEnd b - now < 30 then bEnd b - now else 30) mod 2 ^ 32"

text \<open>The owner name a lease answers for, and whether it answers the question.\<close>

definition ownerName :: "string \<Rightarrow> binding \<Rightarrow> string" where
  "ownerName zone b = bName b @ ''.'' @ zone @ ''.''"

definition answersFor ::
  "(string \<Rightarrow> string) \<Rightarrow> string \<Rightarrow> bool \<Rightarrow> string \<Rightarrow> string \<Rightarrow> int \<Rightarrow> binding \<Rightarrow> bool" where
  "answersFor reverseAddr zone back name lookupName now b =
     (bState b = ''active'' \<and> \<not> bEnd b \<le> now \<and>
      (if back then reverseAddr (bAddress b) = name else ownerName zone b = lookupName))"

definition leaseRecords :: "string \<Rightarrow> bool \<Rightarrow> question \<Rightarrow> int \<Rightarrow> binding \<Rightarrow> rr list" where
  "leaseRecords zone back q now b =
     (let hdr = dnsHeader q (leaseTTL now b); ip = netIP (bAddress b)
      in (if back \<and> qType q = TypePTR then [hdr (RPTR (ownerName zone b))] else []) @
         (if \<not> back \<and> qType q = TypeA \<and> Is4 ip then [hdr (RA ip)] else []) @
         (if \<not> back \<and> qType q = TypeAAAA \<and> \<not> Is4 ip then [hdr (RAAAA ip)] else []))"

definition serverRecords :: "question \<Rightarrow> scope list \<Rightarrow> rr list" where
  "serverRecords q ss = concat (map (\<lambda>s. let ip = netIP (sServer s) in
     (if qType q = TypeA \<and> Is4 ip then [dnsHeader q 30 (RA ip)] else []) @
     (if qType q = TypeAAAA \<and> \<not> Is4 ip then [dnsHeader q 30 (RAAAA ip)] else [])) ss)"

definition zoneSOA :: "string \<Rightarrow> string \<Rightarrow> nat \<Rightarrow> rr" where
  "zoneSOA owner zone serial = \<lparr>rrName = owner, rrType = TypeSOA, rrClass = ClassINET, rrTtl = 1,
     rrData = RSOA (''ns.'' @ zone @ ''.'') (''hostmaster.'' @ zone @ ''.'') (int serial)\<rparr>"

section \<open>Serving\<close>

text \<open>The bindings of every scope that shares the zone.\<close>

definition zoneBindings :: "'t bolt \<Rightarrow> scope list \<Rightarrow> string \<Rightarrow> string \<Rightarrow> ('t book, binding list) prog" where
  "zoneBindings B ss label address =
     foldM (\<lambda>out s. bindM (DNSBindings B (sID s) label address) (\<lambda>found. ret (out @ found))) [] ss"

definition leaseReply ::
  "(string \<Rightarrow> string) \<Rightarrow> config \<Rightarrow> scope \<Rightarrow> bool \<Rightarrow> string \<Rightarrow> string \<Rightarrow> question \<Rightarrow> int \<Rightarrow> nat \<Rightarrow>
   binding list \<Rightarrow> dnsReply" where
  "leaseReply reverseAddr c s back name lookupName q now serial bs =
     (let zone = sZone s;
          hits = filter (answersFor reverseAddr zone back name lookupName now) bs;
          isServer = (name = ''ns.'' @ zone @ ''.'');
          apex = (name = zone @ ''.'');
          soa = zoneSOA (if back then qName q else zone @ ''.'') zone serial;
          answer = concat (map (leaseRecords zone back q now) hits) @
            (if isServer then serverRecords q (zoneScopes c zone) else []) @
            (if apex \<and> qType q = TypeSOA then [soa] else []) @
            (if apex \<and> qType q = TypeNS
             then [\<lparr>rrName = qName q, rrType = TypeNS, rrClass = ClassINET, rrTtl = 30,
                    rrData = RNS (''ns.'' @ zone @ ''.'')\<rparr>] else [])
      in newReply\<lparr>reAuthoritative := True, reAnswer := answer,
           reRcode := (if apex \<or> hits \<noteq> [] \<or> isServer then RcodeSuccess else RcodeNameError),
           reNs := (if answer = [] then [soa] else [])\<rparr>)"

definition answerZone ::
  "(string \<Rightarrow> string) \<Rightarrow> 't bolt \<Rightarrow> config \<Rightarrow> scope \<Rightarrow> addr option \<Rightarrow> question \<Rightarrow> ('t book, served) prog" where
  "answerZone reverseAddr B c s back q =
     (if qClass q \<noteq> ClassINET then ret (gaveUp RcodeRefused)
      else let name = toLower (qName q); zone = sZone s;
               unaliased = (trimSuffix name (''.'' @ zone @ ''.''), name);
               (label, lookupName) = (if back = None then resolveAlias c zone unaliased else unaliased);
               address = (case back of Some ip \<Rightarrow> addrString ip | None \<Rightarrow> [])
      in bindM (attempt (zoneBindings B (zoneScopes c zone) label address)) (\<lambda>r. case r of
           Inl _ \<Rightarrow> ret (brokeWith RcodeServerFailure)
         | Inr bs \<Rightarrow> bindM bookNow (\<lambda>now. bindM (getS (Revision B)) (\<lambda>serial.
             ret (wroteReply RcodeSuccess
               (leaseReply reverseAddr c s (back \<noteq> None) name lookupName q now serial bs))))))"

definition serveLeases ::
  "(string \<Rightarrow> string) \<Rightarrow> 't bolt \<Rightarrow> config \<Rightarrow> (msg \<Rightarrow> served) \<Rightarrow> msg \<Rightarrow> ('t book, served) prog" where
  "serveLeases reverseAddr B c nxt r = (case mQuestion r of
       [q] \<Rightarrow> (case findZone (toLower (qName q)) (cScopes c) of
           NoZone \<Rightarrow> ret (nxt r)
         | BadSubnet \<Rightarrow> (\<lambda>s. (Died, s))
         | Forward s \<Rightarrow> answerZone reverseAddr B c s None q
         | Reverse s ip \<Rightarrow> answerZone reverseAddr B c s (Some ip) q)
     | _ \<Rightarrow> ret (gaveUp RcodeFormatError))"

lemmas lease_dns_defs [go_defs] =
  reverse6_def reverse4_def reverseIP_def inZone_def resolveAlias_def zoneScopes_def netIP_def
  dnsHeader_def leaseTTL_def ownerName_def answersFor_def leaseRecords_def serverRecords_def
  zoneSOA_def zoneBindings_def leaseReply_def answerZone_def serveLeases_def

end
