(* ===== verification/Lease_Dns_Facts.thy ===== *)
theory Lease_Dns_Facts
  imports Lease_Dns Book_Queries Book_Valid
begin

text \<open>
  What the lease answers say of the ledger: the entries under a name in the name index are the
  active leases of that name, so the answers to a forward question are the addresses of exactly
  those leases, none of them beyond its end.
\<close>

section \<open>Leases under a name\<close>

definition namedLeases :: "'t bolt \<Rightarrow> 't \<Rightarrow> config \<Rightarrow> string \<Rightarrow> int \<Rightarrow> string \<Rightarrow> binding set" where
  "namedLeases B t c zone now label =
     {b. bindingAt B t (keyOf b) = Some b \<and> bState b = ''active'' \<and> bOrigin b \<noteq> originPD \<and> now < bEnd b \<and>
         bName b = label \<and> bScope b \<in> sID ` set (zoneScopes c zone)}"

definition steady :: "'t book \<Rightarrow> int \<Rightarrow> bool" where
  "steady s now \<longleftrightarrow> (\<forall>i. wall s i = now)"

lemma View_Done:
  "View B body s = (Done a, s') \<longleftrightarrow> txBegin B (db s) = None \<and> (\<exists>u. body s = (Done a, u) \<and> s' = u\<lparr>db := db s\<rparr>)"
  by (auto simp: View_def split: option.splits prod.splits)

lemma currentBinding_Done:
  assumes "currentBinding out raw s = (Done r, s')" "steady s now"
  shows "steady s' now \<and> db s' = db s \<and>
    (case raw of None \<Rightarrow> r = out
     | Some x \<Rightarrow> (\<exists>b. unmarshalBinding x = Inr b \<and> r = out @ (if bState b = ''active'' \<and> now < bEnd b then [b] else [])))"
  using assms
  by (auto simp: currentBinding_def book_run steady_def split: option.splits if_splits)

lemma foldM_returns:
  assumes "\<And>x acc s. x \<in> set xs \<Longrightarrow> P s \<Longrightarrow> \<exists>a s'. f acc x s = (Done a, s') \<and> P s'" "P s"
  shows "\<exists>a s'. foldM f acc xs s = (Done a, s') \<and> P s'"
  using assms
proof (induction xs arbitrary: acc s)
  case Nil
  then show ?case by (simp add: ret_def)
next
  case (Cons x xs)
  obtain a u where a: "f acc x s = (Done a, u)" "P u" using Cons.prems(1) [of x s acc] Cons.prems(2) by auto
  have "\<exists>b s'. foldM f a xs u = (Done b, s') \<and> P s'"
    by (rule Cons.IH [OF _ a(2)]) (simp add: Cons.prems(1))
  then show ?case using a(1) by (simp add: bindM_def)
qed

context bolt_laws
begin

lemma currentBindings_Done:
  assumes "foldM (\<lambda>out (_, v). bindM (getS (\<lambda>s. bktGet B leaseBucket (rawBytes v) (db s))) (currentBinding out))
      out kvs s = (Done r, s')" "steady s now" "bookOk B (db s)"
  shows "steady s' now \<and> db s' = db s \<and>
    set r = set out \<union> {b. \<exists>k v. (k, v) \<in> set kvs \<and> bindingAt B (db s) (rawBytes v) = Some b \<and> bState b = ''active'' \<and> now < bEnd b}"
  using assms
proof (induction kvs arbitrary: out s)
  case Nil
  then show ?case by auto
next
  case (Cons kv kvs)
  obtain k v where kv: "kv = (k, v)" by force
  obtain out1 u where one: "currentBinding out (bktGet B leaseBucket (rawBytes v) (db s)) s = (Done out1, u)"
    and rest: "foldM (\<lambda>out (_, v). bindM (getS (\<lambda>s. bktGet B leaseBucket (rawBytes v) (db s))) (currentBinding out))
      out1 kvs u = (Done r, s')"
    using Cons.prems(1) by (auto simp: kv book_run)
  have u: "steady u now" "db u = db s"
    and eff: "set out1 = set out \<union> {b. bindingAt B (db s) (rawBytes v) = Some b \<and> bState b = ''active'' \<and> now < bEnd b}"
    using currentBinding_Done [OF one Cons.prems(2)] by (auto simp: bindingAt_def split: option.splits)
  show ?case using Cons.IH [OF rest u(1)] Cons.prems(3) u eff by (auto simp: kv)
qed

lemma dns_entry:
  assumes "bookOk B t"
  shows "bktGet B dnsBucket k t = Some v \<longleftrightarrow>
    (\<exists>b. bindingAt B t (keyOf b) = Some b \<and> bState b = ''active'' \<and> bOrigin b \<noteq> originPD \<and>
         k = dnsKey b \<and> v = Text (keyOf b))"
proof -
  have entry: "(dnsBucket, k, v) \<in> set (derived b) \<longleftrightarrow>
      bState b = ''active'' \<and> bOrigin b \<noteq> originPD \<and> k = dnsKey b \<and> v = Text (keyOf b)" for b
    using index_bucket [of dnsBucket k b] other_buckets(2,3,4) by (auto simp: derived_mem)
  have "bktGet B dnsBucket k t = Some v \<longleftrightarrow> (\<exists>j b. bindingAt B t j = Some b \<and> (dnsBucket, k, v) \<in> set (derived b))"
    using assms by (simp add: bookOk_def derivedBuckets_def)
  also have "\<dots> \<longleftrightarrow> (\<exists>b. bindingAt B t (keyOf b) = Some b \<and> (dnsBucket, k, v) \<in> set (derived b))"
    using bookOk_at(2) [OF assms] by blast
  also have "\<dots> \<longleftrightarrow> (\<exists>b. bindingAt B t (keyOf b) = Some b \<and> bState b = ''active'' \<and> bOrigin b \<noteq> originPD \<and>
         k = dnsKey b \<and> v = Text (keyOf b))"
    unfolding entry ..
  finally show ?thesis .
qed

lemma DNSBindings_name:
  assumes "DNSBindings B sc label [] s = (Done out, s')" "steady s now" "bookOk B (db s)"
  shows "steady s' now \<and> db s' = db s \<and>
    set out = {b. bindingAt B (db s) (keyOf b) = Some b \<and> bState b = ''active'' \<and> bOrigin b \<noteq> originPD \<and> now < bEnd b \<and>
      hasPrefix (dnsKey b) (sc @ ''/'' @ label @ ''/'')}"
proof -
  let ?p = "sc @ ''/'' @ label @ ''/''"
  obtain u where u: "foldM (\<lambda>out (_, v). bindM (getS (\<lambda>s. bktGet B leaseBucket (rawBytes v) (db s))) (currentBinding out))
      [] (scanPrefix B dnsBucket ?p (db s)) s = (Done out, u)" "s' = u\<lparr>db := db s\<rparr>"
    using assms(1) by (auto simp: DNSBindings_def View_Done book_run)
  let ?hit = "\<lambda>b. bindingAt B (db s) (keyOf b) = Some b \<and> bState b = ''active'' \<and> bOrigin b \<noteq> originPD"
  have out: "set out = {b. \<exists>k v. (k, v) \<in> set (scanPrefix B dnsBucket ?p (db s)) \<and>
      bindingAt B (db s) (rawBytes v) = Some b \<and> bState b = ''active'' \<and> now < bEnd b}"
    and st: "steady u now" using currentBindings_Done [OF u(1) assms(2,3)] by auto
  have scan: "(k, v) \<in> set (scanPrefix B dnsBucket ?p (db s)) \<longleftrightarrow>
      hasPrefix k ?p \<and> (\<exists>b. ?hit b \<and> k = dnsKey b \<and> v = Text (keyOf b))" for k v
    unfolding scan_mem dns_entry [OF assms(3)] by blast
  have "b \<in> set out \<longleftrightarrow> ?hit b \<and> now < bEnd b \<and> hasPrefix (dnsKey b) ?p" for b
  proof
    assume "b \<in> set out"
    then obtain x where "hasPrefix (dnsKey x) ?p" "?hit x" "bindingAt B (db s) (keyOf x) = Some b" "now < bEnd b"
      unfolding out scan by (auto simp: rawBytes_def)
    then show "?hit b \<and> now < bEnd b \<and> hasPrefix (dnsKey b) ?p" by simp
  next
    assume b: "?hit b \<and> now < bEnd b \<and> hasPrefix (dnsKey b) ?p"
    then have "(dnsKey b, Text (keyOf b)) \<in> set (scanPrefix B dnsBucket ?p (db s))" unfolding scan by blast
    moreover have "rawBytes (Text (keyOf b)) = keyOf b" by (simp add: rawBytes_def)
    ultimately show "b \<in> set out" using b unfolding out by fastforce
  qed
  then show ?thesis using u(2) st by (auto simp: steady_def)
qed

lemma zoneBindings_name:
  assumes "foldM (\<lambda>out s. bindM (DNSBindings B (sID s) label []) (\<lambda>found. ret (out @ found))) out ss st = (Done r, st')"
    "steady st now" "bookOk B (db st)"
  shows "steady st' now \<and> db st' = db st \<and>
    set r = set out \<union> {b. bindingAt B (db st) (keyOf b) = Some b \<and> bState b = ''active'' \<and> bOrigin b \<noteq> originPD \<and>
      now < bEnd b \<and> (\<exists>s \<in> set ss. hasPrefix (dnsKey b) (sID s @ ''/'' @ label @ ''/''))}"
  using assms
proof (induction ss arbitrary: out st)
  case Nil
  then show ?case by auto
next
  case (Cons s ss)
  obtain found u where one: "DNSBindings B (sID s) label [] st = (Done found, u)"
    and rest: "foldM (\<lambda>out s. bindM (DNSBindings B (sID s) label []) (\<lambda>found. ret (out @ found))) (out @ found) ss u = (Done r, st')"
    using Cons.prems(1) by (auto simp: book_run)
  note f = DNSBindings_name [OF one Cons.prems(2,3)]
  show ?case using Cons.IH [OF rest] f Cons.prems(3) by auto
qed

text \<open>Under a label, the entries of a scope are the leases of exactly that name.\<close>

lemma dnsKey_label:
  assumes "keyOk b" "CHR ''/'' \<notin> set sc" "bName b = label"
  shows "hasPrefix (dnsKey b) (sc @ ''/'' @ label @ ''/'') \<longleftrightarrow> bScope b = sc"
  using assms sep_inj [of "CHR ''/''" "bScope b" sc]
  by (auto simp: dnsKey_def hasPrefix_iff keyOk_def)

end

section \<open>Forward questions\<close>

lemma resolveAlias_look:
  assumes "snd p = fst p @ ''.'' @ zone @ ''.''"
  shows "snd (resolveAlias c zone p) = fst (resolveAlias c zone p) @ ''.'' @ zone @ ''.''"
proof -
  let ?g = "\<lambda>d p alias. if fst p = alias then (dName d, dName d @ ''.'' @ zone @ ''.'') else p"
  have one: "snd p = fst p @ ''.'' @ zone @ ''.'' \<Longrightarrow>
      snd (foldl (?g d) p as) = fst (foldl (?g d) p as) @ ''.'' @ zone @ ''.''" for d p as
    by (induction "as" arbitrary: p) auto
  have "snd p = fst p @ ''.'' @ zone @ ''.'' \<Longrightarrow>
      snd (foldl (\<lambda>p d. foldl (?g d) p (dAliases d)) p ds) =
      fst (foldl (\<lambda>p d. foldl (?g d) p (dAliases d)) p ds) @ ''.'' @ zone @ ''.''" for ds
  proof (induction ds arbitrary: p)
    case (Cons d ds)
    show ?case using Cons.IH [OF one [OF Cons.prems, of d "dAliases d"]] by simp
  qed simp
  then show ?thesis using assms unfolding resolveAlias_def by simp
qed

lemma Validate_scope_ids:
  assumes "Validate c = Inr ()" "s \<in> set (cScopes c)"
  shows "CHR ''/'' \<notin> set (sID s)"
  using Validate_facts [OF assms(1)] assms(2) labelPattern_plain by (auto simp: scopeOk_def)

lemma leaseRecords_forward:
  assumes "qType q \<in> {TypeA, TypeAAAA}"
  shows "leaseRecords zone False q now b =
    (if Is4 (netIP (bAddress b)) = (qType q = TypeA)
     then [dnsHeader q (leaseTTL now b) ((if qType q = TypeA then RA else RAAAA) (netIP (bAddress b)))] else [])"
  using assms by (auto simp: leaseRecords_def TypeA_def TypeAAAA_def Let_def)

text \<open>The reply to a question for the addresses of a host of the zone.\<close>

context bolt_laws
begin

lemma serveLeases_reply:
  assumes ok: "bookOk B (db st)" and clock: "steady st now" and valid: "Validate c = Inr ()"
    and one: "mQuestion r = [q]" and inet: "qClass q = ClassINET"
    and name: "toLower (qName q) = host @ ''.'' @ zone @ ''.''"
    and zone: "findZone (toLower (qName q)) (cScopes c) = Forward s" "sZone s = zone"
    and label: "label = fst (resolveAlias c zone (host, host @ ''.'' @ zone @ ''.''))"
    and run: "serveLeases reverseAddr B c nxt r st = (Done out, st')"
  obtains "out = brokeWith RcodeServerFailure"
  | bs serial where "out = wroteReply RcodeSuccess
      (leaseReply reverseAddr c s False (host @ ''.'' @ zone @ ''.'') (label @ ''.'' @ zone @ ''.'') q now serial bs)"
    "{b \<in> set bs. answersFor reverseAddr zone False (host @ ''.'' @ zone @ ''.'') (label @ ''.'' @ zone @ ''.'') now b} =
     namedLeases B (db st) c zone now label"
proof -
  let ?name = "host @ ''.'' @ zone @ ''.''"
  obtain look where look: "resolveAlias c zone (host, ?name) = (label, look)" using label by (metis prod.collapse)
  then have lookN: "look = label @ ''.'' @ zone @ ''.''"
    using resolveAlias_look [of "(host, ?name)" zone c] by simp
  have "trimSuffix ?name (''.'' @ zone @ ''.'') = host" by (rule trimSuffix_append)
  then have "bindM (attempt (zoneBindings B (zoneScopes c zone) label [])) (\<lambda>r. case r of
           Inl _ \<Rightarrow> ret (brokeWith RcodeServerFailure)
         | Inr bs \<Rightarrow> bindM bookNow (\<lambda>now. bindM (getS (Revision B)) (\<lambda>serial.
             ret (wroteReply RcodeSuccess (leaseReply reverseAddr c s False ?name look q now serial bs))))) st = (Done out, st')"
    using run one zone inet name look by (simp add: serveLeases_def answerZone_def Let_def)
  then consider "out = brokeWith RcodeServerFailure"
    | bs u serial where "zoneBindings B (zoneScopes c zone) label [] st = (Done bs, u)"
      "out = wroteReply RcodeSuccess (leaseReply reverseAddr c s False ?name look q (wall u (reads u)) serial bs)"
    by (auto simp: bindM_Done attempt_def bookNow_def getS_def split: prod.splits outcome.splits)
  then show ?thesis
  proof cases
    case 1
    then show ?thesis using that(1) by blast
  next
    case (2 bs u serial)
    have u: "steady u now" and bs: "set bs = {b. bindingAt B (db st) (keyOf b) = Some b \<and> bState b = ''active'' \<and>
        bOrigin b \<noteq> originPD \<and> now < bEnd b \<and>
        (\<exists>s \<in> set (zoneScopes c zone). hasPrefix (dnsKey b) (sID s @ ''/'' @ label @ ''/''))}"
      using zoneBindings_name [OF 2(1) [unfolded zoneBindings_def] clock ok] by auto
    have "{b \<in> set bs. answersFor reverseAddr zone False ?name look now b} = namedLeases B (db st) c zone now label"
    proof -
      have key: "hasPrefix (dnsKey b) (sID s @ ''/'' @ label @ ''/'') \<longleftrightarrow> bScope b = sID s"
        if "bindingAt B (db st) (keyOf b) = Some b" "bName b = label" "s \<in> set (zoneScopes c zone)" for b s
        using dnsKey_label [OF bookOk_at(1) [OF ok that(1)] _ that(2)] Validate_scope_ids [OF valid] that(3)
        by (simp add: zoneScopes_def)
      have own: "ownerName zone b = look \<longleftrightarrow> bName b = label" for b by (simp add: lookN ownerName_def)
      show ?thesis unfolding bs namedLeases_def answersFor_def own using key by (auto; metis image_eqI)
    qed
    moreover have "wall u (reads u) = now" using u by (simp add: steady_def)
    ultimately show ?thesis using that(2) 2(2) by (simp add: lookN)
  qed
qed

text \<open>On a readable store the answer is a reply, not a failure.\<close>

lemma DNSBindings_returns:
  assumes "bookOk B (db s)" "txBegin B (db s) = None"
  shows "\<exists>found s'. DNSBindings B sc label ad s = (Done found, s') \<and> db s' = db s"
proof -
  have one: "\<exists>r s'. currentBinding out (bktGet B leaseBucket k (db u)) u = (Done r, s') \<and> db s' = db s"
    if "db u = db s" for u k out
    using assms(1) that unfolding bookOk_def
    by (cases "bktGet B leaseBucket k (db u)")
      (fastforce simp: currentBinding_def book_run bindM_def liftR_def bookNow_def ret_def)+
  have "\<exists>r s'. foldM (\<lambda>out (_, v). bindM (getS (\<lambda>s. bktGet B leaseBucket (rawBytes v) (db s))) (currentBinding out))
      out kvs u = (Done r, s') \<and> db s' = db s" if "db u = db s" for u out kvs
    by (rule foldM_returns [where P = "\<lambda>u. db u = db s", OF _ that]) (use one in \<open>auto simp: bindM_def getS_def\<close>)
  note many = this [OF refl]
  have "\<exists>found u. (if ad \<noteq> [] then bindM (getS (\<lambda>s. bktGet B leaseBucket (bindingKey sc ad) (db s))) (currentBinding [])
      else bindM (getS (\<lambda>s. scanPrefix B dnsBucket (sc @ ''/'' @ label @ ''/'') (db s))) (\<lambda>kvs.
         foldM (\<lambda>out (_, v).
             bindM (getS (\<lambda>s. bktGet B leaseBucket (rawBytes v) (db s))) (currentBinding out)) [] kvs)) s = (Done found, u)"
    using one [OF refl] many by (auto simp: bindM_def getS_def) blast+
  then show ?thesis using assms(2) by (auto simp: DNSBindings_def View_def)
qed

lemma serveLeases_returns:
  assumes "bookOk B (db st)" "txBegin B (db st) = None" "mQuestion r = [q]" "qClass q = ClassINET"
    "findZone (toLower (qName q)) (cScopes c) = Forward s"
  shows "\<exists>reply st'. serveLeases reverseAddr B c nxt r st = (Done (wroteReply RcodeSuccess reply), st')"
proof -
  have one: "\<exists>bs u'. bindM (DNSBindings B (sID x) label ad) (\<lambda>found. ret (acc @ found)) u = (Done bs, u') \<and> db u' = db st"
    if u: "db u = db st" for x acc u label ad
  proof -
    obtain found u' where "DNSBindings B (sID x) label ad u = (Done found, u')" "db u' = db u"
      using DNSBindings_returns [of u "sID x" label ad] assms(1,2) u by auto
    then show ?thesis using u by (simp add: bindM_def ret_def)
  qed
  have zone: "\<exists>bs u. zoneBindings B ss label ad st = (Done bs, u) \<and> db u = db st" for ss label ad
    unfolding zoneBindings_def by (rule foldM_returns [where P = "\<lambda>u. db u = db st"]) (use one in auto)
  obtain label look where look: "resolveAlias c (sZone s) (trimSuffix (toLower (qName q)) (''.'' @ sZone s @ ''.''), toLower (qName q)) =
      (label, look)" by force
  obtain bs u where "zoneBindings B (zoneScopes c (sZone s)) label [] st = (Done bs, u)" using zone by blast
  then show ?thesis using assms(3-5) look
    by (simp add: serveLeases_def answerZone_def Let_def bindM_def attempt_def bookNow_def getS_def ret_def)
qed

end

section \<open>Answers to a host question\<close>

text \<open>The records that say where the leases of a name are.\<close>

definition addressesOf :: "question \<Rightarrow> int \<Rightarrow> binding set \<Rightarrow> rr set" where
  "addressesOf q now bs = (\<lambda>b. dnsHeader q (leaseTTL now b) ((if qType q = TypeA then RA else RAAAA) (netIP (bAddress b)))) `
     {b \<in> bs. Is4 (netIP (bAddress b)) = (qType q = TypeA)}"

lemma leaseReply_host:
  assumes "qType q \<in> {TypeA, TypeAAAA}" "host \<noteq> ''ns''" "name = host @ ''.'' @ sZone s @ ''.''"
    "{b \<in> set bs. answersFor reverseAddr (sZone s) False name look now b} = leases"
  shows "set (reAnswer (leaseReply reverseAddr c s False name look q now serial bs)) = addressesOf q now leases"
    "reRcode (leaseReply reverseAddr c s False name look q now serial bs) =
       (if leases = {} then RcodeNameError else RcodeSuccess)"
proof -
  have "name \<noteq> ''ns.'' @ sZone s @ ''.''" using assms(2,3) by auto
  moreover have "name \<noteq> sZone s @ ''.''" using assms(3) by (auto dest: arg_cong [where f = length])
  moreover have "set (filter (answersFor reverseAddr (sZone s) False name look now) bs) = leases" using assms(4) by simp
  moreover have "filter (answersFor reverseAddr (sZone s) False name look now) bs = [] \<longleftrightarrow> leases = {}"
    using assms(4) by (auto simp: filter_empty_conv)
  ultimately show
    "set (reAnswer (leaseReply reverseAddr c s False name look q now serial bs)) = addressesOf q now leases"
    "reRcode (leaseReply reverseAddr c s False name look q now serial bs) =
       (if leases = {} then RcodeNameError else RcodeSuccess)"
    using assms(1)
    by (auto simp: leaseReply_def Let_def newReply_def addressesOf_def leaseRecords_forward [OF assms(1)] split: if_splits)
qed

end
