(* ===== verification/Mdns_Config.thy ===== *)
theory Mdns_Config
  imports Dns_Msg Book_Config
begin

text \<open>
  The target of the mDNS domain (\<^verbatim>\<open>internal/mdns/advertise.go\<close>, \<^verbatim>\<open>reflect.go\<close> and \<^verbatim>\<open>nat.go\<close>): the
  records to advertise, the relay and translation rules, their decoder and validation, and the
  normal form of names.
\<close>

section \<open>Types\<close>

record natConfig =
  ncServices :: "string list"
  ncPorts :: string

record reflectRule =
  rfFrom :: string
  rfTo :: string
  rfAllow :: "string list"
  rfAdvertise :: "natConfig option"

record mdnsRecord =
  mrService :: string
  mrInstance :: string
  mrPort :: int
  mrTXT :: "string list"
  mrSubtypes :: "string list"
  mrHost :: string

record mdnsConfig =
  mcInterfaces :: "string list"
  mcHost :: string
  mcRecords :: "mdnsRecord list"
  mcReflect :: "reflectRule list"

definition zeroNAT :: natConfig where
  "zeroNAT = \<lparr>ncServices = [], ncPorts = []\<rparr>"

definition zeroRule :: reflectRule where
  "zeroRule = \<lparr>rfFrom = [], rfTo = [], rfAllow = [], rfAdvertise = None\<rparr>"

definition zeroRecord :: mdnsRecord where
  "zeroRecord = \<lparr>mrService = [], mrInstance = [], mrPort = 0, mrTXT = [], mrSubtypes = [], mrHost = []\<rparr>"

definition zeroMdns :: mdnsConfig where
  "zeroMdns = \<lparr>mcInterfaces = [], mcHost = [], mcRecords = [], mcReflect = []\<rparr>"

section \<open>Decoding\<close>

fun decUint16 :: "int decoder" where
  "decUint16 cur JNull = Inr cur"
| "decUint16 cur (JNum n) = (if 0 \<le> n \<and> n < 65536 then Inr n else mismatch)"
| "decUint16 cur _ = mismatch"

definition decNAT :: "natConfig decoder" where
  "decNAT = decStrict [decInto decStrings ''services'' ncServices ncServices_update,
     decInto decString ''ports'' ncPorts ncPorts_update]"

definition decRule :: "reflectRule decoder" where
  "decRule = decStrict [decInto decString ''from'' rfFrom rfFrom_update,
     decInto decString ''to'' rfTo rfTo_update,
     decInto decStrings ''allow_services'' rfAllow rfAllow_update,
     decInto (decPtr decNAT zeroNAT) ''advertise'' rfAdvertise rfAdvertise_update]"

definition decRecord :: "mdnsRecord decoder" where
  "decRecord = decStrict [decInto decString ''service'' mrService mrService_update,
     decInto decString ''instance'' mrInstance mrInstance_update,
     decInto decUint16 ''port'' mrPort mrPort_update,
     decInto decStrings ''txt'' mrTXT mrTXT_update,
     decInto decStrings ''subtypes'' mrSubtypes mrSubtypes_update,
     decInto decString ''host'' mrHost mrHost_update]"

definition decMdns :: "mdnsConfig decoder" where
  "decMdns = decStrict [decInto decStrings ''interfaces'' mcInterfaces mcInterfaces_update,
     decInto decString ''host'' mcHost mcHost_update,
     decInto (decList decRecord zeroRecord) ''records'' mcRecords mcRecords_update,
     decInto (decList decRule zeroRule) ''reflect'' mcReflect mcReflect_update]"

section \<open>Names\<close>

text \<open>
  The presentation form of a name escapes bytes as \<open>\DDD\<close> or \<open>\c\<close>; \<open>unescape\<close> reads it back, and
  \<open>norm\<close> folds its case as well.
\<close>

fun unescape :: "string \<Rightarrow> string" where
  "unescape (c # a # b # d # cs) =
     (if c = CHR 0x5C then
        (if isDigit a \<and> isDigit b \<and> isDigit d \<and>
            digitVal a * 100 + digitVal b * 10 + digitVal d < 256
         then char_of (digitVal a * 100 + digitVal b * 10 + digitVal d) # unescape cs
         else a # unescape (b # d # cs))
      else c # unescape (a # b # d # cs))"
| "unescape (c # a # cs) = (if c = CHR 0x5C then a # unescape cs else c # unescape (a # cs))"
| "unescape s = s"

definition norm :: "string \<Rightarrow> string" where
  "norm name = toLower (unescape name)"

definition classOf :: "string \<Rightarrow> string option" where
  "classOf name = classOfLabels (splitOn CHR ''.'' (trimSuffix (norm name) ''.''))"

definition fq :: "string list \<Rightarrow> string" where
  "fq parts = joinWith ''.'' parts @ ''.''"

definition enumerateName :: string where
  "enumerateName = ''_services._dns-sd._udp.local.''"

section \<open>Validation\<close>

definition alnum :: "char \<Rightarrow> bool" where
  "alnum c = (isLowerLetter c \<or> isDigit c)"

definition alnumDash :: "char \<Rightarrow> bool" where
  "alnumDash c = (alnum c \<or> c = CHR ''-'')"

definition classWord :: "nat \<Rightarrow> string \<Rightarrow> bool" where
  "classWord most s = (s \<noteq> [] \<and> length s \<le> most \<and> alnum (hd s) \<and> list_all alnumDash s)"

definition serviceRE :: "string \<Rightarrow> bool" where
  "serviceRE s = (hasPrefix s ''_'' \<and> (hasSuffix s ''._tcp'' \<or> hasSuffix s ''._udp'') \<and>
     classWord 15 (take (length s - 6) (tl s)))"

definition hostRE :: "string \<Rightarrow> bool" where
  "hostRE s = (classWord 63 s \<and> alnum (last s))"

definition subtypeRE :: "string \<Rightarrow> bool" where
  "subtypeRE s = (hasPrefix s ''_'' \<and> classWord 63 (tl s))"

definition cutDash :: "string \<Rightarrow> (string \<times> string) option" where
  "cutDash s = (if CHR ''-'' \<in> set s
     then Some (takeWhile (\<lambda>c. c \<noteq> CHR ''-'') s, tl (dropWhile (\<lambda>c. c \<noteq> CHR ''-'') s)) else None)"

definition portRange :: "natConfig \<Rightarrow> (int \<times> int) result" where
  "portRange n = (case cutDash (ncPorts n) of
       None \<Rightarrow> Fail ''ports must look like 20000-20999''
     | Some (a, b) \<Rightarrow> (case (atoi a, atoi b) of
           (Some lo, Some hi) \<Rightarrow>
             if lo < 1024 \<or> hi > 65535 \<or> hi < lo \<or> hi - lo > 4095
             then Fail ''ports must be 1024..65535, at most 4096 of them'' else Inr (lo, hi)
         | _ \<Rightarrow> Fail ''ports must be 1024..65535, at most 4096 of them''))"

definition validateNAT :: "natConfig \<Rightarrow> unit result" where
  "validateNAT n =
     bindR (refuse (ncServices n = [] \<or> length (ncServices n) > 32) ''nat needs 1..32 services'') (\<lambda>_.
     bindR (refuse (\<not> list_all serviceRE (ncServices n)) ''nat: not a service class like _ipp._tcp'') (\<lambda>_.
     bindR (portRange n) (\<lambda>_. Inr ())))"

definition hasPattern :: "string \<Rightarrow> bool" where
  "hasPattern s = containsAny s ''*?[''"

definition badInterface :: "string \<Rightarrow> bool" where
  "badInterface n = (n = [] \<or> length n > 15 \<or> containsAny n '' /'')"

text \<open>One relay rule, given the pools of the interfaces published on and the pairs seen so far.\<close>

type_synonym rulesSeen = "(string \<times> string) list \<times> (string \<times> string) list"

definition validateRule :: "rulesSeen \<Rightarrow> reflectRule \<Rightarrow> rulesSeen result" where
  "validateRule acc r = (case acc of (pools, pairs) \<Rightarrow>
     bindR (eachR (\<lambda>n.
       bindR (refuse (badInterface n) ''mdns: bad reflect interface'') (\<lambda>_.
       refuse (hasPattern n \<and> pathMatch n [] = None) ''mdns: bad reflect interface pattern'')) [rfFrom r, rfTo r]) (\<lambda>_.
     bindR (refuse (rfFrom r = rfTo r) ''mdns: reflect exports a domain to itself'') (\<lambda>_.
     bindR (refuse ((rfFrom r, rfTo r) \<in> set pairs) ''mdns: two reflect rules'') (\<lambda>_.
     bindR (refuse ((rfAllow r = []) = (rfAdvertise r = None))
       ''mdns: needs exactly one of allow_services and advertise'') (\<lambda>_.
     bindR (refuse (length (rfAllow r) > 32) ''mdns: more than 32 allow_services'') (\<lambda>_.
     bindR (refuse (\<not> list_all (\<lambda>s. s = ''*'' \<or> serviceRE s) (rfAllow r)) ''mdns: not a service class like _ipp._tcp'') (\<lambda>_.
     bindR (refuse (''*'' \<in> set (rfAllow r) \<and> length (rfAllow r) > 1) ''mdns: * beside other classes'') (\<lambda>_.
     case rfAdvertise r of
       None \<Rightarrow> Inr (pools, (rfFrom r, rfTo r) # pairs)
     | Some n \<Rightarrow>
         bindR (validateNAT n) (\<lambda>_.
         bindR (refuse (case map_of pools (rfTo r) of Some prev \<Rightarrow> prev \<noteq> ncPorts n | None \<Rightarrow> False)
           ''mdns: one interface's pool has one range'') (\<lambda>_.
         Inr (assocPut (rfTo r) (ncPorts n) pools, (rfFrom r, rfTo r) # pairs)))))))))))"

definition validateReflect :: "mdnsConfig \<Rightarrow> unit result" where
  "validateReflect c =
     bindR (refuse (length (mcReflect c) > 32) ''mdns: at most 32 reflect rules'') (\<lambda>_.
     bindR (foldR validateRule ([], []) (mcReflect c)) (\<lambda>_. Inr ()))"

definition validateRecord :: "string list \<Rightarrow> mdnsRecord \<Rightarrow> string list result" where
  "validateRecord seen r =
     (let key = toLower (mrInstance r @ ''.'' @ mrService r)
      in bindR (refuse (\<not> serviceRE (mrService r)) ''mdns: not a service like _smb._tcp'') (\<lambda>_.
         bindR (refuse (mrInstance r = [] \<or> length (mrInstance r) > 63 \<or>
             containsAny (mrInstance r) [CHR 0x00, CHR 0x0D, CHR 0x0A, CHR ''.''])
           ''mdns: instance name must be 1..63 bytes without dots'') (\<lambda>_.
         bindR (refuse (mrHost r \<noteq> [] \<and> \<not> hostRE (mrHost r)) ''mdns: host must be one lower-case DNS label'') (\<lambda>_.
         bindR (refuse (mrPort r = 0 \<and> mrService r \<noteq> ''_adisk._tcp'' \<and> mrService r \<noteq> ''_device-info._tcp'')
           ''mdns: needs a port'') (\<lambda>_.
         bindR (refuse (key \<in> set seen) ''mdns: duplicate'') (\<lambda>_.
         bindR (refuse (\<not> list_all (\<lambda>t. length t \<le> 255) (mrTXT r)) ''mdns: TXT string over 255 bytes'') (\<lambda>_.
         bindR (refuse (sum_list (map (\<lambda>t. length t + 1) (mrTXT r)) > 1300) ''mdns: TXT record too large'') (\<lambda>_.
         bindR (refuse (\<not> list_all subtypeRE (mrSubtypes r)) ''mdns: bad subtype'') (\<lambda>_.
         Inr (key # seen))))))))))"

definition emptyMdns :: "mdnsConfig \<Rightarrow> bool" where
  "emptyMdns c = (mcRecords c = [] \<and> mcReflect c = [])"

definition validateMdns :: "mdnsConfig \<Rightarrow> unit result" where
  "validateMdns c =
     (if emptyMdns c then Inr ()
      else bindR (validateReflect c) (\<lambda>_.
      if mcRecords c = [] then Inr ()
      else bindR (refuse (mcInterfaces c = [] \<or> length (mcInterfaces c) > 16) ''mdns: name 1..16 interfaces'') (\<lambda>_.
           bindR (eachR (\<lambda>i. bindR (refuse (badInterface i) ''mdns: bad interface'') (\<lambda>_.
             refuse (hasPattern i) ''mdns: advertised interface must be named, not a pattern'')) (mcInterfaces c)) (\<lambda>_.
           bindR (refuse (\<not> hostRE (mcHost c)) ''mdns: host must be one lower-case DNS label'') (\<lambda>_.
           bindR (refuse (length (mcRecords c) > 64) ''mdns: at most 64 records'') (\<lambda>_.
           bindR (foldR validateRecord [] (mcRecords c)) (\<lambda>_. Inr ())))))))"

definition parseMdns :: "bytes \<Rightarrow> mdnsConfig result" where
  "parseMdns raw =
     (if (case raw of NoBytes \<Rightarrow> True | Text s \<Rightarrow> trimSpace s = [] | Json _ \<Rightarrow> False) then Inr zeroMdns
      else bindR (unmarshal raw) (\<lambda>j.
           bindR (decMdns zeroMdns j) (\<lambda>c.
           bindR (validateMdns c) (\<lambda>_. Inr c))))"

lemmas mdns_config_defs [go_defs] =
  zeroNAT_def zeroRule_def zeroRecord_def zeroMdns_def decNAT_def decRule_def decRecord_def
  decMdns_def norm_def classOf_def fq_def enumerateName_def alnum_def alnumDash_def classWord_def
  serviceRE_def hostRE_def subtypeRE_def cutDash_def portRange_def validateNAT_def hasPattern_def
  badInterface_def validateRule_def validateReflect_def validateRecord_def emptyMdns_def
  validateMdns_def parseMdns_def

section \<open>What validation gives\<close>

text \<open>A rule names two different endpoints, and relays or translates, never both.\<close>

definition ruleOk :: "reflectRule \<Rightarrow> bool" where
  "ruleOk r \<longleftrightarrow> rfFrom r \<noteq> rfTo r \<and> (rfAllow r = []) \<noteq> (rfAdvertise r = None) \<and>
     (\<forall>n. rfAdvertise r = Some n \<longrightarrow> (\<exists>lo hi. portRange n = Inr (lo, hi)))"

lemma portRange_bounds:
  "portRange n = Inr (lo, hi) \<Longrightarrow> 1024 \<le> lo \<and> lo \<le> hi \<and> hi \<le> 65535 \<and> hi - lo \<le> 4095"
  by (auto simp: portRange_def split: option.splits prod.splits if_splits)

lemma validateRule_ok: "validateRule acc r = Inr acc' \<Longrightarrow> ruleOk r"
  by (auto simp: validateRule_def ruleOk_def bindR_Inr validateNAT_def split: prod.splits option.splits)

lemma foldR_each: "foldR f acc xs = Inr r \<Longrightarrow> (\<And>a x b. f a x = Inr b \<Longrightarrow> P x) \<Longrightarrow> list_all P xs"
  by (induction xs arbitrary: acc) (auto simp: bindR_Inr)

lemma validateMdns_rules: "validateMdns c = Inr () \<Longrightarrow> list_all ruleOk (mcReflect c)"
  by (auto simp: validateMdns_def validateReflect_def emptyMdns_def bindR_Inr
      dest!: foldR_each [where P = ruleOk] validateRule_ok split: if_splits)

end
