(* ===== verification/Mdns_Reflect.thy ===== *)
theory Mdns_Reflect
  imports Mdns_Config "HOL-Library.Product_Lexorder"
begin

text \<open>
  The directed mDNS relay (\<^verbatim>\<open>internal/mdns/reflect.go\<close>): the filter of one pair of domains, sets of
  service classes, and the plan that composes the relay rules into pairs.
\<close>

section \<open>Filters\<close>

record relayFilter =
  fAllow :: "string set"
  fAll :: bool
  fHosts :: grants

definition newFilter :: "string list \<Rightarrow> relayFilter" where
  "newFilter services = \<lparr>fAllow = set (map toLower (filter (\<lambda>s. s \<noteq> ''*'') services)),
     fAll = (''*'' \<in> set services), fHosts = []\<rparr>"

definition allowedName :: "relayFilter \<Rightarrow> string \<Rightarrow> bool" where
  "allowedName f name = (case classOf name of Some c \<Rightarrow> fAll f \<or> c \<in> fAllow f | None \<Rightarrow> False)"

definition enumeration :: "question \<Rightarrow> bool" where
  "enumeration q = (qType q = TypePTR \<and> norm (qName q) = enumerateName)"

definition enumerable :: "relayFilter \<Rightarrow> rr \<Rightarrow> bool" where
  "enumerable f r = (rrType r = TypePTR \<and> norm (rrName r) = enumerateName \<and>
     (case rrData r of RPTR p \<Rightarrow> allowedName f p | _ \<Rightarrow> False))"

definition filterGrant :: "int \<Rightarrow> string \<Rightarrow> relayFilter \<Rightarrow> relayFilter" where
  "filterGrant now host f = f\<lparr>fHosts := putGrant now (norm host) (fHosts f)\<rparr>"

definition filterGranted :: "int \<Rightarrow> string \<Rightarrow> relayFilter \<Rightarrow> bool" where
  "filterGranted now host f = hasGrant now (norm host) (fHosts f)"

definition mayAsk :: "relayFilter \<Rightarrow> int \<Rightarrow> question \<Rightarrow> bool" where
  "mayAsk f now q = (allowedName f (qName q) \<or> enumeration q \<or>
     qType q \<in> {TypeA, TypeAAAA, TypeANY} \<and> filterGranted now (qName q) f)"

definition Queries :: "relayFilter \<Rightarrow> int \<Rightarrow> msg \<Rightarrow> msg option" where
  "Queries f now m =
     (let qs = filter (mayAsk f now) (mQuestion m)
      in if qs = [] then None
         else Some (newMsg\<lparr>mId := mId m, mQuestion := qs,
           mAnswer := filter (\<lambda>k. allowedName f (rrName k) \<or> enumerable f k) (mAnswer m)\<rparr>))"

definition learnHosts :: "int \<Rightarrow> rr list \<Rightarrow> relayFilter \<Rightarrow> relayFilter" where
  "learnHosts now rrs f = foldl (\<lambda>f r. case rrData r of
       RSRV _ target \<Rightarrow> if allowedName f (rrName r) then filterGrant now target f else f
     | _ \<Rightarrow> f) f rrs"

definition maySee :: "relayFilter \<Rightarrow> int \<Rightarrow> rr \<Rightarrow> bool" where
  "maySee f now r =
     (if rrType r = TypePTR then allowedName f (rrName r) \<or> enumerable f r
      else if rrType r = TypeSRV \<or> rrType r = TypeTXT then allowedName f (rrName r)
      else if rrType r = TypeA \<or> rrType r = TypeAAAA then filterGranted now (rrName r) f
      else False)"

definition Responses :: "int \<Rightarrow> msg \<Rightarrow> relayFilter \<Rightarrow> msg option \<times> relayFilter" where
  "Responses now m f =
     (let f' = learnHosts now (mAnswer m @ mExtra m) f;
          answer = filter (maySee f' now) (mAnswer m);
          extra = filter (maySee f' now) (mExtra m)
      in (if answer = [] \<and> extra = [] then None
          else Some (newMsg\<lparr>mResponse := True, mAuthoritative := True, mAnswer := answer, mExtra := extra\<rparr>), f'))"

section \<open>Class sets\<close>

record classSet =
  csAll :: bool
  csSet :: "string set"

definition classesOf :: "string list \<Rightarrow> classSet" where
  "classesOf services = \<lparr>csAll = (''*'' \<in> set services),
     csSet = set (map toLower (filter (\<lambda>s. s \<noteq> ''*'') services))\<rparr>"

definition csEmpty :: "classSet \<Rightarrow> bool" where
  "csEmpty c = (\<not> csAll c \<and> csSet c = {})"

definition csIntersect :: "classSet \<Rightarrow> classSet \<Rightarrow> classSet" where
  "csIntersect c d = (if csAll d then c else if csAll c then d else \<lparr>csAll = False, csSet = csSet c \<inter> csSet d\<rparr>)"

definition csUnion :: "classSet \<Rightarrow> classSet \<Rightarrow> classSet" where
  "csUnion c d = (if csAll c \<or> csAll d then \<lparr>csAll = True, csSet = {}\<rparr>
     else \<lparr>csAll = False, csSet = csSet c \<union> csSet d\<rparr>)"

definition csEqual :: "classSet \<Rightarrow> classSet \<Rightarrow> bool" where
  "csEqual c d = (csAll c = csAll d \<and> csSet c = csSet d)"

definition csServices :: "classSet \<Rightarrow> string list" where
  "csServices c = (if csAll c then [''*''] else sorted_list_of_set (csSet c))"

section \<open>Planning\<close>

record relaying =
  rlCfg :: reflectRule
  rlFrom :: int
  rlTo :: int

record relay =
  rpFrom :: int
  rpTo :: int
  rpFilter :: relayFilter

type_synonym reach = "(int \<times> classSet) list \<times> int list"

definition push :: "int \<Rightarrow> classSet \<Rightarrow> reach \<Rightarrow> reach" where
  "push target cs st = (case st of (best, queue) \<Rightarrow>
     if csEmpty cs then st
     else case map_of best target of
            None \<Rightarrow> (assocPut target cs best, queue @ [target])
          | Some prev \<Rightarrow>
              let merged = csUnion prev cs
              in if csEqual prev merged then st else (assocPut target merged best, queue @ [target]))"

definition bestAt :: "reach \<Rightarrow> int \<Rightarrow> classSet" where
  "bestAt st via = (case map_of (fst st) via of Some cs \<Rightarrow> cs | None \<Rightarrow> \<lparr>csAll = False, csSet = {}\<rparr>)"

definition edgesFrom :: "relaying list \<Rightarrow> int \<Rightarrow> relaying list" where
  "edgesFrom rules via = filter (\<lambda>e. rlFrom e = via) rules"

definition edgeClasses :: "relaying \<Rightarrow> classSet" where
  "edgeClasses e = classesOf (rfAllow (rlCfg e))"

definition expand :: "relaying list \<Rightarrow> int \<Rightarrow> reach \<Rightarrow> reach" where
  "expand rules via st =
     foldl (\<lambda>st e. push (rlTo e) (csIntersect (bestAt st via) (edgeClasses e)) st) st (edgesFrom rules via)"

text \<open>
  The loop over the queue.  A round takes one entry off, and an entry is only added when a pair
  strictly improves, so \<open>walkFuel\<close> rounds are enough (\<open>walk_ends\<close> in \<open>Mdns_Reflect_Facts\<close>).
\<close>

fun walk :: "nat \<Rightarrow> relaying list \<Rightarrow> reach \<Rightarrow> reach" where
  "walk n rules (best, []) = (best, [])"
| "walk 0 rules (best, via # queue) = (best, via # queue)"
| "walk (Suc n) rules (best, via # queue) = walk n rules (expand rules via (best, queue))"

definition walkFuel :: "relaying list \<Rightarrow> nat" where
  "walkFuel rules = length rules * (length (concat (map (\<lambda>e. rfAllow (rlCfg e)) rules)) + 3)"

definition seedReach :: "relaying list \<Rightarrow> int \<Rightarrow> reach" where
  "seedReach rules source =
     foldl (\<lambda>st e. push (rlTo e) (edgeClasses e) st) ([], []) (edgesFrom rules source)"

definition planSource :: "relaying list \<Rightarrow> int \<Rightarrow> relay list" where
  "planSource rules source =
     map (\<lambda>(target, cs). \<lparr>rpFrom = source, rpTo = target, rpFilter = newFilter (csServices cs)\<rparr>)
       (filter (\<lambda>(target, _). target \<noteq> source) (fst (walk (walkFuel rules) rules (seedReach rules source))))"

definition planRelays :: "relaying list \<Rightarrow> relay list" where
  "planRelays rules = sort_key (\<lambda>r. (rpFrom r, rpTo r))
     (concat (map (planSource rules) (remdups (map rlFrom rules))))"

section \<open>Relaying a packet\<close>

text \<open>
  \<^verbatim>\<open>running.reflect\<close>: a response goes out through every pair that starts where it was heard, a
  question back through every pair that ends there.  The result is what is forwarded, with the
  interface it goes out on, and the pairs with what their filters learned.
\<close>

fun reflectMsg :: "int \<Rightarrow> msg \<Rightarrow> int \<Rightarrow> relay list \<Rightarrow> (int \<times> msg) list \<times> relay list" where
  "reflectMsg now m i [] = ([], [])"
| "reflectMsg now m i (p # ps) = (case reflectMsg now m i ps of (sent, ps') \<Rightarrow>
     if mResponse m then
       (if rpFrom p = i then
          (case Responses now m (rpFilter p) of (out, f) \<Rightarrow>
             ((case out of Some r \<Rightarrow> [(rpTo p, r)] | None \<Rightarrow> []) @ sent, p\<lparr>rpFilter := f\<rparr> # ps'))
        else (sent, p # ps'))
     else
       (if rpTo p = i then
          ((case Queries (rpFilter p) now m of Some q \<Rightarrow> [(rpFrom p, q)] | None \<Rightarrow> []) @ sent, p # ps')
        else (sent, p # ps')))"

lemmas reflect_defs [go_defs] =
  newFilter_def allowedName_def enumeration_def enumerable_def filterGrant_def filterGranted_def
  mayAsk_def Queries_def learnHosts_def maySee_def Responses_def classesOf_def csEmpty_def
  csIntersect_def csUnion_def csEqual_def csServices_def push_def bestAt_def edgesFrom_def
  edgeClasses_def expand_def walkFuel_def seedReach_def planSource_def planRelays_def

end
