(* ===== verification/Mdns_Reflect_Facts.thy ===== *)
theory Mdns_Reflect_Facts
  imports Mdns_Reflect
begin

text \<open>
  The plan is the reachability relation of the rules: the walk from a source ends within its fuel,
  and the class set it leaves for a domain holds exactly the classes that some chain of rules from
  the source to that domain allows throughout.
\<close>

section \<open>Class sets\<close>

definition allows :: "classSet \<Rightarrow> string \<Rightarrow> bool" where
  "allows cs c \<longleftrightarrow> csAll cs \<or> c \<in> csSet cs"

lemma allows_simps [simp]:
  "allows (csIntersect a b) c \<longleftrightarrow> allows a c \<and> allows b c"
  "allows (csUnion a b) c \<longleftrightarrow> allows a c \<or> allows b c"
  "csEmpty a \<Longrightarrow> \<not> allows a c"
  "\<not> allows \<lparr>csAll = False, csSet = {}\<rparr> c"
  by (auto simp: allows_def csIntersect_def csUnion_def csEmpty_def)

text \<open>Chains of rules that all allow a class.\<close>

inductive carries :: "relaying list \<Rightarrow> string \<Rightarrow> int \<Rightarrow> int \<Rightarrow> bool" for rules c where
  direct: "e \<in> set rules \<Longrightarrow> allows (edgeClasses e) c \<Longrightarrow> carries rules c (rlFrom e) (rlTo e)"
| onward: "carries rules c a (rlFrom e) \<Longrightarrow> e \<in> set rules \<Longrightarrow> allows (edgeClasses e) c \<Longrightarrow>
    carries rules c a (rlTo e)"

inductive_cases carriesE: "carries rules c a b"

section \<open>One push\<close>

text \<open>What a state says about a domain and a class.\<close>

definition says :: "reach \<Rightarrow> int \<Rightarrow> string \<Rightarrow> bool" where
  "says st v c \<longleftrightarrow> allows (bestAt st v) c"

lemma push_says: "says (push target cs st) v c \<longleftrightarrow> says st v c \<or> v = target \<and> allows cs c"
proof -
  obtain best queue where st: "st = (best, queue)" by force
  show ?thesis
  proof (cases "map_of best target")
    case None
    then show ?thesis by (auto simp: st push_def says_def bestAt_def)
  next
    case (Some prev)
    have "allows prev c \<longleftrightarrow> allows prev c \<or> allows cs c" if "csEqual prev (csUnion prev cs)"
      using that allows_simps(2) [of prev cs c] by (auto simp: csEqual_def allows_def)
    then show ?thesis using Some by (auto simp: st push_def says_def bestAt_def Let_def)
  qed
qed

lemma push_queue: "set (snd st) \<subseteq> set (snd (push target cs st))"
  by (auto simp: push_def Let_def split: prod.splits option.splits)

lemma push_keeps:
  "v \<notin> set (snd (push target cs st)) \<Longrightarrow> map_of (fst (push target cs st)) v = map_of (fst st) v"
  by (auto simp: push_def Let_def split: prod.splits option.splits if_splits)

lemma push_unchanged:
  "v \<notin> set (snd (push target cs st)) \<Longrightarrow> says (push target cs st) v c = says st v c"
  using push_keeps [of v target cs st] by (simp add: says_def bestAt_def)

section \<open>Rounds\<close>

text \<open>Soundness: whatever a state says of a domain, a chain of rules carries there.\<close>

definition sound :: "relaying list \<Rightarrow> int \<Rightarrow> reach \<Rightarrow> bool" where
  "sound rules source st \<longleftrightarrow> (\<forall>v c. says st v c \<longrightarrow> carries rules c source v)"

lemma sound_push:
  assumes "sound rules source st" "\<And>c. allows cs c \<Longrightarrow> carries rules c source target"
  shows "sound rules source (push target cs st)"
  using assms by (auto simp: sound_def push_says)

lemma sound_seed: "sound rules source (seedReach rules source)"
proof -
  have "set es \<subseteq> {e \<in> set rules. rlFrom e = source} \<Longrightarrow> sound rules source st \<Longrightarrow>
      sound rules source (foldl (\<lambda>st e. push (rlTo e) (edgeClasses e) st) st es)" for es st
  proof (induction es arbitrary: st)
    case (Cons e es)
    have "sound rules source (push (rlTo e) (edgeClasses e) st)"
      using Cons.prems by (intro sound_push) (auto intro: carries.direct)
    then show ?case using Cons by simp
  qed simp
  moreover have "sound rules source ([], [])" by (simp add: sound_def says_def bestAt_def)
  ultimately show ?thesis unfolding seedReach_def edgesFrom_def by simp
qed

lemma sound_expand:
  assumes "sound rules source st"
  shows "sound rules source (expand rules via st)"
proof -
  have "set es \<subseteq> {e \<in> set rules. rlFrom e = via} \<Longrightarrow> sound rules source st \<Longrightarrow>
      sound rules source (foldl (\<lambda>st e. push (rlTo e) (csIntersect (bestAt st via) (edgeClasses e)) st) st es)" for es st
  proof (induction es arbitrary: st)
    case (Cons e es)
    have "sound rules source (push (rlTo e) (csIntersect (bestAt st via) (edgeClasses e)) st)"
      using Cons.prems by (intro sound_push) (auto simp: sound_def says_def intro: carries.onward)
    then show ?case using Cons by simp
  qed simp
  then show ?thesis using assms unfolding expand_def edgesFrom_def by simp
qed

lemma sound_queue: "sound rules source (best, q) = sound rules source (best, q')"
  by (simp add: sound_def says_def bestAt_def)

section \<open>Completeness\<close>

text \<open>A domain that is not queued has passed on what it has.\<close>

definition passedOn :: "relaying list \<Rightarrow> reach \<Rightarrow> int \<Rightarrow> bool" where
  "passedOn rules st v \<longleftrightarrow> (\<forall>e \<in> set rules. rlFrom e = v \<longrightarrow>
     (\<forall>c. says st v c \<and> allows (edgeClasses e) c \<longrightarrow> says st (rlTo e) c))"

definition settled :: "relaying list \<Rightarrow> int \<Rightarrow> reach \<Rightarrow> bool" where
  "settled rules source st \<longleftrightarrow>
     (\<forall>v. v \<notin> set (snd st) \<longrightarrow> passedOn rules st v) \<and>
     (\<forall>e \<in> set rules. rlFrom e = source \<longrightarrow> (\<forall>c. allows (edgeClasses e) c \<longrightarrow> says st (rlTo e) c))"

text \<open>The pushes for the first edges of a domain, the others still to do.\<close>

lemma expand_closes:
  assumes "\<forall>v. v \<noteq> via \<longrightarrow> v \<notin> set (snd st) \<longrightarrow> passedOn rules st v"
    and "st' = foldl (\<lambda>st e. push (rlTo e) (csIntersect (bestAt st via) (edgeClasses e)) st) st es"
  shows "(\<forall>v. v \<noteq> via \<longrightarrow> v \<notin> set (snd st') \<longrightarrow> passedOn rules st' v) \<and>
    (via \<notin> set (snd st') \<longrightarrow> (\<forall>c. says st' via c = says st via c) \<and>
      (\<forall>e \<in> set es. \<forall>c. says st' via c \<and> allows (edgeClasses e) c \<longrightarrow> says st' (rlTo e) c)) \<and>
    (\<forall>u c. says st u c \<longrightarrow> says st' u c) \<and> set (snd st) \<subseteq> set (snd st')"
  using assms
proof (induction es arbitrary: st)
  case Nil
  then show ?case by simp
next
  case (Cons x es)
  let ?st = "push (rlTo x) (csIntersect (bestAt st via) (edgeClasses x)) st"
  have pass: "passedOn rules ?st v" if "v \<noteq> via" "v \<notin> set (snd ?st)" for v
    using that Cons.prems(1) push_queue [of st] push_unchanged [OF that(2)]
    unfolding passedOn_def by (metis push_says subsetD)
  have ih: "(\<forall>v. v \<noteq> via \<longrightarrow> v \<notin> set (snd st') \<longrightarrow> passedOn rules st' v) \<and>
    (via \<notin> set (snd st') \<longrightarrow> (\<forall>c. says st' via c = says ?st via c) \<and>
      (\<forall>e \<in> set es. \<forall>c. says st' via c \<and> allows (edgeClasses e) c \<longrightarrow> says st' (rlTo e) c)) \<and>
    (\<forall>u c. says ?st u c \<longrightarrow> says st' u c) \<and> set (snd ?st) \<subseteq> set (snd st')"
    using Cons.IH [of ?st] Cons.prems(2) pass by simp
  have grow: "says st u c \<Longrightarrow> says st' u c" for u c using ih by (simp add: push_says)
  have queue: "set (snd st) \<subseteq> set (snd st')" using ih push_queue [of st] by blast
  have "(\<forall>c. says st' via c = says st via c) \<and>
      (\<forall>e \<in> set (x # es). \<forall>c. says st' via c \<and> allows (edgeClasses e) c \<longrightarrow> says st' (rlTo e) c)"
    if "via \<notin> set (snd st')"
  proof -
    have "via \<notin> set (snd ?st)" using that ih by blast
    then have via: "says st' via c = says st via c" for c using ih that push_unchanged by simp
    have "says st' (rlTo x) c" if "says st via c" "allows (edgeClasses x) c" for c
    proof -
      have "says ?st (rlTo x) c" using that unfolding push_says by (simp add: says_def)
      then show ?thesis using ih by blast
    qed
    then show ?thesis using via ih that by auto
  qed
  then show ?case using ih grow queue by blast
qed

lemma settled_expand:
  assumes "settled rules source (best, via # queue)"
  shows "settled rules source (expand rules via (best, queue))"
proof -
  let ?st = "(best, queue)"
  have same: "says ?st v c = says (best, via # queue) v c" for v c by (simp add: says_def bestAt_def)
  have "passedOn rules ?st v" if "v \<noteq> via" "v \<notin> set (snd ?st)" for v
    using assms that unfolding settled_def passedOn_def same by simp
  note * = expand_closes [where st = ?st and es = "edgesFrom rules via" and rules = rules and via = via,
      OF _ refl, folded expand_def]
  have "passedOn rules (expand rules via ?st) via" if "via \<notin> set (snd (expand rules via ?st))"
    using * that \<open>\<And>v. v \<noteq> via \<Longrightarrow> v \<notin> set (snd ?st) \<Longrightarrow> passedOn rules ?st v\<close>
    by (auto simp: passedOn_def edgesFrom_def)
  then show ?thesis
    using * assms \<open>\<And>v. v \<noteq> via \<Longrightarrow> v \<notin> set (snd ?st) \<Longrightarrow> passedOn rules ?st v\<close>
    unfolding settled_def same [symmetric] by (metis (no_types, lifting))
qed

lemma settled_seed: "settled rules source (seedReach rules source)"
proof -
  have "(\<forall>v. v \<notin> set (snd st) \<longrightarrow> \<not> (\<exists>c. says st v c)) \<Longrightarrow>
    st' = foldl (\<lambda>st e. push (rlTo e) (edgeClasses e) st) st es \<Longrightarrow>
    (\<forall>v. v \<notin> set (snd st') \<longrightarrow> \<not> (\<exists>c. says st' v c)) \<and> (\<forall>u c. says st u c \<longrightarrow> says st' u c) \<and>
    (\<forall>e \<in> set es. \<forall>c. allows (edgeClasses e) c \<longrightarrow> says st' (rlTo e) c)" for st st' es
  proof (induction es arbitrary: st)
    case (Cons e es)
    let ?st = "push (rlTo e) (edgeClasses e) st"
    have "\<forall>v. v \<notin> set (snd ?st) \<longrightarrow> \<not> (\<exists>c. says ?st v c)"
      using Cons.prems(1) push_queue [of st] push_unchanged by (metis subsetD)
    then show ?case using Cons.IH [of ?st] Cons.prems(2) by (auto simp: push_says)
  qed simp
  from this [of "([], [])" "seedReach rules source" "edgesFrom rules source"]
  show ?thesis by (auto simp: settled_def passedOn_def seedReach_def edgesFrom_def says_def bestAt_def)
qed

section \<open>The walk\<close>

lemma walk_inv:
  assumes "sound rules source st" "settled rules source st"
  shows "sound rules source (walk n rules st) \<and> settled rules source (walk n rules st)"
  using assms
proof (induction n rules st rule: walk.induct)
  case (3 n rules best via queue)
  have "sound rules source (expand rules via (best, queue))"
    using 3 sound_expand sound_queue by blast
  then show ?case using 3 settled_expand by simp
qed auto

text \<open>When the queue is empty the walk says exactly what chains of rules carry.\<close>

lemma settled_complete:
  assumes "carries rules c source v" "settled rules source (best, [])"
  shows "says (best, []) v c"
  using assms
proof (induction source v rule: carries.induct)
  case (direct e)
  then show ?case by (auto simp: settled_def)
next
  case (onward a e)
  then show ?case by (auto simp: settled_def passedOn_def)
qed

subsection \<open>Termination\<close>

text \<open>
  The rank of a class set grows with every strict improvement: by a class, by becoming the set of
  all classes, or by forgetting the classes listed beside all.
\<close>

definition universe :: "relaying list \<Rightarrow> string set" where
  "universe rules = (\<Union>e \<in> set rules. csSet (edgeClasses e))"

definition rank :: "nat \<Rightarrow> classSet option \<Rightarrow> nat" where
  "rank n x = (case x of None \<Rightarrow> 0
     | Some cs \<Rightarrow> 1 + (if csAll cs then n + 1 + (if csSet cs = {} then 1 else 0) else card (csSet cs)))"

definition within :: "string set \<Rightarrow> reach \<Rightarrow> bool" where
  "within U st \<longleftrightarrow> (\<forall>v cs. map_of (fst st) v = Some cs \<longrightarrow> csSet cs \<subseteq> U)"

definition budget :: "relaying list \<Rightarrow> reach \<Rightarrow> nat" where
  "budget rules st = (\<Sum>v \<in> rlTo ` set rules. card (universe rules) + 3 - rank (card (universe rules)) (map_of (fst st) v)) +
     length (snd st)"

lemma finite_universe [simp]: "finite (universe rules)"
  by (auto simp: universe_def edgeClasses_def classesOf_def)

lemma rank_grows:
  assumes "csSet prev \<subseteq> U" "csSet cs \<subseteq> U" "finite U" "\<not> csEqual prev (csUnion prev cs)"
  shows "rank (card U) (Some prev) < rank (card U) (Some (csUnion prev cs))"
    "rank (card U) (Some (csUnion prev cs)) \<le> card U + 3"
proof -
  have le: "card (csSet prev) \<le> card U" "card (csSet prev \<union> csSet cs) \<le> card U"
    using assms by (auto intro: card_mono)
  show "rank (card U) (Some (csUnion prev cs)) \<le> card U + 3"
    using le by (simp add: rank_def csUnion_def)
  show "rank (card U) (Some prev) < rank (card U) (Some (csUnion prev cs))"
  proof (cases "csAll prev \<or> csAll cs")
    case True
    then show ?thesis using le assms(4) by (auto simp: rank_def csUnion_def csEqual_def)
  next
    case False
    then have "csSet prev \<subset> csSet prev \<union> csSet cs" using assms(4) by (auto simp: csUnion_def csEqual_def)
    then have "card (csSet prev) < card (csSet prev \<union> csSet cs)"
      using assms by (intro psubset_card_mono) (auto intro: finite_subset)
    then show ?thesis using False by (simp add: rank_def csUnion_def)
  qed
qed

lemma rank_first:
  "csSet cs \<subseteq> U \<Longrightarrow> finite U \<Longrightarrow> rank (card U) (Some cs) \<le> card U + 3"
  "rank n None < rank n (Some cs)"
  using card_mono [of U "csSet cs"] by (auto simp: rank_def)

lemma budget_put:
  assumes "target \<in> rlTo ` set rules" "rank (card (universe rules)) (map_of best target) < rank (card (universe rules)) (Some cs)"
    "rank (card (universe rules)) (Some cs) \<le> card (universe rules) + 3"
  shows "budget rules (assocPut target cs best, queue @ [target]) \<le> budget rules (best, queue)"
proof -
  let ?f = "\<lambda>m v. card (universe rules) + 3 - rank (card (universe rules)) (map_of m v)"
  have "sum (?f (assocPut target cs best)) (rlTo ` set rules) < sum (?f best) (rlTo ` set rules)"
  proof (rule sum_strict_mono_ex1)
    show "\<forall>v \<in> rlTo ` set rules. ?f (assocPut target cs best) v \<le> ?f best v" using assms by auto
    show "\<exists>v \<in> rlTo ` set rules. ?f (assocPut target cs best) v < ?f best v"
      using assms by (intro bexI [of _ target]) auto
  qed simp
  then show ?thesis by (simp add: budget_def)
qed

lemma push_budget:
  assumes "within (universe rules) st" "csSet cs \<subseteq> universe rules" "target \<in> rlTo ` set rules"
  shows "within (universe rules) (push target cs st) \<and> budget rules (push target cs st) \<le> budget rules st"
proof -
  obtain best queue where st: "st = (best, queue)" by force
  show ?thesis
  proof (cases "map_of best target")
    case None
    have "budget rules (assocPut target cs best, queue @ [target]) \<le> budget rules (best, queue)"
      by (rule budget_put) (use assms None rank_first(1) [of cs "universe rules"] rank_first(2) in auto)
    then show ?thesis using None assms by (auto simp: st push_def within_def)
  next
    case (Some prev)
    have prev: "csSet prev \<subseteq> universe rules" using assms(1) Some by (auto simp: st within_def)
    show ?thesis
    proof (cases "csEmpty cs \<or> csEqual prev (csUnion prev cs)")
      case True
      then show ?thesis using assms Some by (auto simp: st push_def)
    next
      case False
      have "budget rules (assocPut target (csUnion prev cs) best, queue @ [target]) \<le> budget rules (best, queue)"
        by (rule budget_put) (use assms Some False rank_grows [OF prev assms(2)] in auto)
      moreover have "csSet (csUnion prev cs) \<subseteq> universe rules" using prev assms(2) by (auto simp: csUnion_def)
      ultimately show ?thesis using Some False assms(1) by (auto simp: st push_def within_def)
    qed
  qed
qed

lemma expand_budget:
  assumes "within (universe rules) st"
  shows "within (universe rules) (expand rules via st) \<and> budget rules (expand rules via st) \<le> budget rules st"
proof -
  have "set es \<subseteq> set rules \<Longrightarrow> within (universe rules) st \<Longrightarrow>
      st' = foldl (\<lambda>st e. push (rlTo e) (csIntersect (bestAt st via) (edgeClasses e)) st) st es \<Longrightarrow>
      within (universe rules) st' \<and> budget rules st' \<le> budget rules st" for es st st'
  proof (induction es arbitrary: st)
    case (Cons e es)
    let ?cs = "csIntersect (bestAt st via) (edgeClasses e)"
    have "csSet (bestAt st via) \<subseteq> universe rules" using Cons.prems(2)
      by (auto simp: bestAt_def within_def split: option.splits)
    moreover have "csSet (edgeClasses e) \<subseteq> universe rules" using Cons.prems(1) by (auto simp: universe_def)
    ultimately have "csSet ?cs \<subseteq> universe rules" by (auto simp: csIntersect_def)
    then have "within (universe rules) (push (rlTo e) ?cs st) \<and> budget rules (push (rlTo e) ?cs st) \<le> budget rules st"
      using Cons.prems(1,2) by (intro push_budget) auto
    then show ?case using Cons.IH [of "push (rlTo e) ?cs st"] Cons.prems(1,3) by auto
  qed simp
  then show ?thesis using assms unfolding expand_def edgesFrom_def by auto
qed

lemma walk_ends:
  assumes "within (universe rules) st" "budget rules st \<le> n"
  shows "snd (walk n rules st) = []"
  using assms
proof (induction n rules st rule: walk.induct)
  case (2 rules best via queue)
  then show ?case by (simp add: budget_def)
next
  case (3 n rules best via queue)
  have "budget rules (best, queue) < budget rules (best, via # queue)" by (simp add: budget_def)
  moreover have "within (universe rules) (best, queue)" using 3 by (simp add: within_def)
  ultimately show ?case using 3 expand_budget [of rules "(best, queue)" via] by simp
qed simp

lemma seed_budget: "within (universe rules) (seedReach rules source) \<and> budget rules (seedReach rules source) \<le> walkFuel rules"
proof -
  have "set es \<subseteq> set rules \<Longrightarrow> within (universe rules) st \<Longrightarrow>
      st' = foldl (\<lambda>st e. push (rlTo e) (edgeClasses e) st) st es \<Longrightarrow>
      within (universe rules) st' \<and> budget rules st' \<le> budget rules st" for es st st'
  proof (induction es arbitrary: st)
    case (Cons e es)
    have "within (universe rules) (push (rlTo e) (edgeClasses e) st) \<and>
        budget rules (push (rlTo e) (edgeClasses e) st) \<le> budget rules st"
      using Cons.prems(1,2) by (intro push_budget) (auto simp: universe_def)
    then show ?case using Cons.IH [of "push (rlTo e) (edgeClasses e) st"] Cons.prems(1,3) by auto
  qed simp
  from this [of "edgesFrom rules source" "([], [])" "seedReach rules source"]
  have seed: "within (universe rules) (seedReach rules source)" "budget rules (seedReach rules source) \<le> budget rules ([], [])"
    by (auto simp: seedReach_def edgesFrom_def within_def)
  have "universe rules \<subseteq> toLower ` set (concat (map (\<lambda>e. rfAllow (rlCfg e)) rules))"
    by (auto simp: universe_def edgeClasses_def classesOf_def)
  then have "card (universe rules) \<le> card (toLower ` set (concat (map (\<lambda>e. rfAllow (rlCfg e)) rules)))"
    by (intro card_mono) auto
  also have "\<dots> \<le> length (concat (map (\<lambda>e. rfAllow (rlCfg e)) rules))"
    by (meson card_image_le card_length finite_set le_trans)
  finally have classes: "card (universe rules) + 3 \<le> length (concat (map (\<lambda>e. rfAllow (rlCfg e)) rules)) + 3" by simp
  have "card (rlTo ` set rules) \<le> length rules" by (meson card_image_le card_length finite_set le_trans)
  then have "budget rules ([], []) \<le> walkFuel rules"
    using classes by (simp add: budget_def rank_def walkFuel_def mult_le_mono del: length_concat)
  then show ?thesis using seed by simp
qed

subsection \<open>What a walk leaves\<close>

lemma walk_carries:
  "allows (bestAt (walk (walkFuel rules) rules (seedReach rules source)) v) c \<longleftrightarrow> carries rules c source v"
proof -
  obtain best where w: "walk (walkFuel rules) rules (seedReach rules source) = (best, [])"
    using walk_ends [of rules "seedReach rules source"] seed_budget by (metis prod.collapse)
  have "sound rules source (best, []) \<and> settled rules source (best, [])"
    using walk_inv [OF sound_seed settled_seed] by (metis w)
  then show ?thesis using settled_complete by (auto simp: w sound_def says_def)
qed

section \<open>The plan\<close>

lemma push_keys: "distinct (map fst (fst st)) \<Longrightarrow> distinct (map fst (fst (push target cs st)))"
  by (auto simp: push_def Let_def distinct_assocPut split: prod.splits option.splits)

lemma foldl_push_keys:
  "distinct (map fst (fst st)) \<Longrightarrow> distinct (map fst (fst (foldl (\<lambda>st e. push (f e) (g st e) st) st es)))"
  by (induction es arbitrary: st) (simp_all add: push_keys)

lemma walk_keys: "distinct (map fst (fst st)) \<Longrightarrow> distinct (map fst (fst (walk n rules st)))"
proof (induction n rules st rule: walk.induct)
  case (3 n rules best via queue)
  then show ?case
    using foldl_push_keys [of "(best, queue)" rlTo "\<lambda>st e. csIntersect (bestAt st via) (edgeClasses e)"]
    by (simp add: expand_def)
qed auto

lemma walk_within: "within (universe rules) st \<Longrightarrow> within (universe rules) (walk n rules st)"
proof (induction n rules st rule: walk.induct)
  case (3 n rules best via queue)
  then show ?case using expand_budget [of rules "(best, queue)" via] by (simp add: within_def)
qed auto

lemma universe_lower: "s \<in> universe rules \<Longrightarrow> toLower s = s \<and> s \<noteq> ''*''"
proof -
  assume "s \<in> universe rules"
  then obtain t where t: "s = toLower t" "t \<noteq> ''*''"
    by (auto simp: universe_def edgeClasses_def classesOf_def)
  have "t = ''*''" if "toLower t = ''*''"
    using that by (cases t) (auto simp: toLower_def lowerChar_star)
  then show ?thesis using t by auto
qed

lemma newFilter_services:
  assumes "csSet cs \<subseteq> universe rules"
  shows "allowedName (newFilter (csServices cs)) name \<longleftrightarrow> (\<exists>c. classOf name = Some c \<and> allows cs c)"
proof -
  have fin: "finite (csSet cs)" using assms finite_subset finite_universe by blast
  have "s \<in> csSet cs \<Longrightarrow> toLower s = s \<and> s \<noteq> ''*''" for s using assms universe_lower by blast
  then have "(\<lambda>s. toLower s) ` (csSet cs - {''*''}) = csSet cs" "''*'' \<notin> csSet cs" by force+
  moreover have "set (filter (\<lambda>s. s \<noteq> ''*'') (sorted_list_of_set (csSet cs))) = csSet cs - {''*''}" using fin by auto
  ultimately show ?thesis using fin
    by (auto simp: allowedName_def newFilter_def csServices_def allows_def split: option.splits)
qed

lemma planSource_relay:
  assumes "r \<in> set (planSource rules source)"
  shows "rpFrom r = source \<and> rpTo r \<noteq> source \<and> fHosts (rpFilter r) = [] \<and>
    (\<forall>name. allowedName (rpFilter r) name \<longleftrightarrow> (\<exists>c. classOf name = Some c \<and> carries rules c source (rpTo r)))"
proof -
  let ?w = "walk (walkFuel rules) rules (seedReach rules source)"
  obtain cs where cs: "(rpTo r, cs) \<in> set (fst ?w)" "rpTo r \<noteq> source"
    and r: "rpFrom r = source" "rpFilter r = newFilter (csServices cs)"
    using assms unfolding planSource_def by auto
  have "distinct (map fst (fst ?w))"
    by (rule walk_keys) (auto simp: seedReach_def intro: foldl_push_keys [where g = "\<lambda>_. edgeClasses"])
  then have m: "map_of (fst ?w) (rpTo r) = Some cs" using cs(1) by simp
  then have "csSet cs \<subseteq> universe rules"
    using walk_within [of rules "seedReach rules source"] seed_budget by (auto simp: within_def)
  moreover have "allows cs c \<longleftrightarrow> carries rules c source (rpTo r)" for c
    using walk_carries [of rules source "rpTo r" c] m by (simp add: bestAt_def)
  ultimately show ?thesis using cs(2) newFilter_services [of cs rules] r by (simp add: newFilter_def)
qed

lemma relay_facts:
  assumes "r \<in> set (planRelays rules)"
  shows "rpFrom r \<noteq> rpTo r" "fHosts (rpFilter r) = []"
    "allowedName (rpFilter r) name \<longleftrightarrow> (\<exists>c. classOf name = Some c \<and> carries rules c (rpFrom r) (rpTo r))"
proof -
  obtain source where "r \<in> set (planSource rules source)"
    using assms unfolding planRelays_def by auto
  note * = planSource_relay [OF this]
  then show "rpFrom r \<noteq> rpTo r" "fHosts (rpFilter r) = []"
    "allowedName (rpFilter r) name \<longleftrightarrow> (\<exists>c. classOf name = Some c \<and> carries rules c (rpFrom r) (rpTo r))"
    by auto
qed

lemma carries_from: "carries rules c a b \<Longrightarrow> a \<in> rlFrom ` set rules"
  by (induction rule: carries.induct) auto

lemma relay_exists:
  assumes "carries rules c a b" "a \<noteq> b"
  shows "\<exists>r \<in> set (planRelays rules). rpFrom r = a \<and> rpTo r = b"
proof -
  let ?w = "walk (walkFuel rules) rules (seedReach rules a)"
  obtain cs where "map_of (fst ?w) b = Some cs"
    using assms(1) walk_carries [of rules a b c] by (auto simp: bestAt_def split: option.splits)
  then have "(b, cs) \<in> set (fst ?w)" by (rule map_of_SomeD)
  then have "\<lparr>rpFrom = a, rpTo = b, rpFilter = newFilter (csServices cs)\<rparr> \<in> set (planSource rules a)"
    using assms(2) unfolding planSource_def by force
  moreover have "a \<in> set (map rlFrom rules)" using carries_from [OF assms(1)] by simp
  ultimately show ?thesis unfolding planRelays_def by force
qed

lemma planSource_pairs: "distinct (map (\<lambda>r. (rpFrom r, rpTo r)) (planSource rules source))"
proof -
  let ?w = "fst (walk (walkFuel rules) rules (seedReach rules source))"
  have "distinct (map fst ?w)"
    by (rule walk_keys) (auto simp: seedReach_def intro: foldl_push_keys [where g = "\<lambda>_. edgeClasses"])
  then have "distinct (map fst (filter (\<lambda>(t, _). t \<noteq> source) ?w))" by (rule distinct_map_filter)
  moreover have "map (\<lambda>r. (rpFrom r, rpTo r)) (planSource rules source) =
      map (\<lambda>t. (source, t)) (map fst (filter (\<lambda>(t, _). t \<noteq> source) ?w))"
    by (auto simp: planSource_def)
  ultimately show ?thesis by (simp add: distinct_map inj_on_def)
qed

lemma relay_pairs_distinct: "distinct (map (\<lambda>r. (rpFrom r, rpTo r)) (planRelays rules))"
proof -
  let ?key = "\<lambda>r :: relay. (rpFrom r, rpTo r)"
  have "distinct (map ?key (concat (map (planSource rules) ss)))" if "distinct ss" for ss
    using that
  proof (induction ss)
    case (Cons x ss)
    have origin: "rpFrom r = y" if "r \<in> set (planSource rules y)" for r y using planSource_relay that by blast
    have "?key ` set (planSource rules x) \<inter> ?key ` set (concat (map (planSource rules) ss)) = {}"
      using origin Cons.prems by auto
    then show ?case using Cons planSource_pairs [of rules x] by simp
  qed simp
  then have "distinct (map ?key (concat (map (planSource rules) (remdups (map rlFrom rules)))))" by simp
  moreover have "mset (map ?key (planRelays rules)) =
      mset (map ?key (concat (map (planSource rules) (remdups (map rlFrom rules)))))"
    unfolding planRelays_def by simp
  ultimately show ?thesis by (simp only: mset_eq_imp_distinct_iff [OF \<open>mset (map ?key (planRelays rules)) = _\<close>])
qed

end
