(* ===== verification/Mdns_Relay.thy ===== *)
theory Mdns_Relay
  imports Mdns_Reflect_Facts
begin

text \<open>
  The relay over time: packets heard on interfaces, each forwarded through the pairs of the plan,
  whose filters learn the hosts that allowed services name.  Whatever leaves is explained by the
  rules and by the packets heard so far.
\<close>

type_synonym heard = "int \<times> int \<times> msg"

inductive relayRun :: "relaying list \<Rightarrow> heard list \<Rightarrow> relay list \<Rightarrow> bool" for rules where
  started: "relayRun rules [] (planRelays rules)"
| hear: "relayRun rules tr ps \<Longrightarrow> reflectMsg now m i ps = (sent, ps') \<Longrightarrow> relayRun rules ((now, i, m) # tr) ps'"

text \<open>
  A host is offered by one domain to another: a response heard there names it as the target of a
  service whose class is carried across, less than the life of a grant ago.
\<close>

definition carriedName :: "relaying list \<Rightarrow> int \<Rightarrow> int \<Rightarrow> string \<Rightarrow> bool" where
  "carriedName rules a b name \<longleftrightarrow> (\<exists>c. classOf name = Some c \<and> carries rules c a b)"

definition offersAcross :: "relaying list \<Rightarrow> int \<Rightarrow> int \<Rightarrow> int \<Rightarrow> string \<Rightarrow> heard \<Rightarrow> bool" where
  "offersAcross rules a b now host x \<longleftrightarrow> (case x of (t, i, m) \<Rightarrow> i = a \<and> mResponse m \<and> now < t + grantLife \<and>
     (\<exists>r \<in> set (mAnswer m @ mExtra m). \<exists>port target. rrData r = RSRV port target \<and> norm target = host \<and>
        carriedName rules a b (rrName r)))"

definition offered :: "relaying list \<Rightarrow> heard list \<Rightarrow> int \<Rightarrow> int \<Rightarrow> int \<Rightarrow> string \<Rightarrow> bool" where
  "offered rules tr a b now host \<longleftrightarrow> (\<exists>x \<in> set tr. offersAcross rules a b now host x)"

definition pairInv :: "relaying list \<Rightarrow> heard list \<Rightarrow> relay \<Rightarrow> bool" where
  "pairInv rules tr p \<longleftrightarrow> rpFrom p \<noteq> rpTo p \<and> grantsOk (fHosts (rpFilter p)) \<and>
     (\<forall>name. allowedName (rpFilter p) name \<longleftrightarrow> carriedName rules (rpFrom p) (rpTo p) name) \<and>
     (\<forall>t h. hasGrant t h (fHosts (rpFilter p)) \<longrightarrow> offered rules tr (rpFrom p) (rpTo p) t h)"

lemma offered_Cons: "offered rules tr a b now h \<Longrightarrow> offered rules (x # tr) a b now h"
  by (simp add: offered_def)

lemma pairInv_Cons: "pairInv rules tr p \<Longrightarrow> pairInv rules (x # tr) p"
  unfolding pairInv_def by (blast intro: offered_Cons)

lemma plan_pairInv: "p \<in> set (planRelays rules) \<Longrightarrow> pairInv rules [] p"
  using relay_facts [of p rules] by (auto simp: pairInv_def carriedName_def)

section \<open>Learning\<close>

lemma filterGrant_allowed [simp]: "allowedName (filterGrant now h f) = allowedName f"
  by (auto simp: allowedName_def filterGrant_def fun_eq_iff split: option.splits)

lemma learnHosts_allowed [simp]: "allowedName (learnHosts now rrs f) = allowedName f"
  unfolding learnHosts_def by (induction rrs arbitrary: f) (auto split: rdata.splits)

lemma learnHosts_Cons:
  "learnHosts now (r # rrs) f = learnHosts now rrs (case rrData r of
       RSRV _ target \<Rightarrow> if allowedName f (rrName r) then filterGrant now target f else f
     | _ \<Rightarrow> f)"
  by (simp add: learnHosts_def)

lemma learnHosts_grants:
  assumes "grantsOk (fHosts f)"
  shows "grantsOk (fHosts (learnHosts now rrs f)) \<and>
    (\<forall>t h. hasGrant t h (fHosts (learnHosts now rrs f)) \<longrightarrow> hasGrant t h (fHosts f) \<or>
      (t < now + grantLife \<and> (\<exists>r \<in> set rrs. \<exists>port target. rrData r = RSRV port target \<and> norm target = h \<and> allowedName f (rrName r))))"
  using assms
proof (induction rrs arbitrary: f)
  case Nil
  then show ?case by (simp add: learnHosts_def)
next
  case (Cons r rrs)
  show ?case
  proof (cases "\<exists>port target. rrData r = RSRV port target \<and> allowedName f (rrName r)")
    case False
    then have "learnHosts now (r # rrs) f = learnHosts now rrs f"
      by (auto simp: learnHosts_Cons split: rdata.splits)
    then show ?thesis using Cons.IH [OF Cons.prems] by auto
  next
    case True
    then obtain port target where t: "rrData r = RSRV port target" "allowedName f (rrName r)" by blast
    let ?f = "filterGrant now target f"
    have eq: "learnHosts now (r # rrs) f = learnHosts now rrs ?f" using t by (simp add: learnHosts_Cons)
    have ok: "grantsOk (fHosts ?f)" using Cons.prems by (simp add: filterGrant_def)
    have step: "hasGrant t h (fHosts f) \<or> h = norm target \<and> t < now + grantLife" if "hasGrant t h (fHosts ?f)" for t h
      using hasGrant_putGrant [OF Cons.prems] that by (simp add: filterGrant_def)
    show ?thesis using Cons.IH [OF ok] step t unfolding eq by (auto; meson)
  qed
qed

lemma pairInv_learn:
  assumes "pairInv rules tr p" "mResponse m"
  shows "pairInv rules ((now, rpFrom p, m) # tr) (p\<lparr>rpFilter := learnHosts now (mAnswer m @ mExtra m) (rpFilter p)\<rparr>)"
proof -
  let ?rrs = "mAnswer m @ mExtra m"
  have inv: "grantsOk (fHosts (rpFilter p))" "\<And>n. allowedName (rpFilter p) n \<longleftrightarrow> carriedName rules (rpFrom p) (rpTo p) n"
    "\<And>t h. hasGrant t h (fHosts (rpFilter p)) \<Longrightarrow> offered rules tr (rpFrom p) (rpTo p) t h"
    using assms(1) by (auto simp: pairInv_def)
  note g = learnHosts_grants [OF inv(1), of now ?rrs]
  have "offered rules ((now, rpFrom p, m) # tr) (rpFrom p) (rpTo p) t h"
    if "hasGrant t h (fHosts (learnHosts now ?rrs (rpFilter p)))" for t h
  proof -
    have "hasGrant t h (fHosts (rpFilter p)) \<or> offersAcross rules (rpFrom p) (rpTo p) t h (now, rpFrom p, m)"
      using g that assms(2) inv(2) unfolding offersAcross_def by auto
    then show ?thesis using inv(3) by (auto simp: offered_def)
  qed
  then show ?thesis using assms(1) g by (auto simp: pairInv_def)
qed

section \<open>Runs\<close>

lemma reflectMsg_inv:
  assumes "\<forall>p \<in> set ps. pairInv rules tr p" "reflectMsg now m i ps = (sent, ps')"
  shows "\<forall>p \<in> set ps'. pairInv rules ((now, i, m) # tr) p"
  using assms
proof (induction ps arbitrary: sent ps')
  case Nil
  then show ?case by simp
next
  case (Cons p ps)
  obtain s q where r: "reflectMsg now m i ps = (s, q)" by force
  have "\<forall>p \<in> set q. pairInv rules ((now, i, m) # tr) p" using Cons.IH [OF _ r] Cons.prems(1) by simp
  moreover have "pairInv rules tr p" using Cons.prems(1) by simp
  ultimately show ?case
    using Cons.prems(2) r pairInv_learn [of rules tr p m now] pairInv_Cons [of rules tr p]
    by (auto simp: Responses_def Let_def split: if_splits)
qed

lemma relayRun_inv: "relayRun rules tr ps \<Longrightarrow> \<forall>p \<in> set ps. pairInv rules tr p"
  by (induction rule: relayRun.induct) (auto simp: plan_pairInv dest: reflectMsg_inv)

text \<open>Where a forwarded packet comes from.\<close>

lemma reflectMsg_sent:
  assumes "reflectMsg now m i ps = (sent, ps')" "(j, out) \<in> set sent"
  shows "\<exists>p \<in> set ps. if mResponse m then rpFrom p = i \<and> rpTo p = j \<and> fst (Responses now m (rpFilter p)) = Some out
    else rpTo p = i \<and> rpFrom p = j \<and> Queries (rpFilter p) now m = Some out"
  using assms
proof (induction ps arbitrary: sent ps')
  case Nil
  then show ?case by simp
next
  case (Cons p ps)
  obtain s q where r: "reflectMsg now m i ps = (s, q)" by force
  show ?case
  proof (cases "(j, out) \<in> set s")
    case True
    then show ?thesis using Cons.IH [OF r] by auto
  next
    case False
    then show ?thesis using Cons.prems r
      by (cases "Responses now m (rpFilter p)") (auto split: if_splits option.splits)
  qed
qed

definition seenBy :: "relaying list \<Rightarrow> heard list \<Rightarrow> int \<Rightarrow> int \<Rightarrow> int \<Rightarrow> rr \<Rightarrow> bool" where
  "seenBy rules tr a b now r \<longleftrightarrow> carriedName rules a b (rrName r) \<or>
     (norm (rrName r) = enumerateName \<and> (\<exists>p. rrData r = RPTR p \<and> carriedName rules a b p)) \<or>
     (rrType r \<in> {TypeA, TypeAAAA} \<and> offered rules tr a b now (norm (rrName r)))"

definition askedOf :: "relaying list \<Rightarrow> heard list \<Rightarrow> int \<Rightarrow> int \<Rightarrow> int \<Rightarrow> question \<Rightarrow> bool" where
  "askedOf rules tr a b now q \<longleftrightarrow> carriedName rules a b (qName q) \<or> enumeration q \<or>
     (qType q \<in> {TypeA, TypeAAAA, TypeANY} \<and> offered rules tr a b now (norm (qName q)))"

lemma Responses_seen:
  assumes "pairInv rules tr p" "mResponse m" "fst (Responses now m (rpFilter p)) = Some out"
    "r \<in> set (mAnswer out @ mExtra out)"
  shows "r \<in> set (mAnswer m @ mExtra m) \<and> seenBy rules ((now, rpFrom p, m) # tr) (rpFrom p) (rpTo p) now r"
proof -
  let ?f = "learnHosts now (mAnswer m @ mExtra m) (rpFilter p)"
  have r: "r \<in> set (mAnswer m @ mExtra m)" "maySee ?f now r"
    using assms(3,4) by (auto simp: Responses_def Let_def newMsg_def split: if_splits)
  have inv: "\<And>n. allowedName ?f n \<longleftrightarrow> carriedName rules (rpFrom p) (rpTo p) n"
    "\<And>t h. hasGrant t h (fHosts ?f) \<Longrightarrow> offered rules ((now, rpFrom p, m) # tr) (rpFrom p) (rpTo p) t h"
    using pairInv_learn [OF assms(1,2), of now] by (auto simp: pairInv_def)
  show ?thesis using r inv
    by (auto simp: maySee_def seenBy_def enumerable_def filterGranted_def split: if_splits rdata.splits)
qed

lemma Queries_asked:
  assumes "pairInv rules tr p" "Queries (rpFilter p) now m = Some out"
  shows "mQuestion out \<noteq> [] \<and> (\<forall>q \<in> set (mQuestion out). q \<in> set (mQuestion m) \<and> askedOf rules tr (rpFrom p) (rpTo p) now q)"
  using assms
  by (auto simp: Queries_def Let_def pairInv_def mayAsk_def askedOf_def filterGranted_def newMsg_def split: if_splits)

section \<open>What is carried arrives\<close>

lemma reflectMsg_pairs:
  "reflectMsg now m i ps = (sent, ps') \<Longrightarrow> map (\<lambda>p. (rpFrom p, rpTo p)) ps' = map (\<lambda>p. (rpFrom p, rpTo p)) ps"
  by (induction ps arbitrary: sent ps') (auto split: prod.splits if_splits)

lemma relayRun_pairs:
  "relayRun rules tr ps \<Longrightarrow> map (\<lambda>p. (rpFrom p, rpTo p)) ps = map (\<lambda>p. (rpFrom p, rpTo p)) (planRelays rules)"
  by (induction rule: relayRun.induct) (auto dest: reflectMsg_pairs)

lemma relayRun_pair:
  assumes "relayRun rules tr ps" "carries rules c a b" "a \<noteq> b"
  shows "\<exists>p \<in> set ps. rpFrom p = a \<and> rpTo p = b"
proof -
  have "(a, b) \<in> set (map (\<lambda>p. (rpFrom p, rpTo p)) ps)"
    unfolding relayRun_pairs [OF assms(1)] using relay_exists [OF assms(2,3)] by force
  then show ?thesis by auto
qed

lemma reflectMsg_delivers:
  assumes "p \<in> set ps" "rpFrom p = i" "mResponse m" "fst (Responses now m (rpFilter p)) = Some out"
  shows "(rpTo p, out) \<in> set (fst (reflectMsg now m i ps))"
  using assms by (induction ps) (auto split: prod.splits)

lemma Responses_keeps:
  assumes "pairInv rules tr p" "mResponse m" "r \<in> set (mAnswer m)" "rrType r \<in> {TypePTR, TypeSRV, TypeTXT}"
    "carriedName rules (rpFrom p) (rpTo p) (rrName r)"
  shows "\<exists>out. fst (Responses now m (rpFilter p)) = Some out \<and> r \<in> set (mAnswer out)"
proof -
  let ?f = "learnHosts now (mAnswer m @ mExtra m) (rpFilter p)"
  have "allowedName ?f (rrName r)"
    using pairInv_learn [OF assms(1,2), of now] assms(5) by (auto simp: pairInv_def)
  then have "maySee ?f now r" using assms(4) by (auto simp: maySee_def)
  then have "r \<in> set (filter (maySee ?f now) (mAnswer m))" using assms(3) by simp
  then show ?thesis by (auto simp: Responses_def Let_def newMsg_def filter_empty_conv)
qed

end
