(* ===== verification/Mdns_Answer.thy ===== *)
theory Mdns_Answer
  imports Mdns_Config
begin

text \<open>
  The responder (\<^verbatim>\<open>internal/mdns/advertise.go\<close>): the records a configuration advertises on an
  interface, the answer to a query, and conflicts with other hosts.  \<open>rrText\<close> is \<^verbatim>\<open>RR.String\<close> of
  the DNS library, which the sources use as a key for duplicates.
\<close>

section \<open>Addresses of an interface\<close>

definition IsLoopback :: "addr \<Rightarrow> bool" where
  "IsLoopback a = (case Unmap a of
       V4 w \<Rightarrow> unat w div 2 ^ 24 = 127
     | V6 w _ \<Rightarrow> unat w = 1
     | NoAddr \<Rightarrow> False)"

definition IsLinkLocalUnicast :: "addr \<Rightarrow> bool" where
  "IsLinkLocalUnicast a = (case Unmap a of
       V4 w \<Rightarrow> unat w div 2 ^ 16 = 169 * 256 + 254
     | V6 w _ \<Rightarrow> unat w div 2 ^ 118 = 0x3FA
     | NoAddr \<Rightarrow> False)"

text \<open>The routable prefixes among the address texts the kernel reports for an interface.\<close>

definition InterfaceAddrs :: "string list \<Rightarrow> prefix list" where
  "InterfaceAddrs texts = List.map_filter (\<lambda>t. case ParsePrefix t of
       Some p \<Rightarrow> if IsLinkLocalUnicast (pfxAddr p) \<or> IsLoopback (pfxAddr p) then None else Some p
     | None \<Rightarrow> None) texts"

section \<open>Records\<close>

record answerer =
  anCfg :: mdnsConfig
  anAddrs :: "string \<Rightarrow> prefix list result"

definition ttlHost :: int where "ttlHost = 120"
definition ttlService :: int where "ttlService = 4500"

text \<open>Class IN with the cache-flush bit.\<close>

definition ClassFlush :: int where "ClassFlush = 0x8001"

definition hostName :: "answerer \<Rightarrow> string" where
  "hostName a = fq [mcHost (anCfg a), ''local'']"

definition hostFor :: "answerer \<Rightarrow> mdnsRecord \<Rightarrow> string" where
  "hostFor a r = (if mrHost r \<noteq> [] then fq [mrHost r, ''local''] else hostName a)"

definition hostNames :: "answerer \<Rightarrow> string list" where
  "hostNames a = sortedStrings (remdups (map (hostFor a) (mcRecords (anCfg a))))"

definition hostForName :: "answerer \<Rightarrow> string \<Rightarrow> string option" where
  "hostForName a name = find (\<lambda>h. norm h = name) (hostNames a)"

definition instanceName :: "mdnsRecord \<Rightarrow> string" where
  "instanceName r = fq [mrInstance r, mrService r, ''local'']"

definition hostRecords :: "answerer \<Rightarrow> string \<Rightarrow> string \<Rightarrow> rr list" where
  "hostRecords a iface host = (case anAddrs a iface of
       Inl _ \<Rightarrow> []
     | Inr ps \<Rightarrow> map (\<lambda>p. let ip = pfxAddr p in
         if Is4 ip then \<lparr>rrName = host, rrType = TypeA, rrClass = ClassFlush, rrTtl = ttlHost, rrData = RA ip\<rparr>
         else \<lparr>rrName = host, rrType = TypeAAAA, rrClass = ClassFlush, rrTtl = ttlHost, rrData = RAAAA ip\<rparr>) ps)"

definition srvRecord :: "answerer \<Rightarrow> mdnsRecord \<Rightarrow> rr" where
  "srvRecord a r = \<lparr>rrName = instanceName r, rrType = TypeSRV, rrClass = ClassFlush, rrTtl = ttlHost,
     rrData = RSRV (mrPort r) (hostFor a r)\<rparr>"

definition txtRecord :: "mdnsRecord \<Rightarrow> rr" where
  "txtRecord r = \<lparr>rrName = instanceName r, rrType = TypeTXT, rrClass = ClassFlush, rrTtl = ttlService,
     rrData = RTXT (if mrTXT r = [] then [[]] else mrTXT r)\<rparr>"

definition ptrRecord :: "string \<Rightarrow> string \<Rightarrow> rr" where
  "ptrRecord owner target = \<lparr>rrName = owner, rrType = TypePTR, rrClass = ClassINET, rrTtl = ttlService,
     rrData = RPTR target\<rparr>"

definition ownersOf :: "mdnsRecord \<Rightarrow> string list" where
  "ownersOf r = fq [mrService r, ''local''] # map (\<lambda>sub. fq [sub, ''_sub'', mrService r, ''local'']) (mrSubtypes r)"

definition recordSet :: "answerer \<Rightarrow> mdnsRecord \<Rightarrow> rr list" where
  "recordSet a r = map (\<lambda>owner. ptrRecord owner (instanceName r)) (ownersOf r) @ [srvRecord a r, txtRecord r]"

text \<open>
  The whole announcement.  The service types come from a map, whose order is not specified; the
  model has the order of the records.
\<close>

definition allRecords :: "answerer \<Rightarrow> string \<Rightarrow> int \<Rightarrow> rr list" where
  "allRecords a iface ttl =
     (let rs = mcRecords (anCfg a);
          out = concat (map (recordSet a) rs) @
            map (\<lambda>svc. ptrRecord enumerateName (fq [svc, ''local''])) (remdups (map mrService rs)) @
            concat (map (hostRecords a iface) (hostNames a))
      in if ttl \<noteq> ttlService then map (\<lambda>r. r\<lparr>rrTtl := ttl\<rparr>) out else out)"

section \<open>Answering\<close>

text \<open>The reply being built: answers, additional records, and the texts already added.\<close>

record building =
  bdAnswer :: "rr list"
  bdExtra :: "rr list"
  bdHave :: "string set"

definition addAnswer :: "(rr \<Rightarrow> string) \<Rightarrow> building \<Rightarrow> rr \<Rightarrow> building" where
  "addAnswer rrText b r =
     (let key = toLower (rrText r)
      in if key \<in> bdHave b then b
         else b\<lparr>bdHave := insert key (bdHave b), bdAnswer := bdAnswer b @ [r]\<rparr>)"

definition addExtra :: "(rr \<Rightarrow> string) \<Rightarrow> building \<Rightarrow> rr \<Rightarrow> building" where
  "addExtra rrText b r =
     (let key = toLower (rrText r)
      in if key \<in> bdHave b then b
         else b\<lparr>bdHave := insert key (bdHave b), bdExtra := bdExtra b @ [r]\<rparr>)"

text \<open>The shared records a querier says it knows, with at least half of their life left.\<close>

definition knownPointers :: "msg \<Rightarrow> string set" where
  "knownPointers q = set (List.map_filter (\<lambda>k. case rrData k of
       RPTR p \<Rightarrow> if ttlService div 2 \<le> rrTtl k then Some (norm (rrName k) @ ''|'' @ norm p) else None
     | _ \<Rightarrow> None) (mAnswer q))"

definition wants :: "question \<Rightarrow> int \<Rightarrow> bool" where
  "wants q t = (qType q = t \<or> qType q = TypeANY)"

definition answerOwner ::
  "(rr \<Rightarrow> string) \<Rightarrow> answerer \<Rightarrow> string \<Rightarrow> string set \<Rightarrow> question \<Rightarrow> mdnsRecord \<Rightarrow> building \<Rightarrow> string \<Rightarrow> building" where
  "answerOwner rrText a iface heardOf q r b owner =
     (if norm owner = norm (qName q) \<and> wants q TypePTR \<and> norm owner @ ''|'' @ norm (instanceName r) \<notin> heardOf
      then foldl (addExtra rrText) (addAnswer rrText b (ptrRecord owner (instanceName r)))
             (srvRecord a r # txtRecord r # hostRecords a iface (hostFor a r))
      else b)"

definition answerRecord ::
  "(rr \<Rightarrow> string) \<Rightarrow> answerer \<Rightarrow> string \<Rightarrow> string set \<Rightarrow> question \<Rightarrow> building \<Rightarrow> mdnsRecord \<Rightarrow> building" where
  "answerRecord rrText a iface heardOf q b r =
     (let b1 = foldl (answerOwner rrText a iface heardOf q r) b (ownersOf r)
      in if norm (instanceName r) = norm (qName q) then
           (let b2 = (if wants q TypeSRV
                then foldl (addExtra rrText) (addAnswer rrText b1 (srvRecord a r)) (hostRecords a iface (hostFor a r))
                else b1)
            in if wants q TypeTXT then addAnswer rrText b2 (txtRecord r) else b2)
         else b1)"

definition answerQuestion ::
  "(rr \<Rightarrow> string) \<Rightarrow> answerer \<Rightarrow> string \<Rightarrow> string set \<Rightarrow> building \<Rightarrow> question \<Rightarrow> building" where
  "answerQuestion rrText a iface heardOf b q =
     (let name = norm (qName q)
      in if name = enumerateName \<and> wants q TypePTR then
           foldl (addAnswer rrText) b (filter (\<lambda>r. case rrData r of RPTR _ \<Rightarrow> norm (rrName r) = name | _ \<Rightarrow> False)
             (allRecords a iface ttlService))
         else case (if wants q TypeA \<or> wants q TypeAAAA then hostForName a name else None) of
           Some host \<Rightarrow> foldl (addAnswer rrText) b (filter (\<lambda>r. wants q (rrType r)) (hostRecords a iface host))
         | None \<Rightarrow> foldl (answerRecord rrText a iface heardOf q) b (mcRecords (anCfg a)))"

definition answerMsg :: "(rr \<Rightarrow> string) \<Rightarrow> answerer \<Rightarrow> msg \<Rightarrow> string \<Rightarrow> msg option" where
  "answerMsg rrText a q iface =
     (if mResponse q \<or> mOpcode q \<noteq> 0 then None
      else let b = foldl (answerQuestion rrText a iface (knownPointers q))
                 \<lparr>bdAnswer = [], bdExtra = [], bdHave = {}\<rparr> (mQuestion q)
      in if bdAnswer b = [] then None
         else Some (newMsg\<lparr>mResponse := True, mAuthoritative := True, mAnswer := bdAnswer b, mExtra := bdExtra b\<rparr>))"

definition conflicts :: "answerer \<Rightarrow> msg \<Rightarrow> string" where
  "conflicts a resp =
     (if \<not> mResponse resp then []
      else let mine = set (map norm (hostNames a)) \<union> set (map (norm \<circ> instanceName) (mcRecords (anCfg a)))
      in case find (\<lambda>r. norm (rrName r) \<in> mine \<and> rrType r \<in> {TypeSRV, TypeTXT, TypeA, TypeAAAA})
                (mAnswer resp @ mExtra resp) of
           Some r \<Rightarrow> rrName r | None \<Rightarrow> [])"

lemmas answer_defs [go_defs] =
  IsLoopback_def IsLinkLocalUnicast_def InterfaceAddrs_def ttlHost_def ttlService_def ClassFlush_def
  hostName_def hostFor_def hostNames_def hostForName_def instanceName_def hostRecords_def
  srvRecord_def txtRecord_def ptrRecord_def ownersOf_def recordSet_def allRecords_def addAnswer_def
  addExtra_def knownPointers_def wants_def answerOwner_def answerRecord_def answerQuestion_def answerMsg_def
  conflicts_def

section \<open>Only what is advertised is answered\<close>

definition records :: "building \<Rightarrow> rr set" where
  "records b = set (bdAnswer b) \<union> set (bdExtra b)"

lemma add_records:
  "records (addAnswer rrText b r) \<subseteq> insert r (records b)"
  "records (addExtra rrText b r) \<subseteq> insert r (records b)"
  by (auto simp: records_def addAnswer_def addExtra_def Let_def)

lemma adds_records:
  "records (foldl (addAnswer rrText) b rs) \<subseteq> records b \<union> set rs"
  "records (foldl (addExtra rrText) b rs) \<subseteq> records b \<union> set rs"
  using add_records by (induction rs arbitrary: b) (fastforce)+

definition advertised :: "answerer \<Rightarrow> string \<Rightarrow> rr set" where
  "advertised a iface = set (allRecords a iface ttlService)"

lemma advertised_host:
  "host \<in> set (hostNames a) \<Longrightarrow> set (hostRecords a iface host) \<subseteq> advertised a iface"
  by (auto simp: advertised_def allRecords_def Let_def)

lemma advertised_record:
  assumes "r \<in> set (mcRecords (anCfg a))"
  shows "set (recordSet a r) \<subseteq> advertised a iface" "set (hostRecords a iface (hostFor a r)) \<subseteq> advertised a iface"
  using assms advertised_host [of "hostFor a r" a iface]
  by (auto simp: advertised_def allRecords_def Let_def hostNames_def)

lemma answerRecord_advertised:
  assumes "r \<in> set (mcRecords (anCfg a))" "records b \<subseteq> advertised a iface"
  shows "records (answerRecord rrText a iface heardOf q b r) \<subseteq> advertised a iface"
proof -
  note adv = advertised_record [OF assms(1), of iface]
  have own: "ptrRecord owner (instanceName r) \<in> advertised a iface" if "owner \<in> set (ownersOf r)" for owner
    using adv(1) that by (auto simp: recordSet_def)
  have rest: "srvRecord a r \<in> advertised a iface" "txtRecord r \<in> advertised a iface"
    using adv(1) by (auto simp: recordSet_def)
  have step: "records (answerOwner rrText a iface heardOf q r b owner) \<subseteq> advertised a iface"
    if "records b \<subseteq> advertised a iface" "owner \<in> set (ownersOf r)" for b owner
  proof -
    let ?more = "srvRecord a r # txtRecord r # hostRecords a iface (hostFor a r)"
    have "set ?more \<subseteq> advertised a iface" using rest adv(2) by simp
    then have "records (foldl (addExtra rrText) (addAnswer rrText b (ptrRecord owner (instanceName r))) ?more) \<subseteq> advertised a iface"
      using adds_records(2) [of rrText "addAnswer rrText b (ptrRecord owner (instanceName r))" ?more]
        add_records(1) [of rrText b "ptrRecord owner (instanceName r)"] that(1) own [OF that(2)] by blast
    then show ?thesis using that(1) unfolding answerOwner_def by (simp del: foldl_Cons)
  qed
  let ?b1 = "foldl (answerOwner rrText a iface heardOf q r) b (ownersOf r)"
  have "records b \<subseteq> advertised a iface \<Longrightarrow> set os \<subseteq> set (ownersOf r) \<Longrightarrow>
      records (foldl (answerOwner rrText a iface heardOf q r) b os) \<subseteq> advertised a iface" for os b
    by (induction os arbitrary: b) (use step in auto)
  then have b1: "records ?b1 \<subseteq> advertised a iface" using assms(2) by blast
  have "records (foldl (addExtra rrText) (addAnswer rrText ?b1 (srvRecord a r)) (hostRecords a iface (hostFor a r))) \<subseteq> advertised a iface"
    using adds_records(2) [of rrText "addAnswer rrText ?b1 (srvRecord a r)" "hostRecords a iface (hostFor a r)"]
      add_records(1) [of rrText ?b1 "srvRecord a r"] b1 rest adv(2) by blast
  then show ?thesis
    using b1 rest add_records(1) [of rrText _ "txtRecord r"]
    unfolding answerRecord_def Let_def by (auto split: if_splits; blast)
qed

lemma answerQuestion_advertised:
  assumes "records b \<subseteq> advertised a iface"
  shows "records (answerQuestion rrText a iface heardOf b q) \<subseteq> advertised a iface"
proof -
  have "records b \<subseteq> advertised a iface \<Longrightarrow> set rs \<subseteq> set (mcRecords (anCfg a)) \<Longrightarrow>
      records (foldl (answerRecord rrText a iface heardOf q) b rs) \<subseteq> advertised a iface" for rs b
    by (induction rs arbitrary: b) (auto simp: answerRecord_advertised)
  moreover have "records (foldl (addAnswer rrText) b (filter P (allRecords a iface ttlService))) \<subseteq> advertised a iface" for P
    using adds_records(1) [of rrText b "filter P (allRecords a iface ttlService)"] assms by (auto simp: advertised_def)
  moreover have "records (foldl (addAnswer rrText) b (filter P (hostRecords a iface host))) \<subseteq> advertised a iface"
    if "hostForName a name = Some host" for P host name
  proof -
    have "host \<in> set (hostNames a)" using that by (auto simp: hostForName_def find_Some_iff)
    then show ?thesis
      using adds_records(1) [of rrText b "filter P (hostRecords a iface host)"] assms advertised_host [of host a iface] by auto
  qed
  ultimately show ?thesis
    using assms unfolding answerQuestion_def Let_def by (auto split: option.splits if_splits)
qed

lemma answerMsg_advertised:
  assumes "answerMsg rrText a q iface = Some resp"
  shows "set (mAnswer resp @ mExtra resp) \<subseteq> advertised a iface"
proof -
  let ?b = "foldl (answerQuestion rrText a iface (knownPointers q)) \<lparr>bdAnswer = [], bdExtra = [], bdHave = {}\<rparr> (mQuestion q)"
  have "records b \<subseteq> advertised a iface \<Longrightarrow> records (foldl (answerQuestion rrText a iface heardOf) b qs) \<subseteq> advertised a iface" for b heardOf qs
    by (induction qs arbitrary: b) (auto simp: answerQuestion_advertised)
  then have "records ?b \<subseteq> advertised a iface" by (simp add: records_def)
  then show ?thesis using assms
    by (auto simp: answerMsg_def Let_def records_def newMsg_def split: if_splits)
qed

section \<open>A browse is answered\<close>

text \<open>The texts in the reply are those of its records, and none is ever taken back.\<close>

definition texted :: "(rr \<Rightarrow> string) \<Rightarrow> building \<Rightarrow> bool" where
  "texted rrText b \<longleftrightarrow> bdHave b = (\<lambda>r. toLower (rrText r)) ` records b"

definition extends :: "(rr \<Rightarrow> string) \<Rightarrow> building \<Rightarrow> building \<Rightarrow> bool" where
  "extends rrText b b' \<longleftrightarrow> bdHave b \<subseteq> bdHave b' \<and> (texted rrText b \<longrightarrow> texted rrText b')"

lemma extends_refl [simp]: "extends rrText b b"
  by (simp add: extends_def)

lemma extends_trans: "extends rrText b c \<Longrightarrow> extends rrText c d \<Longrightarrow> extends rrText b d"
  by (auto simp: extends_def)

lemma extends_add [simp]: "extends rrText b (addAnswer rrText b r)" "extends rrText b (addExtra rrText b r)"
  by (auto simp: extends_def texted_def records_def addAnswer_def addExtra_def Let_def)

lemma extends_fold: "(\<And>b x. x \<in> set xs \<Longrightarrow> extends rrText b (f b x)) \<Longrightarrow> extends rrText b (foldl f b xs)"
proof (induction xs arbitrary: b)
  case (Cons x xs)
  then show ?case using extends_trans [of rrText b "f b x"] by simp
qed simp

lemma extends_adds [simp]:
  "extends rrText b (foldl (addAnswer rrText) b rs)" "extends rrText b (foldl (addExtra rrText) b rs)"
  by (auto intro: extends_fold)

lemma extends_both: "extends rrText b (foldl (addExtra rrText) (addAnswer rrText b r) rs)"
  by (rule extends_trans [where c = "addAnswer rrText b r"]) simp_all

lemma extends_answerOwner: "extends rrText b (answerOwner rrText a iface heardOf q r b owner)"
  using extends_both by (auto simp: answerOwner_def simp del: foldl_Cons)

lemma extends_answerRecord:
  "extends rrText (foldl (answerOwner rrText a iface heardOf q r) b (ownersOf r)) (answerRecord rrText a iface heardOf q b r)"
proof -
  let ?b1 = "foldl (answerOwner rrText a iface heardOf q r) b (ownersOf r)"
  let ?b2 = "if wants q TypeSRV then foldl (addExtra rrText) (addAnswer rrText ?b1 (srvRecord a r))
      (hostRecords a iface (hostFor a r)) else ?b1"
  have 2: "extends rrText ?b1 ?b2" using extends_both by simp
  have 3: "extends rrText ?b1 (addAnswer rrText ?b2 (txtRecord r))" using extends_trans [OF 2 extends_add(1)] .
  show ?thesis unfolding answerRecord_def Let_def using 2 3 by simp
qed

lemma extends_answered: "extends rrText b (answerRecord rrText a iface heardOf q b r)"
  by (rule extends_trans [OF _ extends_answerRecord]) (rule extends_fold, rule extends_answerOwner)

lemma extends_answerQuestion: "extends rrText b (answerQuestion rrText a iface heardOf b q)"
  unfolding answerQuestion_def Let_def
  by (auto split: option.splits intro: extends_fold extends_answered)

lemma answerRecord_pointer:
  assumes "norm (fq [mrService r, ''local'']) = norm (qName q)" "wants q TypePTR"
    "norm (fq [mrService r, ''local'']) @ ''|'' @ norm (instanceName r) \<notin> heardOf"
  shows "toLower (rrText (ptrRecord (fq [mrService r, ''local'']) (instanceName r))) \<in>
    bdHave (answerRecord rrText a iface heardOf q b r)"
proof -
  let ?owner = "fq [mrService r, ''local'']"
  let ?key = "toLower (rrText (ptrRecord ?owner (instanceName r)))"
  let ?b1 = "foldl (answerOwner rrText a iface heardOf q r) b (ownersOf r)"
  have "?key \<in> bdHave (addAnswer rrText b (ptrRecord ?owner (instanceName r)))"
    by (simp add: addAnswer_def Let_def)
  then have first: "?key \<in> bdHave (answerOwner rrText a iface heardOf q r b ?owner)"
    using assms extends_adds(2) unfolding extends_def answerOwner_def by (simp del: foldl_Cons) blast
  have "extends rrText (answerOwner rrText a iface heardOf q r b ?owner) ?b1"
    unfolding ownersOf_def by (simp add: extends_fold extends_answerOwner)
  then have "?key \<in> bdHave ?b1" using first unfolding extends_def by blast
  then show ?thesis using extends_answerRecord [of rrText a iface heardOf q r b] unfolding extends_def by blast
qed

text \<open>Nothing is added beside the answers before there is an answer.\<close>

definition led :: "building \<Rightarrow> bool" where
  "led b \<longleftrightarrow> bdHave b = {} \<or> bdAnswer b \<noteq> []"

lemma led_addAnswer: "led b \<Longrightarrow> bdAnswer (addAnswer rrText b r) \<noteq> []"
  by (auto simp: led_def addAnswer_def Let_def)

lemma bdAnswer_addExtra [simp]: "bdAnswer (foldl (addExtra rrText) b rs) = bdAnswer b"
  by (induction rs arbitrary: b) (auto simp: addExtra_def Let_def)

lemma led_both: "led b \<Longrightarrow> led (foldl (addExtra rrText) (addAnswer rrText b r) rs)"
  by (simp add: led_def [of "foldl (addExtra rrText) (addAnswer rrText b r) rs"] led_addAnswer)

lemma led_one: "led b \<Longrightarrow> led (addAnswer rrText b r)"
  using led_both [of b rrText r "[]"] by simp

lemma led_fold: "(\<And>b x. led b \<Longrightarrow> led (f b x)) \<Longrightarrow> led b \<Longrightarrow> led (foldl f b xs)"
  by (induction xs arbitrary: b) auto

lemma led_answerRecord: "led b \<Longrightarrow> led (answerRecord rrText a iface heardOf q b r)"
proof -
  assume "led b"
  then have "led (foldl (answerOwner rrText a iface heardOf q r) b (ownersOf r))"
    by (rule led_fold [rotated]) (simp add: answerOwner_def led_both del: foldl_Cons)
  then show ?thesis by (simp add: answerRecord_def Let_def led_both led_one)
qed

lemma led_answerQuestion: "led b \<Longrightarrow> led (answerQuestion rrText a iface heardOf b q)"
  unfolding answerQuestion_def Let_def
  by (auto split: option.splits intro: led_fold led_one led_answerRecord)

text \<open>Every record of a browsed class that the querier does not know yet is in the reply.\<close>

lemma answerMsg_pointer:
  assumes "\<not> mResponse m" "mOpcode m = 0" "q \<in> set (mQuestion m)" "qType q = TypePTR"
    "r \<in> set (mcRecords (anCfg a))" "norm (fq [mrService r, ''local'']) = norm (qName q)" "norm (qName q) \<noteq> enumerateName"
    "norm (fq [mrService r, ''local'']) @ ''|'' @ norm (instanceName r) \<notin> knownPointers m"
  shows "\<exists>resp. answerMsg rrText a m iface = Some resp \<and> (\<exists>x \<in> set (mAnswer resp @ mExtra resp).
    toLower (rrText x) = toLower (rrText (ptrRecord (fq [mrService r, ''local'']) (instanceName r))))"
proof -
  let ?key = "toLower (rrText (ptrRecord (fq [mrService r, ''local'']) (instanceName r)))"
  let ?ask = "answerQuestion rrText a iface (knownPointers m)"
  let ?b0 = "\<lparr>bdAnswer = [], bdExtra = [], bdHave = {}\<rparr>"
  have one: "?key \<in> bdHave (?ask b q)" for b
  proof -
    obtain xs ys where rs: "mcRecords (anCfg a) = xs @ r # ys" using assms(5) by (meson split_list)
    let ?rec = "answerRecord rrText a iface (knownPointers m) q"
    have "?key \<in> bdHave (?rec (foldl ?rec b xs) r)"
      using assms(4,6,8) by (intro answerRecord_pointer) (auto simp: wants_def)
    moreover have "extends rrText (?rec (foldl ?rec b xs) r) (foldl ?rec (?rec (foldl ?rec b xs) r) ys)"
      by (intro extends_fold extends_answered)
    ultimately have "?key \<in> bdHave (foldl ?rec b (mcRecords (anCfg a)))" unfolding rs extends_def by auto
    then show ?thesis using assms(4,7) by (simp add: answerQuestion_def Let_def wants_def TypePTR_def TypeA_def TypeAAAA_def TypeANY_def)
  qed
  obtain xs ys where qs: "mQuestion m = xs @ q # ys" using assms(3) by (meson split_list)
  have "extends rrText (?ask (foldl ?ask ?b0 xs) q) (foldl ?ask ?b0 (mQuestion m))"
    unfolding qs by (simp add: extends_fold extends_answerQuestion)
  then have key: "?key \<in> bdHave (foldl ?ask ?b0 (mQuestion m))" using one unfolding extends_def by blast
  moreover have "extends rrText ?b0 (foldl ?ask ?b0 (mQuestion m))" by (intro extends_fold extends_answerQuestion)
  ultimately have "?key \<in> (\<lambda>r. toLower (rrText r)) ` records (foldl ?ask ?b0 (mQuestion m))"
    unfolding extends_def texted_def by (simp add: records_def)
  moreover have "led (foldl ?ask ?b0 (mQuestion m))"
    by (rule led_fold [OF led_answerQuestion]) (auto simp: led_def)
  then have "bdAnswer (foldl ?ask ?b0 (mQuestion m)) \<noteq> []" using key unfolding led_def by blast
  ultimately show ?thesis using assms(1,2)
    by (auto simp: answerMsg_def Let_def records_def newMsg_def)
qed

end
