(* ===== verification/Mdns_Nat.thy ===== *)
theory Mdns_Nat
  imports Mdns_Answer Mdns_Reflect "HOL-Library.Word"
begin

unbundle bit_operations_syntax

text \<open>
  Translation of a domain's advertisements (\<^verbatim>\<open>internal/mdns/nat.go\<close>): instances learned from a
  source interface, the pool of ports of the interface they are published on, the DNAT table, and
  what is announced there.  The order in which Go walks the map of instances is not specified:
  \<open>ord\<close> is that order, a permutation of the keys.
\<close>

section \<open>State\<close>

record netIface =
  niIndex :: int
  niName :: string
  niUp :: bool
  niMulticast :: bool
  niLoopback :: bool

record natInstance =
  instService :: string
  instName :: string
  instTxt :: "string list"
  instSubs :: "string set"
  instPort :: int
  instHost :: string
  instIP :: addr
  instHostPort :: int
  instExpires :: "int option"

type_synonym portPool = "(int \<times> string) list"

record natRule =
  nrFilter :: relayFilter
  nrLo :: int
  nrHi :: int
  nrInsts :: "(string \<times> natInstance) list"
  nrHosts :: "(string \<times> addr list \<times> int) list"
  nrFrom :: netIface
  nrTo :: netIface
  nrLabel :: string
  nrReserved :: "string list"
  nrRemoved :: "natInstance list"

definition instKey :: "natInstance \<Rightarrow> string" where
  "instKey i = norm (instName i @ ''.'' @ instService i @ ''.local.'')"

definition ownerOf :: "natRule \<Rightarrow> natInstance \<Rightarrow> string" where
  "ownerOf n i = niName (nrFrom n) @ ''|'' @ instKey i"

definition trimDashes :: "string \<Rightarrow> string" where
  "trimDashes s = rev (dropWhile (\<lambda>c. c = CHR ''-'') (rev (dropWhile (\<lambda>c. c = CHR ''-'') s)))"

definition natLabel :: "string \<Rightarrow> string" where
  "natLabel network =
     (let s = trimDashes (map (\<lambda>c. if alnumDash c then c else CHR ''-'') (toLower network));
          t = (if s = [] then ''container'' else s)
      in take 63 t)"

definition newNATRule :: "natConfig \<Rightarrow> netIface \<Rightarrow> netIface \<Rightarrow> string list \<Rightarrow> natRule result" where
  "newNATRule cfg from target reserved =
     bindR (portRange cfg) (\<lambda>(lo, hi).
     Inr \<lparr>nrFilter = newFilter (ncServices cfg), nrLo = lo, nrHi = hi, nrInsts = [], nrHosts = [],
       nrFrom = from, nrTo = target, nrLabel = natLabel (niName from), nrReserved = reserved, nrRemoved = []\<rparr>)"

section \<open>Ports\<close>

text \<open>FNV-1a on 32 bits, \<^verbatim>\<open>hash/fnv\<close>.\<close>

definition fnv32a :: "string \<Rightarrow> 32 word" where
  "fnv32a s = foldl (\<lambda>h c. (h XOR of_nat (of_char c)) * 16777619) 2166136261 s"

definition portCandidates :: "natRule \<Rightarrow> natInstance \<Rightarrow> int list" where
  "portCandidates n i =
     (let size = nrHi n - nrLo n + 1;
          start = uint (fnv32a (niName (nrFrom n) @ ''|'' @ addrString (instIP i) @ ''|'' @ itoa (instPort i))) mod size
      in map (\<lambda>k. nrLo n + (start + k) mod size) [0..size - 1])"

definition allocatePort :: "natRule \<Rightarrow> natInstance \<Rightarrow> portPool \<Rightarrow> (natInstance \<times> portPool) option" where
  "allocatePort n i pool =
     (case find (\<lambda>p. case map_of pool p of None \<Rightarrow> True | Some held \<Rightarrow> held = ownerOf n i) (portCandidates n i) of
        Some p \<Rightarrow> Some (i\<lparr>instHostPort := p\<rparr>, assocPut p (ownerOf n i) pool)
      | None \<Rightarrow> None)"

definition releasePort :: "natRule \<Rightarrow> natInstance \<Rightarrow> portPool \<Rightarrow> portPool" where
  "releasePort n i pool =
     (if instHostPort i \<noteq> 0 \<and> map_of pool (instHostPort i) = Some (ownerOf n i)
      then filter (\<lambda>(p, _). p \<noteq> instHostPort i) pool else pool)"

definition mapTarget :: "prefix list \<Rightarrow> addr list \<Rightarrow> addr option" where
  "mapTarget subnet ips = find (\<lambda>ip. Is4 ip \<and> \<not> IsLoopback ip \<and> \<not> IsLinkLocalUnicast ip \<and> \<not> IsMulticast ip \<and>
     \<not> IsUnspecified ip \<and> list_ex (\<lambda>p. Contains p ip) subnet) ips"

section \<open>Learning\<close>

definition unescapeKeepCase :: "string \<Rightarrow> string \<Rightarrow> string" where
  "unescapeKeepCase name class =
     unescape (trimSuffix (trimSuffix (trimSuffix name ''.'') ''.local'') (''.'' @ class))"

definition dropInstance :: "natInstance \<Rightarrow> natRule \<times> portPool \<Rightarrow> natRule \<times> portPool" where
  "dropInstance i st = (case st of (n, pool) \<Rightarrow>
     let (n', pool') = (if instHostPort i \<noteq> 0
           then (n\<lparr>nrRemoved := nrRemoved n @ [i]\<rparr>, releasePort n i pool) else (n, pool))
     in (n'\<lparr>nrInsts := filter (\<lambda>(k, _). k \<noteq> instKey i) (nrInsts n')\<rparr>, pool'))"

text \<open>The instance a name belongs to, created if its class is translated.\<close>

definition ensureInstance :: "string \<Rightarrow> natRule \<Rightarrow> natInstance option \<times> natRule" where
  "ensureInstance name n = (case classOf name of
       None \<Rightarrow> (None, n)
     | Some class \<Rightarrow>
         if class \<notin> fAllow (nrFilter n) then (None, n)
         else case map_of (nrInsts n) (norm name) of
           Some i \<Rightarrow> (Some i, n)
         | None \<Rightarrow>
             let i = \<lparr>instService = class, instName = unescapeKeepCase name class, instTxt = [], instSubs = {},
                   instPort = 0, instHost = [], instIP = NoAddr, instHostPort = 0, instExpires = None\<rparr>
             in (Some i, n\<lparr>nrInsts := assocPut (norm name) i (nrInsts n)\<rparr>))"

definition putInstance :: "string \<Rightarrow> natInstance \<Rightarrow> natRule \<Rightarrow> natRule" where
  "putInstance name i n = n\<lparr>nrInsts := assocPut (norm name) i (nrInsts n)\<rparr>"

definition seconds :: "int \<Rightarrow> int" where
  "seconds s = s * 1000000000"

record learning =
  lnRule :: natRule
  lnPool :: portPool
  lnAnnounced :: "(string \<times> addr list \<times> int) list"
  lnChanged :: bool

definition goodbye :: "string \<Rightarrow> learning \<Rightarrow> learning" where
  "goodbye name l = (case map_of (nrInsts (lnRule l)) (norm name) of
       None \<Rightarrow> l
     | Some i \<Rightarrow> (case dropInstance i (lnRule l, lnPool l) of (n, pool) \<Rightarrow>
         l\<lparr>lnRule := n, lnPool := pool, lnChanged := True\<rparr>))"

definition learnA :: "int \<Rightarrow> rr \<Rightarrow> addr \<Rightarrow> learning \<Rightarrow> learning" where
  "learnA now r ip l =
     (let host = norm (rrName r); n = lnRule l; expiry = now + seconds (rrTtl r)
      in if \<not> Is4 ip then l
         else if rrTtl r = 0 then l\<lparr>lnRule := n\<lparr>nrHosts := filter (\<lambda>(h, _). h \<noteq> host) (nrHosts n)\<rparr>\<rparr>
         else l\<lparr>lnAnnounced := assocPut host (case map_of (lnAnnounced l) host of
                  None \<Rightarrow> ([ip], expiry)
                | Some (ips, old) \<Rightarrow> (ips @ [ip], if old < expiry then expiry else old)) (lnAnnounced l)\<rparr>)"

definition learnPTR :: "rr \<Rightarrow> string \<Rightarrow> learning \<Rightarrow> learning" where
  "learnPTR r target l = (case classOf (rrName r) of
       None \<Rightarrow> l
     | Some class \<Rightarrow>
         if class \<notin> fAllow (nrFilter (lnRule l)) then l
         else if rrTtl r = 0 then goodbye target l
         else case ensureInstance target (lnRule l) of
           (None, n) \<Rightarrow> l\<lparr>lnRule := n\<rparr>
         | (Some i, n) \<Rightarrow>
             let sub = hd (splitOn CHR ''.'' (norm (rrName r)))
             in if containsStr (norm (rrName r)) ''._sub.'' \<and> sub \<notin> instSubs i
                then l\<lparr>lnRule := putInstance target (i\<lparr>instSubs := insert sub (instSubs i)\<rparr>) n, lnChanged := True\<rparr>
                else l\<lparr>lnRule := n\<rparr>)"

definition learnSRV :: "int \<Rightarrow> rr \<Rightarrow> int \<Rightarrow> string \<Rightarrow> learning \<Rightarrow> learning" where
  "learnSRV now r port target l =
     (if rrTtl r = 0 then goodbye (rrName r) l
      else case ensureInstance (rrName r) (lnRule l) of
        (None, n) \<Rightarrow> l\<lparr>lnRule := n\<rparr>
      | (Some i, n) \<Rightarrow>
          let moved = (instHost i \<noteq> norm target \<or> instPort i \<noteq> port);
              i' = (if moved then i\<lparr>instHost := norm target, instPort := port\<rparr> else i)
          in l\<lparr>lnRule := putInstance (rrName r) (i'\<lparr>instExpires := Some (now + seconds (rrTtl r))\<rparr>) n,
               lnChanged := (lnChanged l \<or> moved)\<rparr>)"

definition learnTXT :: "rr \<Rightarrow> string list \<Rightarrow> learning \<Rightarrow> learning" where
  "learnTXT r txt l = (case ensureInstance (rrName r) (lnRule l) of
       (None, n) \<Rightarrow> l\<lparr>lnRule := n\<rparr>
     | (Some i, n) \<Rightarrow>
         if rrTtl r > 0 \<and> joinWith [CHR 0x00] (instTxt i) \<noteq> joinWith [CHR 0x00] txt
         then l\<lparr>lnRule := putInstance (rrName r) (i\<lparr>instTxt := txt\<rparr>) n, lnChanged := True\<rparr>
         else l\<lparr>lnRule := n\<rparr>)"

definition learnRecord :: "int \<Rightarrow> learning \<Rightarrow> rr \<Rightarrow> learning" where
  "learnRecord now l r = (case rrData r of
       RA ip \<Rightarrow> learnA now r ip l
     | RPTR target \<Rightarrow> learnPTR r target l
     | RSRV port target \<Rightarrow> learnSRV now r port target l
     | RTXT txt \<Rightarrow> learnTXT r txt l
     | _ \<Rightarrow> l)"

text \<open>Mapping one instance once the address of its host is known.\<close>

definition mapInstance :: "int \<Rightarrow> prefix list \<Rightarrow> learning \<Rightarrow> string \<Rightarrow> learning" where
  "mapInstance now subnet l k = (case map_of (nrInsts (lnRule l)) k of
       None \<Rightarrow> l
     | Some i \<Rightarrow> (case map_of (nrHosts (lnRule l)) (instHost i) of
         None \<Rightarrow> l
       | Some (ips, expiry) \<Rightarrow>
           if \<not> now < expiry \<or> instPort i = 0 then l
           else case mapTarget subnet ips of
             None \<Rightarrow> l
           | Some ip \<Rightarrow>
               if instIP i \<noteq> ip \<or> instHostPort i = 0 then
                 (let n = lnRule l; pool = releasePort n i (lnPool l); i' = i\<lparr>instHostPort := 0, instIP := ip\<rparr>
                  in case allocatePort n i' pool of
                       None \<Rightarrow> l\<lparr>lnRule := n\<lparr>nrInsts := assocPut k i' (nrInsts n)\<rparr>, lnPool := pool\<rparr>
                     | Some (i'', pool') \<Rightarrow>
                         l\<lparr>lnRule := n\<lparr>nrInsts := assocPut k i'' (nrInsts n)\<rparr>, lnPool := pool', lnChanged := True\<rparr>)
               else l))"

definition learnMsg ::
  "(string list \<Rightarrow> string list) \<Rightarrow> int \<Rightarrow> prefix list \<Rightarrow> msg \<Rightarrow> natRule \<Rightarrow> portPool \<Rightarrow> bool \<times> natRule \<times> portPool" where
  "learnMsg ord now subnet m n pool =
     (let l1 = foldl (learnRecord now) \<lparr>lnRule = n, lnPool = pool, lnAnnounced = [], lnChanged = False\<rparr>
            (mAnswer m @ mExtra m);
          n1 = lnRule l1;
          n2 = n1\<lparr>nrHosts := foldl (\<lambda>hs (h, x). assocPut h x hs) (nrHosts n1) (lnAnnounced l1)\<rparr>;
          l2 = foldl (mapInstance now subnet) (l1\<lparr>lnRule := n2\<rparr>) (ord (map fst (nrInsts n2)))
      in (lnChanged l2, lnRule l2, lnPool l2))"

definition expireKey :: "int \<Rightarrow> natRule \<times> portPool \<times> bool \<Rightarrow> string \<Rightarrow> natRule \<times> portPool \<times> bool" where
  "expireKey now st k = (case st of (n, pool, changed) \<Rightarrow>
     (case map_of (nrInsts n) k of
        Some i \<Rightarrow> (case instExpires i of
            Some e \<Rightarrow> if \<not> now < e then (case dropInstance i (n, pool) of (n', pool') \<Rightarrow> (n', pool', True)) else st
          | None \<Rightarrow> st)
      | None \<Rightarrow> st))"

definition expireRule ::
  "(string list \<Rightarrow> string list) \<Rightarrow> int \<Rightarrow> natRule \<Rightarrow> portPool \<Rightarrow> bool \<times> natRule \<times> portPool" where
  "expireRule ord now n pool = (case foldl (expireKey now) (n, pool, False) (ord (map fst (nrInsts n))) of
     (n', pool', changed) \<Rightarrow>
       (changed, n'\<lparr>nrHosts := filter (\<lambda>(_, _, e). now < e) (nrHosts n')\<rparr>, pool'))"

section \<open>The table\<close>

record natMapping =
  nmTo :: string
  nmProto :: string
  nmPort :: int
  nmTarget :: addr
  nmTargetPort :: int

definition protoOf :: "string \<Rightarrow> string" where
  "protoOf service = (if hasSuffix service ''._udp'' then ''udp'' else ''tcp'')"

definition publishedInsts :: "natRule \<Rightarrow> natInstance list" where
  "publishedInsts n = sort_key instKey
     (filter (\<lambda>i. instHostPort i \<noteq> 0 \<and> instIP i \<noteq> NoAddr) (map snd (nrInsts n)))"

definition mappings :: "natRule \<Rightarrow> natMapping list" where
  "mappings n = map (\<lambda>i. \<lparr>nmTo = niName (nrTo n), nmProto = protoOf (instService i), nmPort = instHostPort i,
     nmTarget = instIP i, nmTargetPort = instPort i\<rparr>) (publishedInsts n)"

definition natTable :: string where "natTable = ''ghostd_mdns_nat''"

definition renderNAT :: "natMapping list \<Rightarrow> string" where
  "renderNAT maps =
     (let nl = [CHR 0x0A]; head = ''add table inet '' @ natTable @ nl @ ''delete table inet '' @ natTable @ nl
      in if maps = [] then head
         else head @ ''table inet '' @ natTable @ '' {'' @ nl @ ''  chain prerouting {'' @ nl @
           ''    type nat hook prerouting priority dstnat; policy accept;'' @ nl @
           concat (map (\<lambda>m. ''    iifname '' @ quoteStr (nmTo m) @ '' fib daddr type local '' @ nmProto m @
             '' dport '' @ itoa (nmPort m) @ '' dnat ip to '' @ addrString (nmTarget m) @ '':'' @ itoa (nmTargetPort m) @ nl)
             (sort_key (\<lambda>m. (nmTo m, nmProto m, nmPort m)) maps)) @
           ''  }'' @ nl @ ''}'' @ nl)"

section \<open>The published view\<close>

definition hostLabel :: "natRule \<Rightarrow> natInstance \<Rightarrow> string" where
  "hostLabel n i =
     (let label = trimSuffix (instHost i) ''.local.''
      in if \<not> hasSuffix (instHost i) ''.local.'' \<or> \<not> hostRE label \<or> label \<in> set (nrReserved n)
         then nrLabel n else label)"

definition answererFor :: "natRule \<Rightarrow> natInstance list \<Rightarrow> (string \<Rightarrow> prefix list result) \<Rightarrow> answerer" where
  "answererFor n insts addrs =
     \<lparr>anCfg = zeroMdns\<lparr>mcHost := nrLabel n,
        mcRecords := map (\<lambda>i. \<lparr>mrService = instService i, mrInstance = instName i, mrPort = instHostPort i mod 65536,
          mrTXT = instTxt i, mrSubtypes = sorted_list_of_set (instSubs i), mrHost = hostLabel n i\<rparr>) insts\<rparr>,
      anAddrs = (\<lambda>iface. case addrs iface of
        Inl e \<Rightarrow> Inl e | Inr ps \<Rightarrow> Inr (filter (\<lambda>p. Is4 (pfxAddr p)) ps))\<rparr>"

lemmas nat_defs [go_defs] =
  instKey_def ownerOf_def trimDashes_def natLabel_def newNATRule_def fnv32a_def portCandidates_def
  allocatePort_def releasePort_def mapTarget_def unescapeKeepCase_def dropInstance_def
  ensureInstance_def putInstance_def seconds_def goodbye_def learnA_def learnPTR_def learnSRV_def
  learnTXT_def learnRecord_def mapInstance_def learnMsg_def expireKey_def expireRule_def
  protoOf_def publishedInsts_def mappings_def natTable_def renderNAT_def hostLabel_def
  answererFor_def

end
