(* ===== verification/Mdns_Service.thy ===== *)
theory Mdns_Service
  imports Mdns_Nat Wellknown
begin

text \<open>
  The running mDNS service (\<^verbatim>\<open>internal/mdns/service.go\<close>, the \<^verbatim>\<open>running\<close> methods of \<^verbatim>\<open>nat.go\<close>, and
  the watcher of \<^verbatim>\<open>cmd/ghostd/mdns_feature.go\<close>): resolving a configuration against the interfaces
  of the host, handling a packet, sweeping, and replacing one configuration by another.  Sockets are
  what the service hands to them; the wire form of a message is the DNS library's.
\<close>

section \<open>Resolving endpoints\<close>

definition endpointLimit :: nat where "endpointLimit = 32"

definition endpoints :: "string \<Rightarrow> netIface list \<Rightarrow> netIface list result" where
  "endpoints name ifs =
     (if \<not> hasPattern name then
        (case find (\<lambda>i. niName i = name) ifs of
           Some i \<Rightarrow> if niMulticast i then Inr [i] else Fail ''mdns: interface is not multicast capable''
         | None \<Rightarrow> Fail ''mdns: interface: not found'')
      else if list_ex (\<lambda>i. pathMatch name (niName i) = None) ifs then Fail ''mdns: bad interface pattern''
      else let out = filter (\<lambda>i. pathMatch name (niName i) = Some True \<and> niMulticast i \<and> niUp i) ifs
      in if length out > endpointLimit then Fail ''mdns: pattern matches too many interfaces''
         else if out = [] then Fail ''mdns: pattern matches no usable interface''
         else Inr out)"

record mdnsPlan =
  mpIfaces :: "(int \<times> netIface) list"
  mpAdvertise :: "int list"
  mpEdges :: "relaying list"
  mpNats :: "natRule list"

definition noPlan :: mdnsPlan where
  "noPlan = \<lparr>mpIfaces = [], mpAdvertise = [], mpEdges = [], mpNats = []\<rparr>"

definition putIface :: "mdnsPlan \<Rightarrow> netIface \<Rightarrow> mdnsPlan" where
  "putIface pl i = pl\<lparr>mpIfaces := assocPut (niIndex i) i (mpIfaces pl)\<rparr>"

definition planAdvertised :: "netIface list \<Rightarrow> mdnsPlan \<Rightarrow> string \<Rightarrow> mdnsPlan result" where
  "planAdvertised ifs pl name =
     bindR (endpoints name ifs) (\<lambda>matched. let i = hd matched in
     Inr ((putIface pl i)\<lparr>mpAdvertise := List.insert (niIndex i) (mpAdvertise pl)\<rparr>))"

definition planPair :: "reflectRule \<Rightarrow> string list \<Rightarrow> mdnsPlan \<Rightarrow> netIface \<times> netIface \<Rightarrow> mdnsPlan result" where
  "planPair rule reserved pl p = (case p of (a, b) \<Rightarrow>
     if niIndex a = niIndex b then Inr pl
     else case rfAdvertise rule of
            None \<Rightarrow> Inr (pl\<lparr>mpEdges := mpEdges pl @ [\<lparr>rlCfg = rule, rlFrom = niIndex a, rlTo = niIndex b\<rparr>]\<rparr>)
          | Some cfg \<Rightarrow> bindR (newNATRule cfg a b reserved) (\<lambda>n. Inr (pl\<lparr>mpNats := mpNats pl @ [n]\<rparr>)))"

definition planRule :: "netIface list \<Rightarrow> string list \<Rightarrow> mdnsPlan \<Rightarrow> reflectRule \<Rightarrow> mdnsPlan result" where
  "planRule ifs reserved pl rule =
     bindR (endpoints (rfFrom rule) ifs) (\<lambda>froms.
     bindR (endpoints (rfTo rule) ifs) (\<lambda>tos.
     foldR (planPair rule reserved) (foldl putIface pl (froms @ tos)) (concat (map (\<lambda>a. map (\<lambda>b. (a, b)) tos) froms))))"

definition planRules :: "mdnsConfig \<Rightarrow> netIface list \<Rightarrow> string list \<Rightarrow> mdnsPlan result" where
  "planRules cfg ifs reserved =
     bindR (if mcRecords cfg = [] then Inr noPlan else foldR (planAdvertised ifs) noPlan (mcInterfaces cfg)) (\<lambda>pl.
     foldR (planRule ifs reserved) pl (mcReflect cfg))"

section \<open>The running service\<close>

record udpAddr =
  uaIP :: addr
  uaPort :: int

datatype mdnsDest = Group4 | Group6 | Unicast udpAddr

text \<open>What leaves the service: a message on an IPv4 or IPv6 socket, or a table for nft.\<close>

datatype mdnsOut = SendOn bool int mdnsDest msg | NftTable string

record running =
  rnAnswerer :: answerer
  rnIfaces :: "(int \<times> netIface) list"
  rnAdvertise :: "int list"
  rnRelays :: "relay list"
  rnNats :: "natRule list"
  rnPools :: "(int \<times> portPool) list"
  rnSix :: bool
  rnProbing :: bool
  rnClash :: string

definition emitMsg :: "running \<Rightarrow> int \<Rightarrow> msg \<Rightarrow> mdnsOut list" where
  "emitMsg r i m = SendOn False i Group4 m # (if rnSix r then [SendOn True i Group6 m] else [])"

definition forwardMsg :: "running \<Rightarrow> bool \<Rightarrow> int \<Rightarrow> msg \<Rightarrow> mdnsOut list" where
  "forwardMsg r v6 i m = (if v6 then (if rnSix r then [SendOn True i Group6 m] else [])
     else [SendOn False i Group4 m])"

definition ownAddress :: "running \<Rightarrow> addr \<Rightarrow> bool" where
  "ownAddress r ip = list_ex (\<lambda>(_, i). case anAddrs (rnAnswerer r) (niName i) of
       Inr ps \<Rightarrow> list_ex (\<lambda>p. pfxAddr p = Unmap ip) ps | Inl _ \<Rightarrow> False) (rnIfaces r)"

text \<open>A querier that is not on the mDNS port gets its answer by unicast, with short lives.\<close>

definition legacyRecord :: "rr \<Rightarrow> rr" where
  "legacyRecord x = x\<lparr>rrClass := ClassINET, rrTtl := (if rrTtl x > 10 then 10 else rrTtl x)\<rparr>"

definition replyMsg :: "running \<Rightarrow> msg \<Rightarrow> msg \<Rightarrow> udpAddr \<Rightarrow> int \<Rightarrow> bool \<Rightarrow> mdnsOut list" where
  "replyMsg r m resp src i v6 =
     (let legacy = (uaPort src \<noteq> PortMDNS);
          unicast = (legacy \<or> list_ex (\<lambda>q. qClass q div 0x8000 mod 2 = 1) (mQuestion m));
          resp' = (if unicast then resp\<lparr>mId := mId m, mQuestion := mQuestion m,
            mAnswer := (if legacy then map legacyRecord (mAnswer resp) else mAnswer resp),
            mExtra := (if legacy then map legacyRecord (mExtra resp) else mExtra resp)\<rparr> else resp);
          dst = (if unicast then Unicast src else if v6 then Group6 else Group4)
      in if v6 then (if rnSix r then [SendOn True i dst resp'] else []) else [SendOn False i dst resp'])"

subsection \<open>Translation\<close>

definition poolOf :: "running \<Rightarrow> natRule \<Rightarrow> portPool" where
  "poolOf r n = (case map_of (rnPools r) (niIndex (nrTo n)) of Some p \<Rightarrow> p | None \<Rightarrow> [])"

definition setRule :: "nat \<Rightarrow> natRule \<Rightarrow> portPool \<Rightarrow> running \<Rightarrow> running" where
  "setRule j n pool r = r\<lparr>rnNats := (rnNats r)[j := n], rnPools := assocPut (niIndex (nrTo n)) pool (rnPools r)\<rparr>"

definition natMaps :: "running \<Rightarrow> natMapping list" where
  "natMaps r = concat (map mappings (rnNats r))"

definition applyNAT :: "running \<Rightarrow> mdnsOut list" where
  "applyNAT r = (if rnNats r = [] then [] else [NftTable (renderNAT (natMaps r))])"

definition respond :: "rr list \<Rightarrow> msg" where
  "respond rrs = newMsg\<lparr>mResponse := True, mAuthoritative := True, mAnswer := rrs\<rparr>"

definition announceNAT :: "nat \<Rightarrow> int \<Rightarrow> running \<Rightarrow> mdnsOut list \<times> running" where
  "announceNAT j ttl r =
     (let n = rnNats r ! j; addrs = anAddrs (rnAnswerer r); i = niIndex (nrTo n);
          name = (case map_of (rnIfaces r) i of Some f \<Rightarrow> niName f | None \<Rightarrow> []);
          rrs = allRecords (answererFor n (publishedInsts n) addrs) name ttl;
          gone = filter (\<lambda>x. rrType x \<in> {TypePTR, TypeSRV, TypeTXT}) (allRecords (answererFor n (nrRemoved n) addrs) name 0);
          sent = (if rrs \<noteq> [] then emitMsg r i (respond rrs) else []) @
            (if nrRemoved n \<noteq> [] \<and> ttl \<noteq> 0 \<and> gone \<noteq> [] then emitMsg r i (respond gone) else [])
      in (sent, r\<lparr>rnNats := (rnNats r)[j := n\<lparr>nrRemoved := []\<rparr>]\<rparr>))"

text \<open>What follows a change of one rule: the whole table again, and an announcement.\<close>

definition afterChange :: "bool \<Rightarrow> nat \<Rightarrow> running \<Rightarrow> mdnsOut list \<times> running" where
  "afterChange changed j r =
     (if changed then (case announceNAT j ttlService r of (sent, r') \<Rightarrow> (applyNAT r @ sent, r')) else ([], r))"

definition subnetOf :: "running \<Rightarrow> natRule \<Rightarrow> prefix list" where
  "subnetOf r n = (case anAddrs (rnAnswerer r) (niName (nrFrom n)) of Inr ps \<Rightarrow> ps | Inl _ \<Rightarrow> [])"

definition natLearnAt ::
  "(string list \<Rightarrow> string list) \<Rightarrow> int \<Rightarrow> msg \<Rightarrow> int \<Rightarrow> mdnsOut list \<times> running \<Rightarrow> nat \<Rightarrow> mdnsOut list \<times> running" where
  "natLearnAt ord now m i st j = (case st of (sent, r) \<Rightarrow>
     let n = rnNats r ! j
     in if i \<noteq> niIndex (nrFrom n) \<or> \<not> mResponse m then st
        else case learnMsg ord now (subnetOf r n) m n (poolOf r n) of (changed, n', pool) \<Rightarrow>
          (case afterChange changed j (setRule j n' pool r) of (outs, r') \<Rightarrow> (sent @ outs, r')))"

definition natLearn ::
  "(string list \<Rightarrow> string list) \<Rightarrow> int \<Rightarrow> msg \<Rightarrow> int \<Rightarrow> running \<Rightarrow> mdnsOut list \<times> running" where
  "natLearn ord now m i r = foldl (natLearnAt ord now m i) ([], r) [0..<length (rnNats r)]"

definition ifaceName :: "running \<Rightarrow> int \<Rightarrow> string" where
  "ifaceName r i = (case map_of (rnIfaces r) i of Some f \<Rightarrow> niName f | None \<Rightarrow> [])"

definition natAnswer ::
  "(rr \<Rightarrow> string) \<Rightarrow> int \<Rightarrow> msg \<Rightarrow> udpAddr \<Rightarrow> int \<Rightarrow> bool \<Rightarrow> running \<Rightarrow> mdnsOut list" where
  "natAnswer rrText now m src i v6 r =
     (if mResponse m then []
      else concat (map (\<lambda>n.
        if i \<noteq> niIndex (nrTo n) then []
        else (case answerMsg rrText (answererFor n (publishedInsts n) (anAddrs (rnAnswerer r))) m (ifaceName r i) of
                Some resp \<Rightarrow> replyMsg r m resp src i v6 | None \<Rightarrow> []) @
             (case Queries (nrFilter n) now m of
                Some q \<Rightarrow> forwardMsg r v6 (niIndex (nrFrom n)) q | None \<Rightarrow> [])) (rnNats r)))"

definition sweepAt ::
  "(string list \<Rightarrow> string list) \<Rightarrow> int \<Rightarrow> mdnsOut list \<times> running \<Rightarrow> nat \<Rightarrow> mdnsOut list \<times> running" where
  "sweepAt ord now st j = (case st of (sent, r) \<Rightarrow>
     let n = rnNats r ! j
     in case expireRule ord now n (poolOf r n) of (changed, n', pool) \<Rightarrow>
          (case afterChange changed j (setRule j n' pool r) of (outs, r') \<Rightarrow> (sent @ outs, r')))"

definition sweepNAT :: "(string list \<Rightarrow> string list) \<Rightarrow> int \<Rightarrow> running \<Rightarrow> mdnsOut list \<times> running" where
  "sweepNAT ord now r = foldl (sweepAt ord now) ([], r) [0..<length (rnNats r)]"

subsection \<open>A packet\<close>

definition handleMsg ::
  "(rr \<Rightarrow> string) \<Rightarrow> (string list \<Rightarrow> string list) \<Rightarrow> int \<Rightarrow> msg \<Rightarrow> udpAddr \<Rightarrow> int \<Rightarrow> bool \<Rightarrow> running \<Rightarrow>
   mdnsOut list \<times> running" where
  "handleMsg rrText ord now m src i v6 r =
     (if map_of (rnIfaces r) i = None \<or> ownAddress r (uaIP src) then ([], r)
      else case reflectMsg now m i (rnRelays r) of (forwarded, relays) \<Rightarrow>
        case natLearn ord now m i (r\<lparr>rnRelays := relays\<rparr>) of (learned, r1) \<Rightarrow>
        let sent = concat (map (\<lambda>(t, x). forwardMsg r v6 t x) forwarded) @ learned @
              natAnswer rrText now m src i v6 r1
        in if i \<notin> set (rnAdvertise r1) then (sent, r1)
           else if mResponse m then
             (sent, if rnProbing r1 \<and> conflicts (rnAnswerer r1) m \<noteq> [] \<and> rnClash r1 = []
                    then r1\<lparr>rnClash := conflicts (rnAnswerer r1) m\<rparr> else r1)
           else (sent @ (case answerMsg rrText (rnAnswerer r1) m (ifaceName r1 i) of
                   Some resp \<Rightarrow> replyMsg r1 m resp src i v6 | None \<Rightarrow> []), r1))"

section \<open>Starting and replacing\<close>

text \<open>
  What the host answers to a start: its interfaces and their addresses, whether the IPv4 port can
  be bound, which interfaces can join the group, whether IPv6 works, and the responses heard while
  the names are probed.
\<close>

record startNet =
  snIfaces :: "netIface list result"
  snAddrs :: "string \<Rightarrow> prefix list result"
  snBind :: bool
  snJoin :: "string \<Rightarrow> bool"
  snSix :: bool
  snHeard :: "msg list"

definition firstClash :: "answerer \<Rightarrow> msg list \<Rightarrow> string" where
  "firstClash a ms = (case find (\<lambda>m. conflicts a m \<noteq> []) ms of Some m \<Rightarrow> conflicts a m | None \<Rightarrow> [])"

definition announceAll :: "int \<Rightarrow> running \<Rightarrow> mdnsOut list" where
  "announceAll ttl r = concat (map (\<lambda>i.
     let m = respond (allRecords (rnAnswerer r) (ifaceName r i) ttl)
     in emitMsg r i m) (rnAdvertise r))"

text \<open>Every name about to be claimed is asked for three times.\<close>

definition probeAll :: "running \<Rightarrow> mdnsOut list" where
  "probeAll r =
     (let a = rnAnswerer r;
          q = newMsg\<lparr>mQuestion := map (\<lambda>n. \<lparr>qName = n, qType = TypeANY, qClass = ClassFlush\<rparr>)
            (hostNames a @ map instanceName (mcRecords (anCfg a)))\<rparr>
      in concat (replicate 3 (map (\<lambda>i. SendOn False i Group4 q) (rnAdvertise r))))"

definition stopNAT :: "running \<Rightarrow> mdnsOut list" where
  "stopNAT r =
     fst (foldl (\<lambda>(sent, r) j. case announceNAT j 0 r of (outs, r') \<Rightarrow> (sent @ outs, r')) ([], r) [0..<length (rnNats r)]) @
     (if rnNats r \<noteq> [] then [NftTable (renderNAT [])] else [])"

definition stopMdns :: "running \<Rightarrow> mdnsOut list" where
  "stopMdns r = stopNAT r @ announceAll 0 r"

definition startMdns :: "startNet \<Rightarrow> mdnsConfig \<Rightarrow> mdnsOut list \<times> running result" where
  "startMdns e cfg =
     (case bindR (snIfaces e) (\<lambda>ifs. planRules cfg ifs (if mcHost cfg \<noteq> [] then [mcHost cfg] else [])) of
        Inl err \<Rightarrow> ([], Inl err)
      | Inr pl \<Rightarrow>
          let a = \<lparr>anCfg = cfg, anAddrs = snAddrs e\<rparr>;
              r = \<lparr>rnAnswerer = a, rnIfaces = mpIfaces pl, rnAdvertise = mpAdvertise pl,
                rnRelays = planRelays (mpEdges pl), rnNats = mpNats pl, rnPools = [], rnSix = snSix e,
                rnProbing = False, rnClash = []\<rparr>
          in if \<not> snBind e then ([], Fail ''mdns: cannot bind UDP (is another mDNS daemon running?)'')
             else if \<not> list_all (\<lambda>(_, i). snJoin e (niName i)) (mpIfaces pl) then ([], Fail ''mdns: join'')
             else if mcRecords cfg = [] then (applyNAT r, Inr r)
             else if firstClash a (snHeard e) \<noteq> []
             then (applyNAT r @ probeAll r, Fail ''mdns: name is already advertised by another host on the LAN'')
             else (applyNAT r @ probeAll r @ announceAll ttlService r, Inr r))"

record mdnsService =
  svConfig :: mdnsConfig
  svRun :: "running option"

definition newService :: mdnsService where
  "newService = \<lparr>svConfig = zeroMdns, svRun = None\<rparr>"

text \<open>
  \<^verbatim>\<open>Service.Apply\<close>: the old set is stopped to free the port, and started again when the new one
  does not start.  The second environment is the host at that moment.
\<close>

definition applyMdns ::
  "startNet \<Rightarrow> startNet \<Rightarrow> mdnsConfig \<Rightarrow> mdnsService \<Rightarrow> unit result \<times> mdnsOut list \<times> mdnsService" where
  "applyMdns e e' cfg s = (case validateMdns cfg of
       Inl err \<Rightarrow> (Inl err, [], s)
     | Inr _ \<Rightarrow>
         let bye = (case svRun s of Some old \<Rightarrow> stopMdns old | None \<Rightarrow> [])
         in if emptyMdns cfg then (Inr (), bye, \<lparr>svConfig = cfg, svRun = None\<rparr>)
            else case startMdns e cfg of
              (outs, Inr r) \<Rightarrow> (Inr (), bye @ outs, \<lparr>svConfig = cfg, svRun = Some r\<rparr>)
            | (outs, Inl err) \<Rightarrow>
                if svRun s = None then (Inl err, bye @ outs, s)
                else (case startMdns e' (svConfig s) of
                    (again, Inr r) \<Rightarrow> (Inl err, bye @ outs @ again, s\<lparr>svRun := Some r\<rparr>)
                  | (again, Inl _) \<Rightarrow> (Inl err, bye @ outs @ again, s\<lparr>svRun := None\<rparr>)))"

definition closeMdns :: "mdnsService \<Rightarrow> mdnsOut list \<times> mdnsService" where
  "closeMdns s = ((case svRun s of Some r \<Rightarrow> stopMdns r | None \<Rightarrow> []), s\<lparr>svRun := None\<rparr>)"

text \<open>One turn of the watcher, on the stored target.\<close>

definition watchMdns :: "startNet \<Rightarrow> startNet \<Rightarrow> bytes \<Rightarrow> mdnsService \<Rightarrow> mdnsService" where
  "watchMdns e e' raw s = (case parseMdns raw of
       Inl _ \<Rightarrow> s
     | Inr want \<Rightarrow> if want = svConfig s then s else snd (snd (applyMdns e e' want s)))"

lemmas service_defs [go_defs] =
  endpointLimit_def endpoints_def noPlan_def putIface_def planAdvertised_def planPair_def
  planRule_def planRules_def emitMsg_def forwardMsg_def ownAddress_def
  legacyRecord_def replyMsg_def poolOf_def setRule_def natMaps_def applyNAT_def respond_def
  announceNAT_def afterChange_def subnetOf_def natLearnAt_def natLearn_def ifaceName_def
  natAnswer_def sweepAt_def sweepNAT_def handleMsg_def firstClash_def announceAll_def
  probeAll_def stopNAT_def stopMdns_def startMdns_def newService_def
  applyMdns_def closeMdns_def watchMdns_def

end
