(* ===== verification/Mdns_Nat_Facts.thy ===== *)
theory Mdns_Nat_Facts
  imports Mdns_Nat
begin

text \<open>
  The pool of ports is exclusive: as long as the names announced on a source have their normal
  form, every translated instance holds a port of the rule's range that nobody else publishing on
  the same interface holds, and is mapped to a usable address the source announced.
\<close>

section \<open>The invariant of a rule\<close>

definition usableTarget :: "addr \<Rightarrow> bool" where
  "usableTarget ip \<longleftrightarrow> Is4 ip \<and> \<not> IsLoopback ip \<and> \<not> IsLinkLocalUnicast ip \<and> \<not> IsMulticast ip \<and> \<not> IsUnspecified ip"

definition instOk :: "natRule \<Rightarrow> portPool \<Rightarrow> string \<Rightarrow> natInstance \<Rightarrow> bool" where
  "instOk n pool k i \<longleftrightarrow> instKey i = k \<and> (instIP i \<noteq> NoAddr \<longrightarrow> usableTarget (instIP i)) \<and>
     (instHostPort i \<noteq> 0 \<longrightarrow> map_of pool (instHostPort i) = Some (ownerOf n i) \<and>
        nrLo n \<le> instHostPort i \<and> instHostPort i \<le> nrHi n)"

definition natOk :: "natRule \<Rightarrow> portPool \<Rightarrow> bool" where
  "natOk n pool \<longleftrightarrow> distinct (map fst (nrInsts n)) \<and> nrLo n \<le> nrHi n \<and> 0 < nrLo n \<and>
     (\<forall>k i. map_of (nrInsts n) k = Some i \<longrightarrow> instOk n pool k i)"

text \<open>An operation of a rule keeps its invariant, its identity, and the ports of other sources.\<close>

definition sameRule :: "natRule \<Rightarrow> natRule \<Rightarrow> bool" where
  "sameRule n n' \<longleftrightarrow> nrFrom n' = nrFrom n \<and> nrTo n' = nrTo n \<and> nrLo n' = nrLo n \<and> nrHi n' = nrHi n \<and>
     nrFilter n' = nrFilter n \<and> nrLabel n' = nrLabel n \<and> nrReserved n' = nrReserved n"

definition ownedBy :: "natRule \<Rightarrow> string \<Rightarrow> bool" where
  "ownedBy n owner \<longleftrightarrow> hasPrefix owner (niName (nrFrom n) @ ''|'')"

definition natStep :: "natRule \<Rightarrow> portPool \<Rightarrow> natRule \<Rightarrow> portPool \<Rightarrow> bool" where
  "natStep n pool n' pool' \<longleftrightarrow> sameRule n n' \<and> natOk n' pool' \<and>
     (\<forall>p owner. map_of pool p = Some owner \<longrightarrow> \<not> ownedBy n owner \<longrightarrow> map_of pool' p = Some owner)"

lemma sameRule_owner: "sameRule n n' \<Longrightarrow> ownerOf n' i = ownerOf n i" "sameRule n n' \<Longrightarrow> ownedBy n' = ownedBy n"
  by (auto simp: sameRule_def ownerOf_def ownedBy_def fun_eq_iff)

lemma ownedBy_owner [simp]: "ownedBy n (ownerOf n i)"
  by (simp add: ownedBy_def ownerOf_def hasPrefix_iff)

lemma owner_key: "ownerOf n i = ownerOf n j \<longleftrightarrow> instKey i = instKey j"
  by (simp add: ownerOf_def)

lemma natStep_refl: "natOk n pool \<Longrightarrow> natStep n pool n pool"
  by (simp add: natStep_def sameRule_def)

lemma natStep_trans: "natStep n p n' p' \<Longrightarrow> natStep n' p' n'' p'' \<Longrightarrow> natStep n p n'' p''"
  by (auto simp: natStep_def sameRule_def ownedBy_def)

lemma natStep_ok: "natStep n p n' p' \<Longrightarrow> natOk n' p'"
  by (simp add: natStep_def)

lemma instOk_insts [simp]: "instOk (n\<lparr>nrInsts := x\<rparr>) = instOk n" "instOk (n\<lparr>nrRemoved := y\<rparr>) = instOk n"
    "instOk (n\<lparr>nrHosts := z\<rparr>) = instOk n"
  by (auto simp: instOk_def ownerOf_def fun_eq_iff)

lemma sameRule_instOk: "sameRule n n' \<Longrightarrow> instOk n' = instOk n"
  by (auto simp: instOk_def sameRule_def ownerOf_def fun_eq_iff)

lemma assocPut_fst: "map fst (assocPut k v m) = map fst (assocPut k w m)"
  by (induction m) auto

text \<open>Replacing or adding one instance that is in order.\<close>

lemma natOk_put:
  assumes "natOk n pool" "instOk n pool k i"
  shows "natOk (n\<lparr>nrInsts := assocPut k i (nrInsts n)\<rparr>) pool"
  using assms by (auto simp: natOk_def instOk_def ownerOf_def distinct_assocPut)

lemma natStep_put:
  assumes "natOk n pool" "instOk n pool k i"
  shows "natStep n pool (n\<lparr>nrInsts := assocPut k i (nrInsts n)\<rparr>) pool"
  using natOk_put [OF assms] by (simp add: natStep_def sameRule_def)

section \<open>Ports\<close>

lemma map_of_without: "map_of (filter (\<lambda>(p, _). p \<noteq> q) pool) x = (if x = q then None else map_of pool x)"
  by (induction pool) auto

lemma release_kept:
  assumes "ownerOf n i \<noteq> owner" "map_of pool p = Some owner"
  shows "map_of (releasePort n i pool) p = Some owner"
proof (cases "instHostPort i \<noteq> 0 \<and> map_of pool (instHostPort i) = Some (ownerOf n i)")
  case True
  then have "p \<noteq> instHostPort i" using assms by auto
  then show ?thesis using True assms(2) by (simp add: releasePort_def map_of_without)
next
  case False
  then show ?thesis using assms(2) by (simp only: releasePort_def if_False)
qed

text \<open>Releasing the port of one instance takes it from no other.\<close>

lemma release_other:
  assumes "natOk n pool" "map_of (nrInsts n) k = Some i" "map_of (nrInsts n) k' = Some j" "k' \<noteq> k"
  shows "instOk n (releasePort n i pool) k' j"
proof -
  have i: "instKey i = k" and j: "instOk n pool k' j" using assms by (auto simp: natOk_def instOk_def)
  have "ownerOf n i \<noteq> ownerOf n j" using i j assms(4) by (auto simp: owner_key instOk_def)
  then have "map_of pool (instHostPort j) = Some (ownerOf n j) \<Longrightarrow>
      map_of (releasePort n i pool) (instHostPort j) = Some (ownerOf n j)"
    by (rule release_kept)
  then show ?thesis using j unfolding instOk_def by blast
qed

lemma release_foreign:
  "map_of pool p = Some owner \<Longrightarrow> \<not> ownedBy n owner \<Longrightarrow> map_of (releasePort n i pool) p = Some owner"
  by (rule release_kept) auto

lemma natOk_unmapped:
  assumes "natOk n pool" "map_of (nrInsts n) k = Some i" "instKey i' = k" "instHostPort i' = 0"
    "instIP i' \<noteq> NoAddr \<longrightarrow> usableTarget (instIP i')"
  shows "natOk (n\<lparr>nrInsts := assocPut k i' (nrInsts n)\<rparr>) (releasePort n i pool)"
  using assms release_other [OF assms(1,2)]
  by (auto simp: natOk_def instOk_def ownerOf_def distinct_assocPut)

lemma dropInstance_step:
  assumes "natOk n pool" "map_of (nrInsts n) k = Some i" "dropInstance i (n, pool) = (n', pool')"
  shows "natStep n pool n' pool'"
proof -
  have k: "instKey i = k" using assms(1,2) by (auto simp: natOk_def instOk_def)
  let ?m = "filter (\<lambda>(j, _). j \<noteq> k) (nrInsts n)"
  have m: "map_of ?m j = (if j = k then None else map_of (nrInsts n) j)" for j by (rule map_of_without)
  have d: "distinct (map fst ?m)" using assms(1) by (simp add: natOk_def distinct_map_filter)
  have ok: "instOk n (if instHostPort i \<noteq> 0 then releasePort n i pool else pool) j x"
    if "map_of (nrInsts n) j = Some x" "j \<noteq> k" for j x
    using release_other [OF assms(1,2) that] assms(1) that by (auto simp: natOk_def)
  have n': "nrInsts n' = ?m" "pool' = (if instHostPort i \<noteq> 0 then releasePort n i pool else pool)" "sameRule n n'"
    using assms(3) k by (auto simp: dropInstance_def sameRule_def split: if_splits)
  have "instOk n' pool' j x" if "map_of (nrInsts n') j = Some x" for j x
  proof -
    have "j \<noteq> k" "map_of (nrInsts n) j = Some x" using that unfolding n'(1) m by (auto split: if_splits)
    then show ?thesis using ok [of j x] n'(2) sameRule_instOk [OF n'(3)] by simp
  qed
  moreover have "nrLo n' \<le> nrHi n'" "0 < nrLo n'" using assms(1) n'(3) by (auto simp: natOk_def sameRule_def)
  ultimately have "natOk n' pool'" using d n'(1) unfolding natOk_def by simp
  moreover have "map_of pool' p = Some owner" if "map_of pool p = Some owner" "\<not> ownedBy n owner" for p owner
    using release_foreign [OF that, of i] that(1) n'(2) by simp
  ultimately show ?thesis using n'(3) unfolding natStep_def by blast
qed

lemma find_mem: "find P xs = Some x \<Longrightarrow> P x \<and> x \<in> set xs"
  by (induction xs) (auto split: if_splits)

lemma portCandidates_range:
  assumes "p \<in> set (portCandidates n i)" "nrLo n \<le> nrHi n"
  shows "nrLo n \<le> p \<and> p \<le> nrHi n"
proof -
  let ?size = "nrHi n - nrLo n + 1"
  obtain x where "p = nrLo n + x mod ?size" using assms(1) by (auto simp: portCandidates_def Let_def)
  moreover have "0 \<le> x mod ?size" "x mod ?size < ?size"
    using assms(2) by (auto intro: pos_mod_bound simp del: zle_add1_eq_le)
  ultimately show ?thesis by linarith
qed

lemma allocatePort_step:
  assumes "natOk (n\<lparr>nrInsts := assocPut k i (nrInsts n)\<rparr>) pool" "instHostPort i = 0" "instIP i \<noteq> NoAddr"
    "allocatePort n i pool = Some (i', pool')"
  shows "natStep (n\<lparr>nrInsts := assocPut k i (nrInsts n)\<rparr>) pool (n\<lparr>nrInsts := assocPut k i' (nrInsts n)\<rparr>) pool'"
proof -
  obtain p where f: "find (\<lambda>p. case map_of pool p of None \<Rightarrow> True | Some held \<Rightarrow> held = ownerOf n i) (portCandidates n i) = Some p"
    and p: "i' = i\<lparr>instHostPort := p\<rparr>" "pool' = assocPut p (ownerOf n i) pool"
    using assms(4) by (auto simp: allocatePort_def split: option.splits)
  have c: "p \<in> set (portCandidates n i)" and free: "map_of pool p = None \<or> map_of pool p = Some (ownerOf n i)"
    using find_mem [OF f] by (auto split: option.splits)
  have range: "nrLo n \<le> p \<and> p \<le> nrHi n"
    using portCandidates_range [OF c] assms(1) by (simp add: natOk_def)
  have key: "instKey i' = instKey i" "ownerOf n i' = ownerOf n i" by (simp_all add: p(1) instKey_def ownerOf_def)
  have "instOk n pool k i" using assms(1) unfolding natOk_def by simp
  then have i: "instKey i = k" "usableTarget (instIP i)" using assms(3) by (auto simp: instOk_def)
  have others: "instOk n pool' j x" if "map_of (nrInsts n) j = Some x" "j \<noteq> k" for j x
  proof -
    have x: "instOk n pool j x" using assms(1) that unfolding natOk_def by simp
    then have "ownerOf n x \<noteq> ownerOf n i" using i that(2) by (auto simp: owner_key instOk_def)
    then show ?thesis using x free unfolding p(2) instOk_def by auto
  qed
  have mine: "instOk n pool' k i'" using range i key by (auto simp: instOk_def p)
  have "distinct (map fst (assocPut k i' (nrInsts n)))"
    using assms(1) by (simp add: natOk_def assocPut_fst [of k i' "nrInsts n" i])
  then have "natOk (n\<lparr>nrInsts := assocPut k i' (nrInsts n)\<rparr>) pool'"
    using others mine assms(1) by (auto simp: natOk_def split: if_splits)
  moreover have "map_of pool' q = Some owner" if "map_of pool q = Some owner" "\<not> ownedBy n owner" for q owner
    using free that unfolding p(2) by auto
  moreover have "sameRule (n\<lparr>nrInsts := assocPut k i (nrInsts n)\<rparr>) (n\<lparr>nrInsts := assocPut k i' (nrInsts n)\<rparr>)"
    "ownedBy (n\<lparr>nrInsts := assocPut k i (nrInsts n)\<rparr>) = ownedBy n"
    by (simp_all add: sameRule_def ownedBy_def fun_eq_iff)
  ultimately show ?thesis unfolding natStep_def by presburger
qed

section \<open>Learning\<close>

text \<open>
  A name is regular if the instance name recovered from it leads back to it.  Names with the class
  in lower case and no backslash in the instance are; \<open>irregular_name\<close> below shows one that is not.
\<close>

definition regularName :: "string \<Rightarrow> bool" where
  "regularName name \<longleftrightarrow> (case classOf name of
       Some class \<Rightarrow> norm (unescapeKeepCase name class @ ''.'' @ class @ ''.local.'') = norm name
     | None \<Rightarrow> True)"

definition regularRecord :: "rr \<Rightarrow> bool" where
  "regularRecord r \<longleftrightarrow> (case rrData r of
       RPTR target \<Rightarrow> regularName target | RSRV _ _ \<Rightarrow> regularName (rrName r) | RTXT _ \<Rightarrow> regularName (rrName r)
     | _ \<Rightarrow> True)"

definition regularMsg :: "msg \<Rightarrow> bool" where
  "regularMsg m \<longleftrightarrow> list_all regularRecord (mAnswer m @ mExtra m)"

lemma ensureInstance_step:
  assumes "natOk n pool" "regularName name" "ensureInstance name n = (r, n')"
  shows "natStep n pool n' pool \<and> (\<forall>i. r = Some i \<longrightarrow> map_of (nrInsts n') (norm name) = Some i)"
proof (cases "classOf name")
  case None
  then show ?thesis using assms by (auto simp: ensureInstance_def natStep_refl)
next
  case (Some c)
  let ?i = "\<lparr>instService = c, instName = unescapeKeepCase name c, instTxt = [], instSubs = {},
                   instPort = 0, instHost = [], instIP = NoAddr, instHostPort = 0, instExpires = None\<rparr>"
  have "instOk n pool (norm name) ?i"
    using assms(2) Some by (simp add: instOk_def instKey_def regularName_def)
  from natStep_put [OF assms(1) this] show ?thesis
    using assms(1,3) Some by (auto simp: ensureInstance_def natStep_refl Let_def split: if_splits option.splits)
qed

lemma putInstance_step:
  assumes "natOk n pool" "map_of (nrInsts n) (norm name) = Some i" "instKey i' = instKey i" "instIP i' = instIP i"
    "instHostPort i' = instHostPort i"
  shows "natStep n pool (putInstance name i' n) pool"
proof -
  have "instOk n pool (norm name) i" using assms(1,2) by (simp add: natOk_def)
  then have "instOk n pool (norm name) i'" using assms(3-5) by (simp add: instOk_def ownerOf_def)
  then show ?thesis unfolding putInstance_def by (rule natStep_put [OF assms(1)])
qed

text \<open>One name is looked up or created, and its instance replaced by one with the same port.\<close>

lemma ensure_put_step:
  assumes "natOk n pool" "regularName name" "ensureInstance name n = (Some i, n')"
    "instKey i' = instKey i" "instIP i' = instIP i" "instHostPort i' = instHostPort i"
  shows "natStep n pool (putInstance name i' n') pool" "natStep n pool n' pool"
proof -
  note e = ensureInstance_step [OF assms(1-3)]
  then have "natStep n' pool (putInstance name i' n') pool"
    using putInstance_step [of n' pool name i i'] assms(4-6) by (simp add: natStep_def)
  then show "natStep n pool (putInstance name i' n') pool" "natStep n pool n' pool"
    using e natStep_trans by blast+
qed

lemma natStep_hosts: "natOk n pool \<Longrightarrow> natStep n pool (n\<lparr>nrHosts := hs\<rparr>) pool"
  by (simp add: natStep_def sameRule_def natOk_def)

abbreviation learnStep :: "learning \<Rightarrow> learning \<Rightarrow> bool" where
  "learnStep l l' \<equiv> natStep (lnRule l) (lnPool l) (lnRule l') (lnPool l')"

lemma goodbye_step:
  assumes "natOk (lnRule l) (lnPool l)"
  shows "learnStep l (goodbye name l)"
proof (cases "map_of (nrInsts (lnRule l)) (norm name)")
  case None
  then show ?thesis using assms by (simp add: goodbye_def natStep_refl)
next
  case (Some i)
  obtain n' pool' where d: "dropInstance i (lnRule l, lnPool l) = (n', pool')" by force
  show ?thesis using dropInstance_step [OF assms Some d] Some d by (simp add: goodbye_def)
qed

lemma learnPTR_step:
  assumes "natOk (lnRule l) (lnPool l)" "regularName target"
  shows "learnStep l (learnPTR r target l)"
proof -
  obtain x n where e: "ensureInstance target (lnRule l) = (x, n)" by force
  have n: "natStep (lnRule l) (lnPool l) n (lnPool l)" using ensureInstance_step [OF assms e] by simp
  show ?thesis
  proof (cases x)
    case None
    then show ?thesis using e n goodbye_step [OF assms(1)] natStep_refl [OF assms(1)]
      by (auto simp: learnPTR_def split: option.splits)
  next
    case (Some i)
    let ?sub = "hd (splitOn CHR ''.'' (norm (rrName r)))"
    have "natStep (lnRule l) (lnPool l) (putInstance target (i\<lparr>instSubs := insert ?sub (instSubs i)\<rparr>) n) (lnPool l)"
      using ensure_put_step(1) [OF assms e [unfolded Some]] by (simp add: instKey_def)
    then show ?thesis using e Some n goodbye_step [OF assms(1)] natStep_refl [OF assms(1)]
      by (auto simp: learnPTR_def Let_def split: option.splits)
  qed
qed

lemma learnSRV_step:
  assumes "natOk (lnRule l) (lnPool l)" "regularName (rrName r)"
  shows "learnStep l (learnSRV now r port target l)"
proof -
  obtain x n where e: "ensureInstance (rrName r) (lnRule l) = (x, n)" by force
  have n: "natStep (lnRule l) (lnPool l) n (lnPool l)" using ensureInstance_step [OF assms e] by simp
  show ?thesis
  proof (cases x)
    case None
    then show ?thesis using e n goodbye_step [OF assms(1)] by (simp add: learnSRV_def)
  next
    case (Some i)
    let ?i = "if instHost i \<noteq> norm target \<or> instPort i \<noteq> port then i\<lparr>instHost := norm target, instPort := port\<rparr> else i"
    have "natStep (lnRule l) (lnPool l) (putInstance (rrName r) (?i\<lparr>instExpires := Some (now + seconds (rrTtl r))\<rparr>) n) (lnPool l)"
      using ensure_put_step(1) [OF assms e [unfolded Some]] by (simp add: instKey_def)
    then show ?thesis using e Some goodbye_step [OF assms(1)] by (simp add: learnSRV_def Let_def)
  qed
qed

lemma learnTXT_step:
  assumes "natOk (lnRule l) (lnPool l)" "regularName (rrName r)"
  shows "learnStep l (learnTXT r txt l)"
proof -
  obtain x n where e: "ensureInstance (rrName r) (lnRule l) = (x, n)" by force
  have n: "natStep (lnRule l) (lnPool l) n (lnPool l)" using ensureInstance_step [OF assms e] by simp
  show ?thesis
  proof (cases x)
    case None
    then show ?thesis using e n by (simp add: learnTXT_def)
  next
    case (Some i)
    have "natStep (lnRule l) (lnPool l) (putInstance (rrName r) (i\<lparr>instTxt := txt\<rparr>) n) (lnPool l)"
      using ensure_put_step(1) [OF assms e [unfolded Some]] by (simp add: instKey_def)
    then show ?thesis using e Some n by (simp add: learnTXT_def)
  qed
qed

lemma learnA_step: "natOk (lnRule l) (lnPool l) \<Longrightarrow> learnStep l (learnA now r ip l)"
  by (auto simp: learnA_def Let_def natStep_refl natStep_hosts)

lemma learnRecord_step:
  assumes "natOk (lnRule l) (lnPool l)" "regularRecord r"
  shows "learnStep l (learnRecord now l r)"
  using assms learnA_step learnPTR_step learnSRV_step learnTXT_step natStep_refl
  by (auto simp: learnRecord_def regularRecord_def split: rdata.splits)

lemma learnRecords_step:
  "natOk (lnRule l) (lnPool l) \<Longrightarrow> list_all regularRecord rs \<Longrightarrow> learnStep l (foldl (learnRecord now) l rs)"
proof (induction rs arbitrary: l)
  case Nil
  then show ?case by (simp add: natStep_refl)
next
  case (Cons r rs)
  have one: "learnStep l (learnRecord now l r)" using Cons.prems by (simp add: learnRecord_step)
  have "learnStep (learnRecord now l r) (foldl (learnRecord now) (learnRecord now l r) rs)"
    using Cons.IH natStep_ok [OF one] Cons.prems(2) by simp
  then show ?case using natStep_trans [OF one] by simp
qed

section \<open>Mapping\<close>

lemma mapTarget_usable: "mapTarget subnet ips = Some ip \<Longrightarrow> usableTarget ip \<and> ip \<in> set ips \<and> (\<exists>p \<in> set subnet. Contains p ip)"
  unfolding mapTarget_def by (drule find_mem) (auto simp: usableTarget_def list_ex_iff)

lemma usable_addr: "usableTarget ip \<Longrightarrow> ip \<noteq> NoAddr"
  by (auto simp: usableTarget_def Is4_def)

lemma remap_step:
  assumes "natOk n pool" "map_of (nrInsts n) k = Some i" "usableTarget ip" "i' = i\<lparr>instHostPort := 0, instIP := ip\<rparr>"
  shows "natStep n pool (n\<lparr>nrInsts := assocPut k i' (nrInsts n)\<rparr>) (releasePort n i pool)"
proof -
  have "instKey i = k" using assms(1,2) by (auto simp: natOk_def instOk_def)
  then have "instKey i' = k" using assms(4) by (simp add: instKey_def)
  then have "natOk (n\<lparr>nrInsts := assocPut k i' (nrInsts n)\<rparr>) (releasePort n i pool)"
    using natOk_unmapped [OF assms(1,2)] assms(3,4) by simp
  then show ?thesis using release_foreign by (simp add: natStep_def sameRule_def)
qed

lemma mapInstance_step:
  assumes ok: "natOk (lnRule l) (lnPool l)"
  shows "learnStep l (mapInstance now subnet l k)"
proof -
  let ?n = "lnRule l" and ?pool = "lnPool l"
  note same = natStep_refl [OF ok]
  show ?thesis
  proof (cases "\<exists>i ips expiry ip. map_of (nrInsts ?n) k = Some i \<and> map_of (nrHosts ?n) (instHost i) = Some (ips, expiry) \<and>
      now < expiry \<and> instPort i \<noteq> 0 \<and> mapTarget subnet ips = Some ip \<and> (instIP i \<noteq> ip \<or> instHostPort i = 0)")
    case False
    then have "mapInstance now subnet l k = l" by (auto simp: mapInstance_def split: option.splits)
    then show ?thesis using same by simp
  next
    case True
    then obtain i ips expiry ip where i: "map_of (nrInsts ?n) k = Some i" and h: "map_of (nrHosts ?n) (instHost i) = Some (ips, expiry)"
      "now < expiry" "instPort i \<noteq> 0" "mapTarget subnet ips = Some ip" "instIP i \<noteq> ip \<or> instHostPort i = 0" by blast
    let ?i = "i\<lparr>instHostPort := 0, instIP := ip\<rparr>" and ?rel = "releasePort ?n i ?pool"
    have u: "usableTarget ip" using mapTarget_usable [OF h(4)] by simp
    note step = remap_step [OF ok i u refl]
    show ?thesis
    proof (cases "allocatePort ?n ?i ?rel")
      case None
      then show ?thesis using step i h by (simp add: mapInstance_def Let_def)
    next
      case (Some x)
      obtain i' pool' where x: "x = (i', pool')" by force
      have "natStep (?n\<lparr>nrInsts := assocPut k ?i (nrInsts ?n)\<rparr>) ?rel (?n\<lparr>nrInsts := assocPut k i' (nrInsts ?n)\<rparr>) pool'"
        by (rule allocatePort_step) (use natStep_ok [OF step] usable_addr [OF u] Some x in auto)
      then have "natStep ?n ?pool (?n\<lparr>nrInsts := assocPut k i' (nrInsts ?n)\<rparr>) pool'" by (rule natStep_trans [OF step])
      then show ?thesis using Some x i h by (simp add: mapInstance_def Let_def)
    qed
  qed
qed

lemma mapInstances_step:
  "natOk (lnRule l) (lnPool l) \<Longrightarrow> learnStep l (foldl (mapInstance now subnet) l ks)"
proof (induction ks arbitrary: l)
  case Nil
  then show ?case by (simp add: natStep_refl)
next
  case (Cons k ks)
  note one = mapInstance_step [OF Cons.prems, of now subnet k]
  show ?case using natStep_trans [OF one Cons.IH [OF natStep_ok [OF one]]] by simp
qed

lemma learnMsg_step:
  assumes "natOk n pool" "regularMsg m" "learnMsg ord now subnet m n pool = (c, n', pool')"
  shows "natStep n pool n' pool'"
proof -
  let ?l0 = "\<lparr>lnRule = n, lnPool = pool, lnAnnounced = [], lnChanged = False\<rparr>"
  let ?l1 = "foldl (learnRecord now) ?l0 (mAnswer m @ mExtra m)"
  let ?n2 = "lnRule ?l1\<lparr>nrHosts := foldl (\<lambda>hs (h, x). assocPut h x hs) (nrHosts (lnRule ?l1)) (lnAnnounced ?l1)\<rparr>"
  let ?l2 = "foldl (mapInstance now subnet) (?l1\<lparr>lnRule := ?n2\<rparr>) (ord (map fst (nrInsts ?n2)))"
  have 1: "natStep n pool (lnRule ?l1) (lnPool ?l1)"
    using learnRecords_step [of ?l0 "mAnswer m @ mExtra m" now] assms(1,2) unfolding regularMsg_def by simp
  have 2: "natStep (lnRule ?l1) (lnPool ?l1) ?n2 (lnPool ?l1)" using natStep_hosts [OF natStep_ok [OF 1]] .
  have 3: "natStep ?n2 (lnPool ?l1) (lnRule ?l2) (lnPool ?l2)"
    using mapInstances_step [of "?l1\<lparr>lnRule := ?n2\<rparr>"] natStep_ok [OF 2] by simp
  have "n' = lnRule ?l2" "pool' = lnPool ?l2" using assms(3) by (auto simp: learnMsg_def Let_def)
  then show ?thesis using natStep_trans [OF natStep_trans [OF 1 2] 3] by simp
qed

lemma expireKeys_step:
  "natOk n pool \<Longrightarrow> foldl (expireKey now) (n, pool, c) ks = (n', pool', c') \<Longrightarrow> natStep n pool n' pool'"
proof (induction ks arbitrary: n pool c)
  case Nil
  then show ?case by (simp add: natStep_refl)
next
  case (Cons k ks)
  obtain n1 pool1 c1 where one: "expireKey now (n, pool, c) k = (n1, pool1, c1)" by (metis prod_cases3)
  have step: "natStep n pool n1 pool1"
  proof (cases "\<exists>i e. map_of (nrInsts n) k = Some i \<and> instExpires i = Some e \<and> \<not> now < e")
    case False
    then have "expireKey now (n, pool, c) k = (n, pool, c)" by (auto simp: expireKey_def split: option.splits)
    then show ?thesis using one natStep_refl [OF Cons.prems(1)] by simp
  next
    case True
    then obtain i e where i: "map_of (nrInsts n) k = Some i" "instExpires i = Some e" "\<not> now < e" by blast
    obtain n2 pool2 where d: "dropInstance i (n, pool) = (n2, pool2)" by force
    then show ?thesis using one i dropInstance_step [OF Cons.prems(1) i(1) d] by (simp add: expireKey_def)
  qed
  show ?case using natStep_trans [OF step Cons.IH [OF natStep_ok [OF step]]] Cons.prems(2) one by simp
qed

lemma expireRule_step:
  assumes "natOk n pool" "expireRule ord now n pool = (c, n', pool')"
  shows "natStep n pool n' pool'"
proof -
  obtain n1 pool1 c1 where f: "foldl (expireKey now) (n, pool, False) (ord (map fst (nrInsts n))) = (n1, pool1, c1)"
    by (metis prod_cases3)
  note one = expireKeys_step [OF assms(1) f]
  show ?thesis using natStep_trans [OF one natStep_hosts [OF natStep_ok [OF one]]] assms(2) f by (auto simp: expireRule_def)
qed

section \<open>The table of one rule\<close>

lemma mappings_facts:
  assumes "natOk n pool" "m \<in> set (mappings n)"
  shows "nrLo n \<le> nmPort m \<and> nmPort m \<le> nrHi n \<and> usableTarget (nmTarget m) \<and> nmTo m = niName (nrTo n)"
    "\<exists>i. map_of (nrInsts n) (instKey i) = Some i \<and> nmPort m = instHostPort i \<and> map_of pool (nmPort m) = Some (ownerOf n i)"
proof -
  obtain i k where i: "(k, i) \<in> set (nrInsts n)" "instHostPort i \<noteq> 0" "instIP i \<noteq> NoAddr"
    and m: "nmPort m = instHostPort i" "nmTarget m = instIP i" "nmTo m = niName (nrTo n)"
    using assms(2) by (auto simp: mappings_def publishedInsts_def)
  have k: "map_of (nrInsts n) k = Some i" using i(1) assms(1) by (simp add: natOk_def)
  then have ok: "instOk n pool k i" using assms(1) by (auto simp: natOk_def)
  then show "nrLo n \<le> nmPort m \<and> nmPort m \<le> nrHi n \<and> usableTarget (nmTarget m) \<and> nmTo m = niName (nrTo n)"
    using i m by (auto simp: instOk_def)
  have "instKey i = k" using ok by (simp add: instOk_def)
  then show "\<exists>i. map_of (nrInsts n) (instKey i) = Some i \<and> nmPort m = instHostPort i \<and> map_of pool (nmPort m) = Some (ownerOf n i)"
    using k ok i m by (intro exI [of _ i]) (auto simp: instOk_def)
qed

end
