(* ===== verification/Mdns_Service_Facts.thy ===== *)
theory Mdns_Service_Facts
  imports Mdns_Service Mdns_Nat_Facts
begin

text \<open>
  The running service: the ports published on one interface stay exclusive through every packet
  and sweep, and the watcher brings the service to the stored target.
\<close>

section \<open>Sources\<close>

text \<open>
  Two rules that publish on one interface learn from interfaces of different names, no such name
  has a bar, and a name belongs to one interface.
\<close>

definition apart :: "(netIface \<times> netIface) list \<Rightarrow> bool" where
  "apart es \<longleftrightarrow> list_all (\<lambda>e. CHR ''|'' \<notin> set (niName (fst e))) es \<and>
     distinct (map (\<lambda>e. (niName (fst e), niIndex (snd e))) es) \<and>
     list_all (\<lambda>e. list_all (\<lambda>e'. niName (snd e) = niName (snd e') \<longrightarrow> niIndex (snd e) = niIndex (snd e')) es) es"

definition sources :: "natRule list \<Rightarrow> bool" where
  "sources ns \<longleftrightarrow> apart (map (\<lambda>n. (nrFrom n, nrTo n)) ns)"

lemma sources_name: "sources ns \<Longrightarrow> j < length ns \<Longrightarrow> CHR ''|'' \<notin> set (niName (nrFrom (ns ! j)))"
  by (simp add: sources_def apart_def list_all_length)

lemma sources_distinct:
  assumes "sources ns" "j < length ns" "k < length ns" "j \<noteq> k" "niIndex (nrTo (ns ! j)) = niIndex (nrTo (ns ! k))"
  shows "niName (nrFrom (ns ! j)) \<noteq> niName (nrFrom (ns ! k))"
proof -
  let ?xs = "map (\<lambda>e. (niName (fst e), niIndex (snd e))) (map (\<lambda>n. (nrFrom n, nrTo n)) ns)"
  have "distinct ?xs" using assms(1) by (simp add: sources_def apart_def)
  then have "?xs ! j \<noteq> ?xs ! k" using assms(2-4) nth_eq_iff_index_eq [of ?xs j k] by simp
  then show ?thesis using assms(2,3,5) by simp
qed

lemma sources_to:
  assumes "sources ns" "n \<in> set ns" "n' \<in> set ns" "niName (nrTo n) = niName (nrTo n')"
  shows "niIndex (nrTo n) = niIndex (nrTo n')"
proof -
  let ?es = "map (\<lambda>n. (nrFrom n, nrTo n)) ns"
  have "(nrFrom n, nrTo n) \<in> set ?es" "(nrFrom n', nrTo n') \<in> set ?es" using assms(2,3) by auto
  moreover have "\<forall>e \<in> set ?es. \<forall>e' \<in> set ?es. niName (snd e) = niName (snd e') \<longrightarrow> niIndex (snd e) = niIndex (snd e')"
    using assms(1) unfolding sources_def apart_def list_all_iff by blast
  ultimately show ?thesis using assms(4) by fastforce
qed

definition natWorld :: "running \<Rightarrow> bool" where
  "natWorld r \<longleftrightarrow> sources (rnNats r) \<and> (\<forall>n \<in> set (rnNats r). natOk n (poolOf r n) \<and> 1024 \<le> nrLo n \<and> nrHi n \<le> 65535)"

lemma bar_inj: "CHR ''|'' \<notin> set a \<Longrightarrow> CHR ''|'' \<notin> set b \<Longrightarrow> a @ ''|'' @ x = b @ ''|'' @ y \<Longrightarrow> a = b"
  by (induction a arbitrary: b) (auto simp: Cons_eq_append_conv append_eq_Cons_conv; metis list.set_intros(1))+

lemma foreign_owner:
  assumes "CHR ''|'' \<notin> set (niName (nrFrom n))" "CHR ''|'' \<notin> set (niName (nrFrom n'))"
    "niName (nrFrom n) \<noteq> niName (nrFrom n')"
  shows "\<not> ownedBy n (ownerOf n' i)"
proof
  assume "ownedBy n (ownerOf n' i)"
  then obtain x where "niName (nrFrom n') @ ''|'' @ instKey i = niName (nrFrom n) @ ''|'' @ x"
    by (auto simp: ownedBy_def ownerOf_def hasPrefix_iff)
  then show False using bar_inj [OF assms(2,1)] assms(3) by metis
qed

text \<open>Another rule of the same pool keeps what it holds.\<close>

lemma natOk_foreign:
  assumes "natOk n' pool" "natStep n pool n1 pool1"
    "CHR ''|'' \<notin> set (niName (nrFrom n))" "CHR ''|'' \<notin> set (niName (nrFrom n'))" "niName (nrFrom n) \<noteq> niName (nrFrom n')"
  shows "natOk n' pool1"
proof -
  have "instOk n' pool1 k i" if "map_of (nrInsts n') k = Some i" for k i
  proof -
    have "instOk n' pool k i" using assms(1) that by (simp add: natOk_def)
    moreover have "map_of pool1 p = Some (ownerOf n' i)" if "map_of pool p = Some (ownerOf n' i)" for p
      using assms(2) that foreign_owner [OF assms(3-5)] unfolding natStep_def by blast
    ultimately show ?thesis unfolding instOk_def by blast
  qed
  then show ?thesis using assms(1) by (simp add: natOk_def)
qed

lemma sources_same:
  assumes "sources ns" "j < length ns" "sameRule (ns ! j) n'"
  shows "sources (ns[j := n'])"
proof -
  have "map (\<lambda>n. (nrFrom n, nrTo n)) (ns[j := n']) = map (\<lambda>n. (nrFrom n, nrTo n)) ns"
    using assms(2,3) by (simp add: map_update sameRule_def) (simp add: list_update_same_conv)
  then show ?thesis using assms(1) unfolding sources_def by simp
qed

lemma setRule_world:
  assumes "natWorld r" "j < length (rnNats r)" "n = rnNats r ! j" "natStep n (poolOf r n) n' pool'"
  shows "natWorld (setRule j n' pool' r)"
proof -
  let ?r = "setRule j n' pool' r"
  have same: "sameRule n n'" and ok: "natOk n' pool'" using assms(4) by (auto simp: natStep_def)
  have src: "sources (rnNats ?r)"
    using sources_same [of "rnNats r" j n'] assms same by (simp add: natWorld_def setRule_def)
  have idx: "niIndex (nrTo n') = niIndex (nrTo n)" using same by (simp add: sameRule_def)
  have "natOk (rnNats ?r ! k) (poolOf ?r (rnNats ?r ! k)) \<and> 1024 \<le> nrLo (rnNats ?r ! k) \<and> nrHi (rnNats ?r ! k) \<le> 65535"
    if k: "k < length (rnNats r)" for k
  proof (cases "k = j")
    case True
    have "1024 \<le> nrLo n \<and> nrHi n \<le> 65535" using assms(1,2,3) by (simp add: natWorld_def)
    then show ?thesis using True k ok same by (simp add: setRule_def poolOf_def sameRule_def)
  next
    case False
    let ?m = "rnNats r ! k"
    have m: "rnNats ?r ! k = ?m" using False by (simp add: setRule_def)
    have inv: "natOk ?m (poolOf r ?m)" "1024 \<le> nrLo ?m \<and> nrHi ?m \<le> 65535" using assms(1) k by (auto simp: natWorld_def)
    show ?thesis
    proof (cases "niIndex (nrTo ?m) = niIndex (nrTo n)")
      case True
      have "poolOf r ?m = poolOf r n" using True by (simp add: poolOf_def)
      moreover have "poolOf ?r ?m = pool'" using True idx by (simp add: poolOf_def setRule_def)
      moreover have "CHR ''|'' \<notin> set (niName (nrFrom n))" "CHR ''|'' \<notin> set (niName (nrFrom ?m))"
        "niName (nrFrom n) \<noteq> niName (nrFrom ?m)"
        using assms(1-3) k False True sources_name sources_distinct [of "rnNats r" j k] by (auto simp: natWorld_def)
      ultimately show ?thesis using natOk_foreign [of ?m "poolOf r n" n n' pool'] assms(4) inv m by simp
    next
      case False
      then have "poolOf ?r ?m = poolOf r ?m" using idx by (simp add: poolOf_def setRule_def)
      then show ?thesis using inv m by simp
    qed
  qed
  moreover have "length (rnNats ?r) = length (rnNats r)" by (simp add: setRule_def)
  ultimately show ?thesis using src unfolding natWorld_def by (metis in_set_conv_nth)
qed

section \<open>Packets and sweeps\<close>

lemma announce_world:
  assumes "natWorld r" "j < length (rnNats r)" "announceNAT j ttl r = (out, r')"
  shows "natWorld r' \<and> length (rnNats r') = length (rnNats r)"
proof -
  let ?n = "rnNats r ! j"
  have r': "r' = r\<lparr>rnNats := (rnNats r)[j := ?n\<lparr>nrRemoved := []\<rparr>]\<rparr>"
    using assms(3) by (simp add: announceNAT_def Let_def)
  have src: "sources ((rnNats r)[j := ?n\<lparr>nrRemoved := []\<rparr>])"
    using sources_same [of "rnNats r" j] assms(1,2) by (simp add: natWorld_def sameRule_def)
  have n: "natOk ?n (poolOf r ?n)" "1024 \<le> nrLo ?n \<and> nrHi ?n \<le> 65535" using assms(1,2) by (auto simp: natWorld_def)
  have "natOk (?n\<lparr>nrRemoved := []\<rparr>) (poolOf r ?n)" using n(1) by (simp add: natOk_def)
  moreover have "poolOf r' m = poolOf r m" for m by (simp add: r' poolOf_def)
  moreover have "poolOf r (?n\<lparr>nrRemoved := []\<rparr>) = poolOf r ?n" by (simp add: poolOf_def)
  ultimately have "natOk m (poolOf r' m) \<and> 1024 \<le> nrLo m \<and> nrHi m \<le> 65535" if "m \<in> set (rnNats r')" for m
    using that n assms(1) set_update_subset_insert [of "rnNats r" j "?n\<lparr>nrRemoved := []\<rparr>"]
    by (auto simp: r' natWorld_def)
  then show ?thesis using src unfolding natWorld_def by (simp add: r')
qed

lemma afterChange_world:
  assumes "natWorld r" "j < length (rnNats r)" "afterChange c j r = (out, r')"
  shows "natWorld r' \<and> length (rnNats r') = length (rnNats r)"
  using assms announce_world [OF assms(1,2)] by (auto simp: afterChange_def split: if_splits prod.splits)

lemma foldl_world:
  assumes "\<And>s r j s' r'. natWorld r \<Longrightarrow> j < length (rnNats r) \<Longrightarrow> f (s, r) j = (s', r') \<Longrightarrow>
      natWorld r' \<and> length (rnNats r') = length (rnNats r)"
    "natWorld r" "\<forall>j \<in> set js. j < length (rnNats r)" "foldl f (s, r) js = (s', r')"
  shows "natWorld r' \<and> length (rnNats r') = length (rnNats r)"
  using assms(2-4)
proof (induction js arbitrary: s r)
  case Nil
  then show ?case by simp
next
  case (Cons j js)
  obtain s1 r1 where one: "f (s, r) j = (s1, r1)" by force
  note w = assms(1) [OF Cons.prems(1) _ one]
  show ?case using Cons.IH [of r1 s1] w Cons.prems(2,3) one by simp
qed

lemma natLearn_world:
  assumes "natWorld r" "regularMsg m" "natLearn ord now m i r = (out, r')"
  shows "natWorld r' \<and> length (rnNats r') = length (rnNats r)"
proof (rule foldl_world [OF _ assms(1) _ assms(3) [unfolded natLearn_def]])
  fix s r j s' r'
  assume w: "natWorld r" and j: "j < length (rnNats r)" and run: "natLearnAt ord now m i (s, r) j = (s', r')"
  let ?n = "rnNats r ! j"
  show "natWorld r' \<and> length (rnNats r') = length (rnNats r)"
  proof (cases "i \<noteq> niIndex (nrFrom ?n) \<or> \<not> mResponse m")
    case True
    then show ?thesis using run w by (simp add: natLearnAt_def)
  next
    case False
    obtain c n' pool' where l: "learnMsg ord now (subnetOf r ?n) m ?n (poolOf r ?n) = (c, n', pool')" by (metis prod_cases3)
    have "natOk ?n (poolOf r ?n)" using w j by (simp add: natWorld_def)
    from learnMsg_step [OF this assms(2) l] have step: "natWorld (setRule j n' pool' r)"
      using setRule_world [OF w j refl] by simp
    obtain o1 r1 where a: "afterChange c j (setRule j n' pool' r) = (o1, r1)" by force
    have "natWorld r1 \<and> length (rnNats r1) = length (rnNats r)"
      using afterChange_world [OF step _ a] j by (simp add: setRule_def)
    moreover have "r' = r1" using False run l a by (simp add: natLearnAt_def)
    ultimately show ?thesis by simp
  qed
qed simp

lemma sweepNAT_world:
  assumes "natWorld r" "sweepNAT ord now r = (out, r')"
  shows "natWorld r' \<and> length (rnNats r') = length (rnNats r)"
proof (rule foldl_world [OF _ assms(1) _ assms(2) [unfolded sweepNAT_def]])
  fix s r j s' r'
  assume w: "natWorld r" and j: "j < length (rnNats r)" and run: "sweepAt ord now (s, r) j = (s', r')"
  let ?n = "rnNats r ! j"
  obtain c n' pool' where l: "expireRule ord now ?n (poolOf r ?n) = (c, n', pool')" by (metis prod_cases3)
  have "natOk ?n (poolOf r ?n)" using w j by (simp add: natWorld_def)
  from expireRule_step [OF this l] have step: "natWorld (setRule j n' pool' r)"
    using setRule_world [OF w j refl] by simp
  obtain o1 r1 where a: "afterChange c j (setRule j n' pool' r) = (o1, r1)" by force
  have "natWorld r1 \<and> length (rnNats r1) = length (rnNats r)"
    using afterChange_world [OF step _ a] j by (simp add: setRule_def)
  moreover have "r' = r1" using run l a by (simp add: sweepAt_def)
  ultimately show "natWorld r' \<and> length (rnNats r') = length (rnNats r)" by simp
qed simp

lemma handleMsg_world:
  assumes "natWorld r" "regularMsg m" "handleMsg rrText ord now m src i v6 r = (out, r')"
  shows "natWorld r'"
proof (cases "map_of (rnIfaces r) i = None \<or> ownAddress r (uaIP src)")
  case True
  then show ?thesis using assms by (simp add: handleMsg_def)
next
  case False
  obtain fwd relays where f: "reflectMsg now m i (rnRelays r) = (fwd, relays)" by force
  obtain lrn r1 where l: "natLearn ord now m i (r\<lparr>rnRelays := relays\<rparr>) = (lrn, r1)" by force
  have "natWorld (r\<lparr>rnRelays := relays\<rparr>)" using assms(1) by (simp add: natWorld_def poolOf_def)
  from natLearn_world [OF this assms(2) l] have w: "natWorld r1" by simp
  have "r' = r1 \<or> (\<exists>c. r' = r1\<lparr>rnClash := c\<rparr>)"
    using False assms(3) f l by (auto simp: handleMsg_def Let_def split: if_splits)
  then show ?thesis using w by (auto simp: natWorld_def poolOf_def)
qed

section \<open>The table\<close>

lemma rule_ports_distinct:
  assumes "natOk n pool"
  shows "distinct (map nmPort (mappings n))"
proof -
  let ?P = "\<lambda>i. instHostPort i \<noteq> 0 \<and> instIP i \<noteq> NoAddr"
  let ?xs = "filter (\<lambda>x. ?P (snd x)) (nrInsts n)"
  have d: "distinct (map fst (nrInsts n))" using assms by (simp add: natOk_def)
  have "inj_on (\<lambda>x. instHostPort (snd x)) (set ?xs)"
  proof (rule inj_onI)
    fix x y assume x: "x \<in> set ?xs" and y: "y \<in> set ?xs" and eq: "instHostPort (snd x) = instHostPort (snd y)"
    have m: "map_of (nrInsts n) (fst x) = Some (snd x)" "map_of (nrInsts n) (fst y) = Some (snd y)"
      using x y d by (auto simp: map_of_eq_Some_iff)
    then have "instOk n pool (fst x) (snd x)" "instOk n pool (fst y) (snd y)" using assms by (auto simp: natOk_def)
    then have "ownerOf n (snd x) = ownerOf n (snd y)" "instKey (snd x) = fst x" "instKey (snd y) = fst y"
      using x y eq by (auto simp: instOk_def)
    then have "fst x = fst y" by (simp add: owner_key)
    then show "x = y" using m by (simp add: prod_eq_iff)
  qed
  moreover have "distinct ?xs" using d by (simp add: distinct_map)
  ultimately have "distinct (map (\<lambda>x. instHostPort (snd x)) ?xs)" by (simp add: distinct_map)
  moreover have "map (\<lambda>x. instHostPort (snd x)) ?xs = map instHostPort (filter ?P (map snd (nrInsts n)))"
    by (simp add: filter_map comp_def)
  ultimately have "distinct (map instHostPort (filter ?P (map snd (nrInsts n))))" by simp
  moreover have m: "mset (map nmPort (mappings n)) = mset (map instHostPort (filter ?P (map snd (nrInsts n))))"
    by (simp add: mappings_def publishedInsts_def comp_def)
  ultimately show ?thesis using mset_eq_imp_distinct_iff [OF m] by blast
qed

lemma distinct_concat_map:
  assumes "\<forall>n \<in> set ns. distinct (map g (f n))"
    "\<forall>j < length ns. \<forall>k < length ns. j \<noteq> k \<longrightarrow> g ` set (f (ns ! j)) \<inter> g ` set (f (ns ! k)) = {}"
  shows "distinct (map g (concat (map f ns)))"
  using assms
proof (induction ns)
  case (Cons n ns)
  have "\<forall>j < length ns. \<forall>k < length ns. j \<noteq> k \<longrightarrow> g ` set (f (ns ! j)) \<inter> g ` set (f (ns ! k)) = {}"
  proof (intro allI impI)
    fix j k assume "j < length ns" "k < length ns" "j \<noteq> k"
    then show "g ` set (f (ns ! j)) \<inter> g ` set (f (ns ! k)) = {}"
      using Cons.prems(2) [rule_format, of "Suc j" "Suc k"] by simp
  qed
  then have rest: "distinct (map g (concat (map f ns)))" using Cons.IH Cons.prems(1) by simp
  have "g ` set (f n) \<inter> g ` set (f n') = {}" if n': "n' \<in> set ns" for n'
  proof -
    obtain k where "k < length ns" "n' = ns ! k" using n' by (auto simp: in_set_conv_nth)
    then show ?thesis using Cons.prems(2) [rule_format, of 0 "Suc k"] by simp
  qed
  then have "g ` set (f n) \<inter> g ` set (concat (map f ns)) = {}" by (auto; blast)
  then show ?case using rest Cons.prems(1) by simp
qed simp

lemma table_exclusive:
  assumes "natWorld r"
  shows "distinct (map (\<lambda>m. (nmTo m, nmPort m)) (natMaps r))"
proof -
  let ?key = "\<lambda>m. (nmTo m, nmPort m)"
  have ok: "natOk n (poolOf r n)" if "n \<in> set (rnNats r)" for n using assms that by (simp add: natWorld_def)
  have one: "distinct (map ?key (mappings n))" if "n \<in> set (rnNats r)" for n
    using rule_ports_distinct [OF ok [OF that]] by (auto simp: distinct_map inj_on_def)
  have apart: "?key ` set (mappings (rnNats r ! j)) \<inter> ?key ` set (mappings (rnNats r ! k)) = {}"
    if "j < length (rnNats r)" "k < length (rnNats r)" "j \<noteq> k" for j k
  proof (rule ccontr)
    let ?n = "rnNats r ! j" and ?m = "rnNats r ! k"
    assume "\<not> ?thesis"
    then obtain x y where x: "x \<in> set (mappings ?n)" and y: "y \<in> set (mappings ?m)" and eq: "nmTo x = nmTo y" "nmPort x = nmPort y"
      by auto
    have mem: "?n \<in> set (rnNats r)" "?m \<in> set (rnNats r)" using that by auto
    note fx = mappings_facts [OF ok [OF mem(1)] x] and fy = mappings_facts [OF ok [OF mem(2)] y]
    have idx: "niIndex (nrTo ?n) = niIndex (nrTo ?m)"
      using sources_to [of "rnNats r" ?n ?m] assms mem fx(1) fy(1) eq(1) by (simp add: natWorld_def)
    then have pool: "poolOf r ?n = poolOf r ?m" by (simp add: poolOf_def)
    obtain i i' where "map_of (poolOf r ?n) (nmPort x) = Some (ownerOf ?n i)" "map_of (poolOf r ?m) (nmPort y) = Some (ownerOf ?m i')"
      using fx(2) fy(2) by blast
    then have "ownerOf ?n i = ownerOf ?m i'" using pool eq(2) by simp
    then have "niName (nrFrom ?n) = niName (nrFrom ?m)"
      using bar_inj [of "niName (nrFrom ?n)" "niName (nrFrom ?m)"] sources_name [of "rnNats r"] assms that
      by (auto simp: ownerOf_def natWorld_def)
    then show False using sources_distinct [of "rnNats r" j k] assms that idx by (simp add: natWorld_def)
  qed
  show ?thesis unfolding natMaps_def
    by (rule distinct_concat_map) (use one apart in auto)
qed

lemma table_bounds:
  assumes "natWorld r" "m \<in> set (natMaps r)"
  shows "1024 \<le> nmPort m \<and> nmPort m \<le> 65535 \<and> usableTarget (nmTarget m)"
proof -
  obtain n where n: "n \<in> set (rnNats r)" "m \<in> set (mappings n)" using assms(2) by (auto simp: natMaps_def)
  then have "natOk n (poolOf r n)" "1024 \<le> nrLo n" "nrHi n \<le> 65535" using assms(1) by (auto simp: natWorld_def)
  then show ?thesis using mappings_facts(1) [of n "poolOf r n" m] n by auto
qed

section \<open>Runs of a started service\<close>

inductive mdnsRun :: "running \<Rightarrow> running \<Rightarrow> bool" for r0 where
  started: "mdnsRun r0 r0"
| packet: "mdnsRun r0 r \<Longrightarrow> regularMsg m \<Longrightarrow> handleMsg rrText ord now m src i v6 r = (out, r') \<Longrightarrow> mdnsRun r0 r'"
| sweep: "mdnsRun r0 r \<Longrightarrow> sweepNAT ord now r = (out, r') \<Longrightarrow> mdnsRun r0 r'"

lemma mdnsRun_world: "mdnsRun r0 r \<Longrightarrow> natWorld r0 \<Longrightarrow> natWorld r"
  by (induction rule: mdnsRun.induct) (auto dest: handleMsg_world sweepNAT_world)

definition freshRule :: "natRule \<Rightarrow> bool" where
  "freshRule n \<longleftrightarrow> nrInsts n = [] \<and> 1024 \<le> nrLo n \<and> nrLo n \<le> nrHi n \<and> nrHi n \<le> 65535"

lemma newNATRule_fresh: "newNATRule cfg a b reserved = Inr n \<Longrightarrow> freshRule n"
  using portRange_bounds [of cfg] by (auto simp: newNATRule_def bindR_Inr freshRule_def split: prod.splits)

lemma planPair_fresh:
  assumes "planPair rule reserved pl p = Inr pl'" "list_all freshRule (mpNats pl)"
  shows "list_all freshRule (mpNats pl')"
  using assms newNATRule_fresh by (auto simp: planPair_def bindR_Inr split: prod.splits if_splits option.splits)

lemma putIfaces_nats: "mpNats (foldl putIface pl is) = mpNats pl"
  by (induction "is" arbitrary: pl) (auto simp: putIface_def)

lemma planRule_fresh:
  assumes "planRule ifs reserved pl rule = Inr pl'" "list_all freshRule (mpNats pl)"
  shows "list_all freshRule (mpNats pl')"
proof -
  obtain ps pl0 where "foldR (planPair rule reserved) pl0 ps = Inr pl'" "mpNats pl0 = mpNats pl"
    using assms(1) putIfaces_nats by (auto simp: planRule_def bindR_Inr)
  then show ?thesis
    using foldR_inv [where P = "\<lambda>pl. list_all freshRule (mpNats pl)" and f = "planPair rule reserved"] planPair_fresh assms(2)
    by metis
qed

lemma planRules_fresh:
  assumes "planRules cfg ifs reserved = Inr pl"
  shows "list_all freshRule (mpNats pl)"
proof -
  obtain pl0 where one: "(if mcRecords cfg = [] then Inr noPlan else foldR (planAdvertised ifs) noPlan (mcInterfaces cfg)) = Inr pl0"
    and two: "foldR (planRule ifs reserved) pl0 (mcReflect cfg) = Inr pl"
    using assms by (auto simp: planRules_def bindR_Inr)
  have "mpNats pl0 = []"
  proof (cases "mcRecords cfg = []")
    case True
    then show ?thesis using one by (auto simp: noPlan_def)
  next
    case False
    then have f: "foldR (planAdvertised ifs) noPlan (mcInterfaces cfg) = Inr pl0" using one by simp
    show ?thesis
      by (rule foldR_inv [OF f]) (auto simp: noPlan_def planAdvertised_def bindR_Inr putIface_def Let_def)
  qed
  then have "list_all freshRule (mpNats pl0)" by simp
  then show ?thesis
    using foldR_inv [where P = "\<lambda>pl. list_all freshRule (mpNats pl)" and f = "planRule ifs reserved", OF two] planRule_fresh
    by blast
qed

lemma startMdns_world:
  assumes "startMdns e cfg = (out, Inr r)" "sources (rnNats r)"
  shows "natWorld r"
proof -
  obtain ifs pl where pl: "planRules cfg ifs (if mcHost cfg \<noteq> [] then [mcHost cfg] else []) = Inr pl"
    and r: "rnNats r = mpNats pl" "rnPools r = []"
    using assms(1) by (auto simp: startMdns_def bindR_Inr Let_def split: sum.splits if_splits)
  have "natOk n (poolOf r n) \<and> 1024 \<le> nrLo n \<and> nrHi n \<le> 65535" if "n \<in> set (rnNats r)" for n
    using planRules_fresh [OF pl] that r by (auto simp: list_all_iff freshRule_def natOk_def)
  then show ?thesis using assms(2) by (simp add: natWorld_def)
qed

section \<open>The watcher\<close>

text \<open>A service in step runs exactly what it is configured for, or nothing for an empty target.\<close>

definition inStep :: "mdnsService \<Rightarrow> bool" where
  "inStep s \<longleftrightarrow> (case svRun s of
       Some r \<Rightarrow> anCfg (rnAnswerer r) = svConfig s \<and> \<not> emptyMdns (svConfig s)
     | None \<Rightarrow> emptyMdns (svConfig s))"

lemma startMdns_cfg: "startMdns e cfg = (out, Inr r) \<Longrightarrow> anCfg (rnAnswerer r) = cfg"
  by (auto simp: startMdns_def Let_def split: sum.splits if_splits)

lemma watch_step:
  assumes "inStep s" "parseMdns raw = Inr want" "validateMdns want = Inr ()"
    "\<not> emptyMdns want \<Longrightarrow> \<exists>out r. startMdns e want = (out, Inr r)"
  shows "inStep (watchMdns e e' raw s) \<and> svConfig (watchMdns e e' raw s) = want"
proof (cases "want = svConfig s")
  case True
  then show ?thesis using assms(1,2) by (simp add: watchMdns_def)
next
  case False
  show ?thesis
  proof (cases "emptyMdns want")
    case True
    then show ?thesis using False assms(2,3) by (simp add: watchMdns_def applyMdns_def Let_def inStep_def)
  next
    case ne: False
    obtain out r where st: "startMdns e want = (out, Inr r)" using assms(4) ne by blast
    show ?thesis using False ne st startMdns_cfg [OF st] assms(2,3)
      by (simp add: watchMdns_def applyMdns_def Let_def inStep_def)
  qed
qed

lemma zeroMdns_valid: "validateMdns zeroMdns = Inr ()"
  by (simp add: validateMdns_def emptyMdns_def zeroMdns_def)

lemma parseMdns_valid: "parseMdns raw = Inr want \<Longrightarrow> validateMdns want = Inr ()"
  using zeroMdns_valid by (auto simp: parseMdns_def bindR_Inr split: if_splits)

text \<open>An apply that fails leaves the target alone, and keeps the old set running if it starts again.\<close>

lemma applyMdns_fails:
  assumes "applyMdns e e' cfg s = (Inl err, out, s')" "inStep s"
    "svRun s \<noteq> None \<Longrightarrow> \<exists>o1 r. startMdns e' (svConfig s) = (o1, Inr r)"
  shows "svConfig s' = svConfig s \<and> inStep s'"
  using assms startMdns_cfg [of e' "svConfig s"]
  by (auto simp: applyMdns_def Let_def inStep_def split: sum.splits if_splits prod.splits option.splits)

end
