(* ===== verification/Mdns_Lan.thy ===== *)
theory Mdns_Lan
  imports Mdns_Nat Resolver
begin

text \<open>
  The query side (\<^verbatim>\<open>internal/mdns/query.go\<close> and \<^verbatim>\<open>lan.go\<close>): one question to the LAN, the records
  that answer it, and the LAN client the resolver uses.  \<open>rrText\<close> and \<open>fqdn\<close> are \<^verbatim>\<open>RR.String\<close> and
  \<^verbatim>\<open>dns.Fqdn\<close> of the DNS library.
\<close>

section \<open>Asking\<close>

definition queryInterfaces :: "string list \<Rightarrow> netIface list \<Rightarrow> netIface list" where
  "queryInterfaces names ifs = filter (\<lambda>i. niUp i \<and> niMulticast i \<and> \<not> niLoopback i \<and>
     (names = [] \<or> niName i \<in> set names)) ifs"

text \<open>
  What a question meets: an error before anything is sent, how many sends succeeded, the packets
  that arrive in time (a packet that does not unpack is \<open>None\<close>), and whether the context ends
  first, after some of them.
\<close>

record lanQuery =
  lqSetup :: "error option"
  lqSent :: nat
  lqPackets :: "msg option list"
  lqCancel :: "nat option"

definition collectRecord :: "(rr \<Rightarrow> string) \<Rightarrow> rr list \<Rightarrow> rr \<Rightarrow> rr list" where
  "collectRecord rrText out r =
     (if rrType r = TypeOPT \<or> rrType r = TypeNSEC \<or> rrText r \<in> rrText ` set out then out else out @ [r])"

definition collectPacket :: "(rr \<Rightarrow> string) \<Rightarrow> rr list \<Rightarrow> msg option \<Rightarrow> rr list" where
  "collectPacket rrText out p = (case p of
       Some m \<Rightarrow> if mResponse m then foldl (collectRecord rrText) out (mAnswer m @ mExtra m) else out
     | None \<Rightarrow> out)"

definition lanAsk :: "(rr \<Rightarrow> string) \<Rightarrow> lanQuery \<Rightarrow> rr list \<times> error option" where
  "lanAsk rrText e = (case lqSetup e of
       Some err \<Rightarrow> ([], Some err)
     | None \<Rightarrow>
         if lqSent e = 0 then ([], Some (Error ''mdns: no interface could send the query''))
         else case lqCancel e of
           None \<Rightarrow> (foldl (collectPacket rrText) [] (lqPackets e), None)
         | Some k \<Rightarrow> (foldl (collectPacket rrText) [] (take k (lqPackets e)), Some (Error ''context'')))"

section \<open>Selecting\<close>

definition shortLived :: "rr \<Rightarrow> rr" where
  "shortLived r = r\<lparr>rrClass := ClassINET, rrTtl := (if rrTtl r > 30 then 30 else rrTtl r)\<rparr>"

definition Answers :: "(string \<Rightarrow> string) \<Rightarrow> rr list \<Rightarrow> string \<Rightarrow> int \<Rightarrow> rr list" where
  "Answers fqdn rrs name qtype =
     map shortLived (filter (\<lambda>r. equalFold (rrName r) (fqdn name) \<and> (rrType r = qtype \<or> qtype = TypeANY)) rrs)"

definition targetsOf :: "rr list \<Rightarrow> string set" where
  "targetsOf answers = set (List.map_filter (\<lambda>r. case rrData r of
       RPTR p \<Rightarrow> Some (toLower p) | RSRV _ t \<Rightarrow> Some (toLower t) | _ \<Rightarrow> None) answers)"

definition Related :: "rr list \<Rightarrow> rr list \<Rightarrow> rr list" where
  "Related rrs answers =
     map shortLived (filter (\<lambda>r. toLower (rrName r) \<in> targetsOf answers \<and>
       rrType r \<in> {TypeSRV, TypeTXT, TypeA, TypeAAAA}) rrs)"

section \<open>The LAN client\<close>

text \<open>The environment answers each question of a type; \<open>lan\<close> is that answer.\<close>

definition addIP :: "addr list \<Rightarrow> rr \<Rightarrow> addr list" where
  "addIP ips r = (case rrData r of
       RA ip \<Rightarrow> if addrString ip \<in> addrString ` set ips then ips else ips @ [ip]
     | RAAAA ip \<Rightarrow> if addrString ip \<in> addrString ` set ips then ips else ips @ [ip]
     | _ \<Rightarrow> ips)"

definition lanLookup ::
  "(rr \<Rightarrow> string) \<Rightarrow> (string \<Rightarrow> string) \<Rightarrow> (string \<Rightarrow> int \<Rightarrow> lanQuery) \<Rightarrow> string \<Rightarrow> addr list result" where
  "lanLookup rrText fqdn lan name =
     (case lanAsk rrText (lan name TypeA) of
        ([], Some err) \<Rightarrow> Inl err
      | (rrs4, _) \<Rightarrow>
          let ips = foldl addIP [] (Answers fqdn rrs4 name TypeA)
          in case lanAsk rrText (lan name TypeAAAA) of
               ([], Some _) \<Rightarrow> Inr ips
             | (rrs6, _) \<Rightarrow> Inr (foldl addIP ips (Answers fqdn rrs6 name TypeAAAA)))"

definition lanBrowse ::
  "(rr \<Rightarrow> string) \<Rightarrow> (string \<Rightarrow> string) \<Rightarrow> (string \<Rightarrow> int \<Rightarrow> lanQuery) \<Rightarrow> string \<Rightarrow> int \<Rightarrow> (rr list \<times> rr list) result" where
  "lanBrowse rrText fqdn lan name qtype =
     (case lanAsk rrText (lan name qtype) of
        ([], Some err) \<Rightarrow> Inl err
      | (rrs, _) \<Rightarrow> let answers = Answers fqdn rrs name qtype in Inr (answers, Related rrs answers))"

lemmas lan_defs [go_defs] =
  queryInterfaces_def collectRecord_def collectPacket_def lanAsk_def shortLived_def Answers_def
  targetsOf_def Related_def addIP_def lanLookup_def lanBrowse_def

section \<open>The contract of a LAN client\<close>

text \<open>
  What the resolver relies on when it forwards a browse: records of the name asked for, related
  records only for the names those point at, and lives of at most 30 seconds, so that a cached
  browse never outlives a grant.
\<close>

locale lan_client =
  fixes browse :: "string \<Rightarrow> int \<Rightarrow> (rr list \<times> rr list) result" and fqdn :: "string \<Rightarrow> string"
  assumes browse_owner: "browse n t = Inr (answers, extra) \<Longrightarrow> r \<in> set answers \<Longrightarrow> equalFold (rrName r) (fqdn n)"
    and browse_related: "browse n t = Inr (answers, extra) \<Longrightarrow> r \<in> set extra \<Longrightarrow> toLower (rrName r) \<in> targetsOf answers"
    and browse_short: "browse n t = Inr (answers, extra) \<Longrightarrow> r \<in> set answers \<union> set extra \<Longrightarrow>
      rrTtl r \<le> 30 \<and> rrClass r = ClassINET"
begin

lemma serveBrowse_reply:
  assumes "eBrowse e = browse" "serveBrowse e ctx q s = (out, s')" "svWrote out = Some reply"
  shows "(\<forall>r \<in> set (reAnswer reply). equalFold (rrName r) (fqdn (qName q))) \<and>
    (\<forall>r \<in> set (reExtra reply). toLower (rrName r) \<in> targetsOf (reAnswer reply)) \<and>
    (\<forall>r \<in> set (reAnswer reply) \<union> set (reExtra reply). rrTtl r \<le> 30)"
proof -
  obtain answers extra where b: "browse (qName q) (qType q) = Inr (answers, extra)"
    and r: "reAnswer reply = answers" "reExtra reply = extra"
    using assms by (auto simp: serveBrowse_def browseLocal_def Let_def newReply_def split: if_splits sum.splits prod.splits)
  show ?thesis using browse_owner [OF b] browse_related [OF b] browse_short [OF b] r by auto
qed

end

lemma shortLived_fields [simp]:
  "rrName (shortLived r) = rrName r" "rrType (shortLived r) = rrType r" "rrData (shortLived r) = rrData r"
  "rrTtl (shortLived r) \<le> 30" "rrClass (shortLived r) = ClassINET"
  by (simp_all add: shortLived_def)

lemma lanBrowse_Inr:
  "lanBrowse rrText fqdn lan n t = Inr (answers, extra) \<Longrightarrow>
   \<exists>rrs. answers = Answers fqdn rrs n t \<and> extra = Related rrs answers"
  by (auto simp: lanBrowse_def Let_def split: prod.splits list.splits option.splits)

lemma Answers_mem: "r \<in> set (Answers fqdn rrs n t) \<Longrightarrow> equalFold (rrName r) (fqdn n) \<and> rrTtl r \<le> 30 \<and> rrClass r = ClassINET"
  by (auto simp: Answers_def)

lemma Related_mem: "r \<in> set (Related rrs answers) \<Longrightarrow> toLower (rrName r) \<in> targetsOf answers \<and> rrTtl r \<le> 30 \<and> rrClass r = ClassINET"
  by (auto simp: Related_def)

interpretation mdnsLan: lan_client "lanBrowse rrText fqdn lan" fqdn for rrText fqdn lan
  by unfold_locales (auto dest!: lanBrowse_Inr dest: Answers_mem Related_mem)

end
