(* ===== verification/Mdns_Demo.thy ===== *)
theory Mdns_Demo
  imports Mdns_Relay Mdns_Service_Facts Mdns_Lan "HOL-Library.Code_Target_Nat"
begin

text \<open>
  Concrete inputs: an mDNS service that relays between three interfaces, and one that translates a
  container's printer onto the LAN.
\<close>

text \<open>Matching of patterns, with fuel that is not read by its constructors.\<close>

lemma globTokens_code [code]:
  "globTokens n s = (if n = 0 then (if s = [] then Some [] else None) else case s of [] \<Rightarrow> Some []
   | c # cs \<Rightarrow>
     (if c = CHR ''*'' then map_option ((#) Star) (globTokens (n - 1) cs)
      else if c = CHR ''?'' then map_option ((#) AnyOne) (globTokens (n - 1) cs)
      else if c = CHR ''['' then
        (let neg = hasPrefix cs ''^''
         in case globClass (length cs) [] (if neg then tl cs else cs) of
              None \<Rightarrow> None
            | Some (rs, t) \<Rightarrow> map_option ((#) (Class neg rs)) (globTokens (n - 1) t))
      else if c = CHR 0x5C then
        (case cs of [] \<Rightarrow> None | d # ds \<Rightarrow> map_option ((#) (Lit d)) (globTokens (n - 1) ds))
      else map_option ((#) (Lit c)) (globTokens (n - 1) cs)))"
  by (cases n; cases s; hypsubst) (simp_all only: globTokens.simps diff_Suc_1 nat.distinct list.simps simp_thms if_True if_False)

definition printerSRV :: rr where
  "printerSRV = \<lparr>rrName = ''Office._ipp._tcp.local.'', rrType = TypeSRV, rrClass = ClassINET, rrTtl = 30,
     rrData = RSRV 631 ''Printer.local.''\<rparr>"

section \<open>Relay\<close>

definition relayEdge :: "int \<Rightarrow> int \<Rightarrow> string list \<Rightarrow> relaying" where
  "relayEdge a b services = \<lparr>rlCfg = zeroRule\<lparr>rfAllow := services\<rparr>, rlFrom = a, rlTo = b\<rparr>"

text \<open>Interface 1 exports everything to 2, and 2 exports printers to 3.\<close>

definition threeDomains :: "relaying list" where
  "threeDomains = [relayEdge 1 2 [''*''], relayEdge 2 3 [''_ipp._tcp'']]"

lemma three_carries: "carries threeDomains ''_ipp._tcp'' 1 3"
proof -
  have all: "allows (edgeClasses (relayEdge 1 2 [''*''])) ''_ipp._tcp''" "allows (edgeClasses (relayEdge 2 3 [''_ipp._tcp''])) ''_ipp._tcp''"
    unfolding allows_def by code_simp+
  have "carries threeDomains ''_ipp._tcp'' 1 2"
    using carries.direct [of "relayEdge 1 2 [''*'']" threeDomains "''_ipp._tcp''"] all(1)
    by (simp add: threeDomains_def relayEdge_def)
  then show ?thesis
    using carries.onward [of threeDomains "''_ipp._tcp''" 1 "relayEdge 2 3 [''_ipp._tcp'']"] all(2)
    by (simp add: threeDomains_def relayEdge_def)
qed

definition printerSeen :: msg where
  "printerSeen = newMsg\<lparr>mResponse := True, mAnswer := [printerSRV]\<rparr>"

section \<open>Translation\<close>

definition iface :: "int \<Rightarrow> string \<Rightarrow> netIface" where
  "iface i n = \<lparr>niIndex = i, niName = n, niUp = True, niMulticast = True, niLoopback = False\<rparr>"

text \<open>A bridge whose printers are published on the LAN, with a pool of one port.\<close>

definition natTarget :: mdnsConfig where
  "natTarget = zeroMdns\<lparr>mcReflect := [zeroRule\<lparr>rfFrom := ''br0'', rfTo := ''lan0'',
     rfAdvertise := Some \<lparr>ncServices = [''_ipp._tcp''], ncPorts = ''20000-20000''\<rparr>\<rparr>]\<rparr>"

definition natNet :: startNet where
  "natNet = \<lparr>snIfaces = Inr [iface 1 ''br0'', iface 2 ''lan0''],
     snAddrs = (\<lambda>n. if n = ''br0'' then Inr [\<lparr>pfxAddr = V4 0x0A580001, pfxBits = 24\<rparr>]
                    else Inr [\<lparr>pfxAddr = V4 0xC0A80102, pfxBits = 24\<rparr>]),
     snBind = True, snJoin = (\<lambda>_. True), snSix = False, snHeard = []\<rparr>"

definition natStart :: running where
  "natStart = (case snd (startMdns natNet natTarget) of Inr r \<Rightarrow> r | Inl _ \<Rightarrow>
     \<lparr>rnAnswerer = \<lparr>anCfg = zeroMdns, anAddrs = (\<lambda>_. Inr [])\<rparr>, rnIfaces = [], rnAdvertise = [], rnRelays = [], rnNats = [],
      rnPools = [], rnSix = False, rnProbing = False, rnClash = []\<rparr>)"

definition srvOf :: "string \<Rightarrow> int \<Rightarrow> string \<Rightarrow> rr" where
  "srvOf name ttl host = \<lparr>rrName = name, rrType = TypeSRV, rrClass = ClassINET, rrTtl = ttl, rrData = RSRV 631 host\<rparr>"

definition hostAt :: "string \<Rightarrow> addr \<Rightarrow> rr" where
  "hostAt name ip = \<lparr>rrName = name, rrType = TypeA, rrClass = ClassINET, rrTtl = 120, rrData = RA ip\<rparr>"

definition heardOn :: "rr list \<Rightarrow> running \<Rightarrow> running" where
  "heardOn rrs r = snd (natLearn (\<lambda>ks. ks) 0 (newMsg\<lparr>mResponse := True, mAnswer := rrs\<rparr>) 1 r)"

lemma nat_started: "startMdns natNet natTarget = (fst (startMdns natNet natTarget), Inr natStart)"
proof -
  have "\<not> isl (snd (startMdns natNet natTarget))" by code_simp
  then show ?thesis unfolding natStart_def by (cases "snd (startMdns natNet natTarget)") (auto simp: prod_eq_iff)
qed

lemma nat_sources: "sources (rnNats natStart)"
  by code_simp

definition cupsUp :: "rr list" where
  "cupsUp = [srvOf ''Cups._ipp._tcp.local.'' 120 ''cups.local.'', hostAt ''cups.local.'' (V4 0x0A580005)]"

definition natAfter :: running where
  "natAfter = snd (handleMsg (\<lambda>_. []) (\<lambda>ks. ks) 0 (newMsg\<lparr>mResponse := True, mAnswer := cupsUp\<rparr>)
     \<lparr>uaIP = V4 0x0A580005, uaPort = 5353\<rparr> 1 False natStart)"

lemma cups_regular: "regularMsg (newMsg\<lparr>mResponse := True, mAnswer := cupsUp\<rparr>)"
  by code_simp

lemma nat_run: "mdnsRun natStart natAfter"
  unfolding natAfter_def
  by (rule mdnsRun.packet [OF mdnsRun.started cups_regular]) (rule surjective_pairing)

lemma nat_after: "natMaps natAfter = [\<lparr>nmTo = ''lan0'', nmProto = ''tcp'', nmPort = 20000, nmTarget = V4 0x0A580005, nmTargetPort = 631\<rparr>]"
  by code_simp

text \<open>
  A name with its class in upper case is not found again by its goodbye: the port is released and
  given to the next instance while the first is still published.
\<close>

lemma irregular_name: "\<not> regularName ''Old._IPP._TCP.local.''"
  by code_simp

lemma irregular_goodbye:
  "map nmPort (natMaps (heardOn cupsUp (heardOn [srvOf ''Old._IPP._TCP.local.'' 0 ''old.local.'']
     (heardOn [srvOf ''Old._IPP._TCP.local.'' 120 ''old.local.'', hostAt ''old.local.'' (V4 0x0A580004)] natStart)))) =
   [20000, 20000]"
  by code_simp

section \<open>Answering and applying\<close>

definition webRecord :: mdnsRecord where
  "webRecord = zeroRecord\<lparr>mrService := ''_http._tcp'', mrInstance := ''Web'', mrPort := 80\<rparr>"

definition webTarget :: mdnsConfig where
  "webTarget = zeroMdns\<lparr>mcInterfaces := [''lan0''], mcHost := ''box'', mcRecords := [webRecord]\<rparr>"

definition webAnswerer :: answerer where
  "webAnswerer = \<lparr>anCfg = webTarget, anAddrs = snAddrs natNet\<rparr>"

definition webBrowse :: question where
  "webBrowse = \<lparr>qName = ''_HTTP._tcp.local.'', qType = TypePTR, qClass = ClassINET\<rparr>"

lemma web_browsed:
  "webRecord \<in> set (mcRecords (anCfg webAnswerer))"
  "norm (fq [mrService webRecord, ''local'']) = norm (qName webBrowse)" "norm (qName webBrowse) \<noteq> enumerateName"
  by code_simp+

definition natBytes :: bytes where
  "natBytes = Json (JObj [(''reflect'', JArr [JObj [(''from'', JStr ''br0''), (''to'', JStr ''lan0''),
     (''advertise'', JObj [(''services'', JArr [JStr ''_ipp._tcp'']), (''ports'', JStr ''20000-20000'')])]])])"

lemma nat_parsed: "parseMdns natBytes = Inr natTarget"
  by code_simp

definition deafNet :: startNet where
  "deafNet = natNet\<lparr>snBind := False\<rparr>"

definition natService :: mdnsService where
  "natService = \<lparr>svConfig = natTarget, svRun = Some natStart\<rparr>"

lemma nat_service: "inStep natService"
proof -
  have "anCfg (rnAnswerer natStart) = natTarget" by (rule startMdns_cfg [OF nat_started])
  moreover have "\<not> emptyMdns natTarget" by code_simp
  ultimately show ?thesis by (simp add: inStep_def natService_def)
qed

lemma new_service: "inStep newService"
  by code_simp

lemma deaf_fails: "isl (fst (applyMdns deafNet natNet webTarget natService))"
  by code_simp

end
