(* ===== verification/Naming_Demo.thy ===== *)
theory Naming_Demo
  imports Resolver_Facts Lease_Dns_Facts Mdns_Demo Book_Demo
begin

text \<open>
  Concrete inputs: a resolver with one identity that browses for a printer.
\<close>

definition kiosk :: aclIdentity where
  "kiosk = \<lparr>idName = ''kiosk'', idListen = ''100.64.0.9'', idAllowNames = [''example.com''],
     idAllowServices = [''_ipp._tcp'']\<rparr>"

definition kioskACL :: acl where
  "kioskACL = \<lparr>aclIdentities = [kiosk]\<rparr>"

definition kioskEnv :: lanEnv where
  "kioskEnv = \<lparr>eLookup = (\<lambda>_. Inr []), eBrowse = (\<lambda>_ _. Inr ([], [printerSRV])), eGetent = (\<lambda>_. NotRun),
     eBusy = False, eTook = 5\<rparr>"

definition askMsg :: "string \<Rightarrow> int \<Rightarrow> msg" where
  "askMsg name t = newMsg\<lparr>mQuestion := [\<lparr>qName = name, qType = t, qClass = ClassINET\<rparr>]\<rparr>"

definition kioskStart :: resolverState where
  "kioskStart = \<lparr>rsPolicies = Some (setPolicies kioskACL), rsLan = True, rsNow = 0\<rparr>"

definition kioskAfter :: resolverState where
  "kioskAfter = snd (identityChain (idName kiosk) (\<lambda>_. None) (\<lambda>_. gaveUp 0) kioskEnv []
     (askMsg ''_ipp._tcp.local.'' TypePTR) kioskStart)"

definition kioskTrace :: "asked list" where
  "kioskTrace = [\<lparr>asListener = idName kiosk, asMsg = askMsg ''_ipp._tcp.local.'' TypePTR, asEnv = kioskEnv,
     asNow = rsNow kioskAfter\<rparr>]"

lemma kiosk_ok: "aclOk kioskACL"
  by code_simp

lemma kiosk_run: "resolverRun kioskACL kioskTrace kioskAfter"
proof -
  have "resolverRun kioskACL [] kioskStart" unfolding kioskStart_def by (rule resolverRun.started)
  moreover have "kiosk \<in> set (aclIdentities kioskACL)" by (simp add: kioskACL_def)
  ultimately show ?thesis unfolding kioskTrace_def kioskAfter_def
    by (rule resolverRun.identity) (rule surjective_pairing)
qed

lemma kiosk_policy:
  "policyFor kioskAfter ''kiosk'' = Some \<lparr>pId = kiosk, pGranted = [(''printer.local.'', 120000000005)]\<rparr>"
  by code_simp

definition kioskHost :: resolverHost where
  "kioskHost = \<lparr>rsPolicies = None, rsLan = False, rsNow = 0, rhFiles = [], rhServing = None\<rparr>"

definition goodStart :: startEnv where
  "goodStart = \<lparr>seCaddy = (\<lambda>_. True), seMkdir = True, sePublish = (\<lambda>_. True)\<rparr>"

lemma kiosk_starts:
  "startResolver goodStart True ''100.64.0.1'' 53 Quad100 [WithACL kioskACL, WithLAN] kioskHost =
     (Done (), snd (startResolver goodStart True ''100.64.0.1'' 53 Quad100 [WithACL kioskACL, WithLAN] kioskHost))"
proof -
  have "fst (startResolver goodStart True ''100.64.0.1'' 53 Quad100 [WithACL kioskACL, WithLAN] kioskHost) = Done ()"
    by code_simp
  then show ?thesis by (simp add: prod_eq_iff)
qed

end
