(* ===== verification/Naming_Properties.thy ===== *)
theory Naming_Properties
  imports Naming_Demo
begin

text \<open>
  Properties of the container resolver and of the DNS answers from leases.
\<close>

section \<open>Access of identities\<close>

text \<open>
  C27. Access to the resolver is configured or earned.  In every run of the resolver, a request on
  the listener of an identity either continues as on the base listener, and then it is one question
  of class IN that the configuration opens to the identity, or for a host under .local that a
  browse by the same identity for a listed class was answered with, no longer ago than the lifetime
  of a grant; or it is refused without any effect, and then the configuration does not open it.
\<close>

theorem resolver_access_is_earned:
  assumes "resolverRun a tr s" "aclOk a" "i \<in> set (aclIdentities a)"
    "identityChain (idName i) front forward e ctx r s = (out, s')"
  shows "(\<exists>q. mQuestion r = [q] \<and> qClass q = ClassINET \<and>
       (openTo i q \<or> hasSuffix (toLower (qName q)) ''.local.'' \<and> earned tr i (rsNow s) (toLower (qName q))) \<and>
       baseChain front forward e (idName i) r s = (out, s')) \<or>
     s' = s \<and> svCode out = RcodeRefused \<and> \<not> (\<exists>q. mQuestion r = [q] \<and> qClass q = ClassINET \<and> openTo i q)"
proof -
  obtain p where p: "policyFor s (idName i) = Some p" "policyInv tr i p" by (rule resolverRun_policy [OF assms(1-3)])
  have run: "identityChain (idName i) front forward e ctx r s =
      (case mQuestion r of [q] \<Rightarrow> if fst (Decide p (rsNow s) q) then baseChain front forward e (idName i) r s
         else (wroteReply RcodeRefused (newReply\<lparr>reRcode := RcodeRefused\<rparr>), s)
       | _ \<Rightarrow> (gaveUp RcodeRefused, s))"
    using p(1) by (simp add: identityChain_def serveACL_def split: list.splits)
  have open_to: "fst (Decide p now q) \<Longrightarrow> qClass q = ClassINET \<and>
      (openTo i q \<or> hasSuffix (toLower (qName q)) ''.local.'' \<and> earned tr i now (toLower (qName q)))"
    "\<not> fst (Decide p now q) \<Longrightarrow> \<not> (qClass q = ClassINET \<and> openTo i q)" for q now
    using p(2) by (auto simp: Decide_open policyInv_def)
  show ?thesis using assms(4) open_to unfolding run by (auto split: list.splits if_splits)
qed

theorem resolver_access_is_earned_witness:
  "hasSuffix ''printer.local.'' ''.local.'' \<and> earned kioskTrace kiosk (rsNow kioskAfter) ''printer.local.''"
proof -
  let ?r = "askMsg ''printer.local.'' TypeA"
  let ?front = "\<lambda>_. Some (gaveUp 0)"
  have member: "kiosk \<in> set (aclIdentities kioskACL)" by (simp add: kioskACL_def)
  have answered: "svCode (fst (identityChain (idName kiosk) ?front (\<lambda>_. gaveUp 0) kioskEnv [] ?r kioskAfter)) \<noteq> RcodeRefused"
    and closed: "\<not> list_ex (openTo kiosk) (mQuestion ?r)" and q: "map qName (mQuestion ?r) = [''printer.local.'']"
    "toLower ''printer.local.'' = ''printer.local.''" by code_simp+
  show ?thesis
    using resolver_access_is_earned [where front = ?front and forward = "\<lambda>_. gaveUp 0" and e = kioskEnv
        and ctx = "[]" and r = ?r, OF kiosk_run kiosk_ok member surjective_pairing]
      answered closed q by auto
qed

section \<open>Starting\<close>

text \<open>
  C33. A resolver that started serves its identities apart.  No identity listens on the base
  address or on that of another, each identity has its own policy without any grant and its own
  published address, CoreDNS runs the configuration generated for them, and a listener whose name is
  no identity is refused.
\<close>

theorem started_resolver_separates_identities:
  assumes "startResolver e leases address port upstream opts s = (Done (), t)"
  shows "\<exists>ip a lan. ParseIP address = Some ip \<and> startPlan opts = (a, lan) \<and>
    rhServing t = Some (pluginCorefile leases port (addrString ip) upstream (aclIdentities a)) \<and>
    distinct (map idName (aclIdentities a)) \<and> distinct (map listenKey (aclIdentities a)) \<and>
    (\<forall>i \<in> set (aclIdentities a). ParseIP (idListen i) \<noteq> Some ip \<and>
       policyFor (resolverState.truncate t) (idName i) = Some (newPolicy i) \<and>
       map_of (rhFiles t) (''dns-'' @ idName i @ ''.env'') = Some (''GHOSTD_DNS_ADDRESS='' @ idListen i @ lf)) \<and>
    (\<forall>n nxt ctx r. n \<notin> idName ` set (aclIdentities a) \<longrightarrow>
       serveACL n nxt ctx r (resolverState.truncate t) = (gaveUp RcodeRefused, resolverState.truncate t))"
proof -
  obtain ip a lan where t: "ParseIP address = Some ip" "startPlan opts = (a, lan)" "aclOk a"
    "\<And>i. i \<in> set (aclIdentities a) \<Longrightarrow> ParseIP (idListen i) \<noteq> Some ip" "rsPolicies t = Some (setPolicies a)"
    "rhServing t = Some (pluginCorefile leases port (addrString ip) upstream (aclIdentities a))"
    "rhFiles t = foldl (\<lambda>m f. assocPut (fst f) (snd f) m) (rhFiles s) (publishedFiles ip a)"
    by (rule startResolver_Done [OF assms]) blast
  have published: "map_of (rhFiles t) (''dns-'' @ idName i @ ''.env'') = Some (''GHOSTD_DNS_ADDRESS='' @ idListen i @ lf)"
    if "i \<in> set (aclIdentities a)" for i
    unfolding t(7) by (rule map_of_published [OF publishedFiles_distinct publishedFiles_identity [OF t(3) that]])
  have policy: "policyFor (resolverState.truncate t) n = map_of (setPolicies a) n" for n
    by (simp add: policyFor_def resolverState.truncate_def t(5))
  have none: "map_of (setPolicies a) n = None" if "n \<notin> idName ` set (aclIdentities a)" for n
    using setPolicies_lookup [of a n] that by (cases "map_of (setPolicies a) n") auto
  have refused: "serveACL n nxt ctx r (resolverState.truncate t) = (gaveUp RcodeRefused, resolverState.truncate t)"
    if "n \<notin> idName ` set (aclIdentities a)" for n nxt ctx r
    using none [OF that] by (simp add: serveACL_def policy)
  show ?thesis
    using t(1-4,6) published refused setPolicies_complete [OF t(3)] by (auto simp: policy aclOk_def)
qed

theorem started_resolver_separates_identities_witness:
  "\<exists>ip. ParseIP ''100.64.0.1'' = Some ip \<and>
     map_of (rhFiles (snd (startResolver goodStart True ''100.64.0.1'' 53 Quad100 [WithACL kioskACL, WithLAN] kioskHost)))
       ''dns-kiosk.env'' = Some (''GHOSTD_DNS_ADDRESS=100.64.0.9'' @ lf)"
proof -
  have plan: "startPlan [WithACL kioskACL, WithLAN] = (kioskACL, True)" by (simp add: startPlan_def applyOption_def)
  show ?thesis
    using started_resolver_separates_identities [OF kiosk_starts] unfolding plan
    by (auto simp: kioskACL_def kiosk_def)
qed

text \<open>
  C37. A start that fails serves nothing: whichever step fails, no policies are left in force and
  CoreDNS is not running.
\<close>

theorem failed_start_serves_nothing:
  assumes "startResolver e leases address port upstream opts s = (Err x, t)" "rsPolicies s = None" "rhServing s = None"
  shows "rsPolicies t = None \<and> rhServing t = None"
  using startResolver_Err [OF assms] .

theorem failed_start_serves_nothing_witness:
  "rhServing (snd (startResolver (goodStart\<lparr>sePublish := (\<lambda>n. n = ''dns.env'')\<rparr>) True ''100.64.0.1'' 53 Quad100
     [WithACL kioskACL] kioskHost)) = None"
proof -
  let ?run = "startResolver (goodStart\<lparr>sePublish := (\<lambda>n. n = ''dns.env'')\<rparr>) True ''100.64.0.1'' 53 Quad100 [WithACL kioskACL] kioskHost"
  have "fst ?run = Err (Error ''publish'')" "rsPolicies kioskHost = None" "rhServing kioskHost = None" by code_simp+
  then show ?thesis using failed_start_serves_nothing [of _ _ _ _ _ _ kioskHost "Error ''publish''" "snd ?run"] by (metis prod.collapse)
qed

section \<open>Leases by name\<close>

text \<open>
  C32. Host names resolve to the leases that bear them.  On a readable and consistent ledger, a
  question for the addresses of a host of a lease zone is answered, and the answers are exactly the
  addresses of the asked family of the active, unexpired leases with that name, or with the name the
  host is an alias of, in the scopes of the zone, none of them a delegated prefix; without such a
  lease the name does not exist.
\<close>

theorem lease_names_resolve_exactly:
  assumes "bolt_laws B" "bookOk B (db st)" "txBegin B (db st) = None" "steady st now" "Validate c = Inr ()"
    "mQuestion r = [q]" "qClass q = ClassINET" "qType q \<in> {TypeA, TypeAAAA}"
    "toLower (qName q) = host @ ''.'' @ zone @ ''.''" "host \<noteq> ''ns''"
    "findZone (toLower (qName q)) (cScopes c) = Forward s" "sZone s = zone"
  shows "\<exists>reply st'. serveLeases reverseAddr B c nxt r st = (Done (wroteReply RcodeSuccess reply), st') \<and>
    (let leases = namedLeases B (db st) c zone now (fst (resolveAlias c zone (host, host @ ''.'' @ zone @ ''.'')))
     in set (reAnswer reply) = addressesOf q now leases \<and>
        reRcode reply = (if leases = {} then RcodeNameError else RcodeSuccess))"
proof -
  obtain reply st' where run: "serveLeases reverseAddr B c nxt r st = (Done (wroteReply RcodeSuccess reply), st')"
    using bolt_laws.serveLeases_returns [OF assms(1-3,6,7,11)] by blast
  show ?thesis
  proof (rule bolt_laws.serveLeases_reply [OF assms(1,2,4-7,9,11,12) refl run])
    assume "wroteReply RcodeSuccess reply = brokeWith RcodeServerFailure"
    then show ?thesis by simp
  next
    fix bs serial
    let ?label = "fst (resolveAlias c zone (host, host @ ''.'' @ zone @ ''.''))"
    assume reply: "wroteReply RcodeSuccess reply = wroteReply RcodeSuccess (leaseReply reverseAddr c s False
        (host @ ''.'' @ zone @ ''.'') (?label @ ''.'' @ zone @ ''.'') q now serial bs)"
      and hits: "{b \<in> set bs. answersFor reverseAddr zone False (host @ ''.'' @ zone @ ''.'')
        (?label @ ''.'' @ zone @ ''.'') now b} = namedLeases B (db st) c zone now ?label"
    show ?thesis
      using leaseReply_host [OF assms(8,10), of _ s bs reverseAddr] reply hits run assms(12) by (auto simp: Let_def)
  qed
qed

theorem lease_names_resolve_exactly_witness:
  "\<exists>reply st'. serveLeases id memBolt lanConfig (\<lambda>_. gaveUp 0) (askMsg ''Alice.home.example.'' TypeA) aliceBook =
     (Done (wroteReply RcodeSuccess reply), st') \<and>
   set (reAnswer reply) = addressesOf \<lparr>qName = ''Alice.home.example.'', qType = TypeA, qClass = ClassINET\<rparr> 1000
     (namedLeases memBolt (db aliceBook) lanConfig ''home.example'' 1000 ''alice'')"
proof -
  let ?q = "\<lparr>qName = ''Alice.home.example.'', qType = TypeA, qClass = ClassINET\<rparr>"
  have "steady aliceBook 1000" by (simp add: steady_def alice_wall)
  moreover have "mQuestion (askMsg ''Alice.home.example.'' TypeA) = [?q]" by (simp add: askMsg_def)
  moreover have "toLower (qName ?q) = ''alice'' @ ''.'' @ ''home.example'' @ ''.''" "Validate lanConfig = Inr ()"
    "findZone (toLower (qName ?q)) (cScopes lanConfig) = Forward (hd (cScopes lanConfig))"
    "sZone (hd (cScopes lanConfig)) = ''home.example''"
    "fst (resolveAlias lanConfig ''home.example'' (''alice'', ''alice'' @ ''.'' @ ''home.example'' @ ''.'')) = ''alice''"
    by code_simp+
  moreover have "txBegin memBolt (db aliceBook) = None" by (rule mem.begin_ok)
  ultimately show ?thesis
    using lease_names_resolve_exactly [OF mem_laws(1) wholeOk_parts(2) [OF alice_ok(1)], of 1000 lanConfig
        "askMsg ''Alice.home.example.'' TypeA" ?q "''alice''" "''home.example''" "hd (cScopes lanConfig)" id "\<lambda>_. gaveUp 0"]
    by (auto simp: Let_def)
qed

end
