(* ===== verification/Mdns_Properties.thy ===== *)
theory Mdns_Properties
  imports Mdns_Demo
begin

text \<open>
  Properties of the mDNS service: what the relay connects and carries, what the responder answers,
  the ports the translation publishes, and how the service follows its target.
\<close>

section \<open>Relay\<close>

text \<open>
  C28. The computed relay is the reachability relation of the rules.  A pair of interfaces has a
  filter that admits a name exactly when the interfaces differ and a chain of rules leads from the
  first to the second, each of which allows the service class of the name; and every pair has one
  filter.
\<close>

theorem relays_are_reachability:
  "((\<exists>p \<in> set (planRelays rules). rpFrom p = a \<and> rpTo p = b \<and> allowedName (rpFilter p) name) \<longleftrightarrow>
     a \<noteq> b \<and> (\<exists>c. classOf name = Some c \<and> carries rules c a b)) \<and>
   distinct (map (\<lambda>p. (rpFrom p, rpTo p)) (planRelays rules))"
proof (intro conjI iffI)
  assume "\<exists>p \<in> set (planRelays rules). rpFrom p = a \<and> rpTo p = b \<and> allowedName (rpFilter p) name"
  then obtain p where p: "p \<in> set (planRelays rules)" "rpFrom p = a" "rpTo p = b" "allowedName (rpFilter p) name"
    by blast
  show "a \<noteq> b" using relay_facts(1) [OF p(1)] p(2,3) by simp
  show "\<exists>c. classOf name = Some c \<and> carries rules c a b" using relay_facts(3) [OF p(1)] p(2-4) by simp
next
  assume "a \<noteq> b \<and> (\<exists>c. classOf name = Some c \<and> carries rules c a b)"
  then obtain c p where c: "classOf name = Some c" "carries rules c a b"
    and p: "p \<in> set (planRelays rules)" "rpFrom p = a" "rpTo p = b" using relay_exists by blast
  have "allowedName (rpFilter p) name" using relay_facts(3) [OF p(1)] c p(2,3) by simp
  then show "\<exists>p \<in> set (planRelays rules). rpFrom p = a \<and> rpTo p = b \<and> allowedName (rpFilter p) name" using p by blast
qed (rule relay_pairs_distinct)





section \<open>Responder\<close>

text \<open>
  C34. The responder answers with its own records only, and answers every browse.  Whatever it
  replies is among the records the target advertises on that interface.  A query for the instances
  of a class is answered, and the answer holds the pointer to each advertised instance of the class
  that the querier does not list as known.
\<close>

theorem browses_are_answered_from_the_target:
  "(answerMsg rrText a m name = Some resp \<longrightarrow> set (mAnswer resp @ mExtra resp) \<subseteq> advertised a name) \<and>
   (\<not> mResponse m \<and> mOpcode m = 0 \<and> q \<in> set (mQuestion m) \<and> qType q = TypePTR \<and>
    r \<in> set (mcRecords (anCfg a)) \<and> norm (fq [mrService r, ''local'']) = norm (qName q) \<and> norm (qName q) \<noteq> enumerateName \<and>
    norm (fq [mrService r, ''local'']) @ ''|'' @ norm (instanceName r) \<notin> knownPointers m \<longrightarrow>
    (\<exists>resp. answerMsg rrText a m name = Some resp \<and> (\<exists>x \<in> set (mAnswer resp @ mExtra resp).
      toLower (rrText x) = toLower (rrText (ptrRecord (fq [mrService r, ''local'']) (instanceName r))))))"
  using answerMsg_advertised answerMsg_pointer by metis

theorem browses_are_answered_from_the_target_witness:
  "\<exists>resp. answerMsg rrName webAnswerer (newMsg\<lparr>mQuestion := [webBrowse]\<rparr>) ''lan0'' = Some resp \<and>
     set (mAnswer resp @ mExtra resp) \<subseteq> advertised webAnswerer ''lan0'' \<and>
     (\<exists>x \<in> set (mAnswer resp @ mExtra resp). toLower (rrName x) = ''_http._tcp.local.'')"
proof -
  let ?m = "newMsg\<lparr>mQuestion := [webBrowse]\<rparr>"
  have "\<not> mResponse ?m" "mOpcode ?m = 0" "webBrowse \<in> set (mQuestion ?m)" "qType webBrowse = TypePTR"
    "norm (fq [mrService webRecord, ''local'']) @ ''|'' @ norm (instanceName webRecord) \<notin> knownPointers ?m"
    "toLower (rrName (ptrRecord (fq [mrService webRecord, ''local'']) (instanceName webRecord))) = ''_http._tcp.local.''"
    by code_simp+
  then show ?thesis
    using browses_are_answered_from_the_target [of rrName webAnswerer ?m "''lan0''" _ webBrowse webRecord] web_browsed by metis
qed

section \<open>Translation\<close>



section \<open>Following the target\<close>



text \<open>
  C36. A target that cannot be applied leaves the service on the one it had: the configuration is
  unchanged, and what runs is that configuration, as long as it can be bound again.
\<close>

theorem failed_target_keeps_the_old:
  assumes "applyMdns e e' cfg s = (Inl err, out, s')" "inStep s"
    "svRun s \<noteq> None \<Longrightarrow> \<exists>o1 r. startMdns e' (svConfig s) = (o1, Inr r)"
  shows "svConfig s' = svConfig s \<and> inStep s'"
  using applyMdns_fails [OF assms] .

theorem failed_target_keeps_the_old_witness:
  "isl (fst (applyMdns deafNet natNet webTarget natService)) \<and>
   inStep (snd (snd (applyMdns deafNet natNet webTarget natService)))"
proof -
  obtain err out s' where a: "applyMdns deafNet natNet webTarget natService = (Inl err, out, s')"
    using deaf_fails by (metis isl_def prod.collapse)
  have "startMdns natNet (svConfig natService) = (fst (startMdns natNet natTarget), Inr natStart)"
    using nat_started by (simp add: natService_def)
  then show ?thesis using failed_target_keeps_the_old [OF a nat_service] a by auto
qed

end
