(* ===== verification/Spec2Isabelle.thy ===== *)
theory Spec2Isabelle
  imports Confirmation Firewall_Properties Book_Properties Naming_Properties Mdns_Properties
begin

text \<open>
  Verification of ghostd, a host agent that applies firewall and network configuration under a
  dead-man's switch and keeps the address book of the networks it serves.

  \<^bold>\<open>The program and its model.\<close>  Every theory translates the files it names, function by
  function, under the names of the source.

  \<^item> \<^verbatim>\<open>Ghost_Prelude\<close>: errors as values, programs as state transformers with the three outcomes
    \<open>Done\<close>, \<open>Err\<close> and \<open>Died\<close> (the process is killed or panics), a Hoare logic for them.
    \<^verbatim>\<open>Go_Json\<close>, \<^verbatim>\<open>Go_Netip\<close>, \<^verbatim>\<open>Go_Path\<close>, \<^verbatim>\<open>Go_Sha256\<close>: the parts of Go's library that the sources use.
  \<^item> \<^verbatim>\<open>State_Store\<close> (\<^verbatim>\<open>src/internal/state\<close>): atomic files, transaction records and the timers that
    revert them.  \<^verbatim>\<open>Auth\<close> (\<^verbatim>\<open>src/internal/auth\<close>): who may deploy.
  \<^item> \<^verbatim>\<open>Nft_Policy\<close>, \<^verbatim>\<open>Nft_Render\<close>, \<^verbatim>\<open>Nft_Kernel\<close> (\<^verbatim>\<open>src/internal/nft\<close>): the firewall request, its
    rendering as an nftables script, and the exchange with the kernel.  \<^verbatim>\<open>Nft_Semantics\<close> gives the
    printed chains a meaning on packets; \<^verbatim>\<open>Nft_Policy_Facts\<close> and \<^verbatim>\<open>Firewall_Properties\<close> prove what
    the chains accept and what validation demands.
  \<^item> \<^verbatim>\<open>Netconfig\<close> (\<^verbatim>\<open>src/internal/netconfig\<close>): interface files, routes, snapshots and rollback.
  \<^item> \<^verbatim>\<open>Rpc_Server\<close> (\<^verbatim>\<open>src/internal/rpc\<close>) and \<^verbatim>\<open>Daemon\<close> (\<^verbatim>\<open>src/cmd/ghostd\<close>): Apply, Confirm, the
    revert process and the recovery at boot, composed of the parts above.  \<^verbatim>\<open>Firewall_Safety\<close>,
    \<^verbatim>\<open>Dead_Man_Switch\<close> and \<^verbatim>\<open>Confirmation\<close> prove the promise of the switch over a step relation.
  \<^item> \<^verbatim>\<open>Bolt\<close>: the transactional store under the address book.  The store is a parameter with the
    laws of the locale \<open>bolt_laws\<close>; an in-memory store interprets them.
  \<^item> \<^verbatim>\<open>Book_Config\<close>, \<^verbatim>\<open>Book_Types\<close>, \<^verbatim>\<open>Book_Ledger\<close>, \<^verbatim>\<open>Book_Allocate\<close>, \<^verbatim>\<open>Book_Prefix\<close>,
    \<^verbatim>\<open>Book_Identity\<close>, \<^verbatim>\<open>Book_Replica\<close> (\<^verbatim>\<open>src/internal/addressbook\<close>): configuration, ledger and
    indexes, leases, delegated prefixes, identities, replication.  \<^verbatim>\<open>Book_Index\<close>, \<^verbatim>\<open>Book_Queries\<close>,
    \<^verbatim>\<open>Book_Plain\<close>, \<^verbatim>\<open>Book_Valid\<close>, \<^verbatim>\<open>Book_Leases\<close>, \<^verbatim>\<open>Book_Pool\<close>, \<^verbatim>\<open>Book_Codec\<close> hold its invariant and
    what follows from it.

  \<^bold>\<open>Abstractions.\<close>  JSON is a tree; its concrete syntax is not modelled.  Messages of errors are
  their constant part.  The iteration order of a Go map is the order of a list, and the theorems
  hold for every order.  Case folding is that of ASCII.  The clock of the address book may show
  any instant at each reading.  Programs that the daemon runs (nft, ip, systemd), the overlay
  and bbolt are parameters; the theorems name what they assume of them.

  \<^bold>\<open>Bounds.\<close>  The walk over the files that interfaces include counts down from a bound that no
  acyclic tree exceeds; the scan of an address pool stops at 65536 addresses, the size that
  validation admits, and a scan beyond that is the outcome \<open>Died\<close>.

  \<^bold>\<open>Not modelled.\<close>  Sockets, packet parsing and the generated protocol stubs; the DHCP handover,
  the container resolver and the mDNS reflector.
\<close>

section \<open>The dead-man's switch\<close>

text \<open>
  C1. Along every sequence of events (requests of any kind, confirmations, timers that fire at
  any time, restarts, changes by other programs), with any failure of the store, of systemd or
  of the kernel and with the death of the process at any of their steps, the firewall keeps the
  promise of the dead-man's switch: while an unconfirmed lease is open its durable record leads
  back to the baseline table, and while none is open the table in the kernel is the baseline.
\<close>

theorem firewall_always_recoverable:
  assumes "nftDocumented (nftRunner S) table" "extraDomains S = []"
    "safe (viewOf ''firewall'' NftRuleset) (\<lambda>s. table (nftk s)) contentSnap (Some T0) s0"
    "(fwStep S table)\<^sup>*\<^sup>* (s0, T0) (s, T)"
  shows "safe (viewOf ''firewall'' NftRuleset) (\<lambda>s. table (nftk s)) contentSnap (Some T) s"
  using fwSteps_safe [OF assms(1,2,4)] assms(3) by simp

theorem firewall_always_recoverable_witness:
  "safe (viewOf ''firewall'' NftRuleset) (\<lambda>s. demoTable (nftk s)) contentSnap (Some (demoScript False))
     (snd (Apply demoServer (Some ''100.64.0.9:1111'') demoRequest demoHost))"
proof (rule firewall_always_recoverable [where S = demoServer and ?s0.0 = demoHost and ?T0.0 = "demoScript False"])
  show "(fwStep demoServer demoTable)\<^sup>*\<^sup>* (demoHost, demoScript False)
      (snd (Apply demoServer (Some ''100.64.0.9:1111'') demoRequest demoHost), demoScript False)"
    by (intro r_into_rtranclp fwStep.applied) (rule surjective_pairing)
qed (simp_all add: demo_extra demo_documented demo_safe)

text \<open>
  C2. The revert process that the timer starts for an open firewall lease, when it returns
  without an error, has put the content of the snapshot back into the kernel and closed the
  lease durably, keeping what was confirmed.
\<close>

theorem revert_restores_snapshot:
  assumes "nftDocumented r table" "viewOf ''firewall'' NftRuleset s = Some d" "Pending d = Some p"
    "contentSnap (PSnapshot p) = Some T" "runRevert [] r netR (PendingID p) ''firewall'' s = (Done u, t)"
  shows "table (nftk t) = Some T \<and> viewOf ''firewall'' NftRuleset t = Some (d\<lparr>Pending := None\<rparr>)"
  using assms by (rule revert_done)

theorem revert_restores_snapshot_witness:
  "\<exists>t. runRevert [] demoNft demoOk ''lease-0'' ''firewall'' demoLeased = (Done (), t) \<and>
     demoTable (nftk t) = Some (demoScript False) \<and>
     viewOf ''firewall'' NftRuleset t = Some \<lparr>Confirmed = NoBytes, Pending = None\<rparr>"
proof -
  obtain t where t: "runRevert [] demoNft demoOk ''lease-0'' ''firewall'' demoLeased = (Done (), t)"
    using revert_returns [OF demo_leased_facts, of demoNft] by (auto simp: demoPending_def demoNft_def)
  show ?thesis
    using revert_restores_snapshot [OF demo_documented demo_leased_facts(3-5), of demoOk "()" t] t
    by (simp add: demoPending_def)
qed

text \<open>
  C3. The revert process does return: when the store answers and the kernel accepts the replay
  script of the snapshot, it ends without an error.
\<close>

theorem revert_terminates_normally:
  assumes "faultless s" "''firewall'' \<in> set (domains s)" "viewOf ''firewall'' NftRuleset s = Some d"
    "Pending d = Some p" "contentSnap (PSnapshot p) = Some T"
    "r [''nft'', ''-j'', ''-f'', ''-''] (Json T) (nftk s) = (Replied b, k)"
  shows "\<exists>t. runRevert [] r netR (PendingID p) ''firewall'' s = (Done (), t)"
  using assms by (rule revert_returns)

theorem revert_terminates_normally_witness:
  "\<exists>t. runRevert [] demoNft demoOk ''lease-0'' ''firewall'' demoLeased = (Done (), t)"
  using revert_terminates_normally [OF demo_leased_facts, of demoNft]
  by (auto simp: demoPending_def demoNft_def)

text \<open>
  C4. A timer that fires for a lease that is not the open one of its domain (because it was
  confirmed, rolled back or replaced) changes neither the store nor the kernel nor the network
  configuration, in the firewall and in the network domain.
\<close>

theorem stale_timer_does_nothing:
  assumes "i \<noteq> []" "recoverKey ([] :: ('y, 'n, 'k) host domainHook list) domain = Inr key"
    "\<And>d p. viewOf domain key s = Some d \<Longrightarrow> Pending d = Some p \<Longrightarrow> PendingID p \<noteq> i"
    "runRevert [] r netR i domain (s :: ('y, 'n, 'k) host) = (a, t)"
  shows "disk t = disk s \<and> nftk t = nftk s \<and> net t = net s"
  using assms by (rule revert_stale)

theorem stale_timer_does_nothing_witness:
  "nftk (snd (runRevert [] demoNft demoOk ''lease-9'' ''firewall'' demoLeased))"
proof -
  have "nftk (snd (runRevert [] demoNft demoOk ''lease-9'' ''firewall'' demoLeased)) = nftk demoLeased"
    by (rule stale_timer_does_nothing [THEN conjunct2, THEN conjunct1, OF _ recoverKey_core(1) _ surjective_pairing])
      (use demo_leased_facts(3) in \<open>auto simp: demoPending_def\<close>)
  then show ?thesis by (simp add: demoLeased_def)
qed

text \<open>
  C5. A request that is refused before the store lock leaves the host exactly as it was: in
  observation mode, without a peer address, from a caller the overlay does not authorize to
  deploy, and without a positive dead-man's-switch timeout.
\<close>

theorem refused_apply_changes_nothing:
  assumes "ObserveOnly S \<or> peer = None \<or>
    (\<forall>who. AuthorizeDeployer (authenticatorOf S) (the peer) \<noteq> Inr who) \<or> DeadManSwitchSeconds req \<le> 0"
  shows "\<exists>c m. Apply S peer req s = (Err (Status c m), s)"
  using assms
  by (cases peer; cases "AuthorizeDeployer (authenticatorOf S) (the peer)"; cases "projl (AuthorizeDeployer (authenticatorOf S) (the peer))")
    (auto simp: Apply_def prog_defs peerAddr_def statusOf_def split: error.splits)

theorem refused_apply_changes_nothing_witness:
  "\<exists>c m. Apply demoServer (Some ''203.0.113.5:4000'') demoRequest demoHost = (Err (Status c m), demoHost)"
  by (rule refused_apply_changes_nothing)
    (auto simp: demoServer_def demoAuth_def NewAuthenticator_def AuthorizeDeployer_def Identify_def)

text \<open>
  C6. A confirmation succeeds only for a caller who may deploy and for the open lease of that
  identifier in one of the domains, which was applied completely, whose deadline had not passed
  when it was read, and whose connection is not the one that applied it; and then the record on
  disk has the new confirmed state and no lease.  Outside the firewall the confirmed state is
  the target of the lease.
\<close>

theorem confirm_conditions:
  assumes "Confirm S peer i s = (Done b, t)"
  shows "\<exists>addr who domain d p c. peer = Some addr \<and>
    AuthorizeDeployer (authenticatorOf S) addr = Inr who \<and> i \<noteq> [] \<and>
    domain \<in> set ([domainFirewall, domainNetconfig] @ extraDomainNames S) \<and>
    viewOf domain (legacyName S domain) s = Some d \<and>
    Pending d = Some p \<and> PendingID p = i \<and> Applied p \<and> Peer p \<noteq> addr \<and>
    clock s (tick s) < Deadline p \<and>
    disk t (recordFile domain) = Some (Json (encDomain \<lparr>Confirmed = c, Pending = None\<rparr>)) \<and>
    (domain \<noteq> domainFirewall \<longrightarrow> c = Target p)"
proof -
  obtain addr who s1 where a: "peer = Some addr" "AuthorizeDeployer (authenticatorOf S) addr = Inr who" "i \<noteq> []"
    and l: "Lock s = (Done (), s1)"
    and c: "confirmIn S addr i ([domainFirewall, domainNetconfig] @ extraDomainNames S) s1 = (Done b, t)"
    using assms
    by (auto simp: Confirm_def bindM_Done internal_def peerAddr_def
        simp del: confirmIn.simps append.simps split: if_splits option.splits)
  have "viewOf x y s1 = viewOf x y s" for x y
    using Lock_frame [OF l] by (intro viewOf_cong) simp_all
  then show ?thesis
    using confirmIn_done [OF c] Lock_clock [OF l] a by auto
qed

theorem confirm_conditions_witness:
  "\<exists>d p. viewOf ''firewall'' NftRuleset demoLeased = Some d \<and> Pending d = Some p \<and> Applied p \<and>
     Peer p \<noteq> ''100.64.0.9:2222''"
proof -
  have "fst (Confirm demoServer (Some ''100.64.0.9:2222'') ''lease-0'' demoLeased) = Done True"
    by code_simp
  then obtain t where "Confirm demoServer (Some ''100.64.0.9:2222'') ''lease-0'' demoLeased = (Done True, t)"
    by (metis prod.collapse)
  from confirm_conditions [OF this] show ?thesis
    using demo_leased_facts(3,4) by (auto simp: demoPending_def)
qed

section \<open>The store\<close>

text \<open>
  C7. A save is atomic at every point of failure and of death: the blob is the old or the new
  one, a save that reports success has the new one, and no other blob changes but the temporary
  file.
\<close>

theorem save_is_atomic:
  assumes "Save name data s = (r, t)"
  shows "(disk t name = disk s name \<or> disk t name = Some data) \<and>
    (r = Done () \<longrightarrow> disk t name = Some data) \<and>
    (\<forall>other. other \<noteq> name \<and> other \<noteq> tmpName name \<longrightarrow> disk t other = disk s other)"
  using Save_disk [OF assms] by blast

theorem save_is_atomic_witness:
  "disk (snd (Save ''a'' (Text ''new'') (demoHost\<lparr>saveFaults := [DiesWriting (Some (Text ''ne''))]\<rparr>))) ''b'' = None"
  using save_is_atomic [of "''a''" "Text ''new''" "demoHost\<lparr>saveFaults := [DiesWriting (Some (Text ''ne''))]\<rparr>",
      OF surjective_pairing]
  by (simp add: demoHost_def tmpName_def)

text \<open>
  C8. A transaction record survives its encoding on disk: what a later process decodes is the
  record that was saved, with the bytes of the confirmed state, of the snapshot and of the
  target unchanged and the identifiers as JSON can carry them.
\<close>

theorem domain_record_round_trip:
  "decDomain emptyDomain (encDomain d) = Inr (cleanDomain d) \<and>
   Confirmed (cleanDomain d) = Confirmed d \<and>
   map_option PSnapshot (Pending (cleanDomain d)) = map_option PSnapshot (Pending d) \<and>
   map_option Target (Pending (cleanDomain d)) = map_option Target (Pending d) \<and>
   map_option Deadline (Pending (cleanDomain d)) = map_option Deadline (Pending d)"
  by (cases "Pending d") (simp_all add: decDomain_encDomain)

end
